theory Spec2Isabelle
  imports Complex_Main
begin

section \<open>Python values\<close>

text \<open>
  A Python \<open>str\<close> is a sequence of Unicode code points, and \<open>len\<close> counts code points,
  so text is a list of code points. \<open>U\<close> reads an ASCII literal; every other character
  of the program's constants is written as its code point.
\<close>

type_synonym ustring = "nat list"

definition U :: "string \<Rightarrow> ustring" where
  "U s = map of_char s"

text \<open>\<open>sep.join(xs)\<close>\<close>

fun join :: "ustring \<Rightarrow> ustring list \<Rightarrow> ustring" where
  "join sep [] = []"
| "join sep [x] = x"
| "join sep (x # y # ys) = x @ sep @ join sep (y # ys)"

text \<open>\<open>str(n)\<close> for a natural number: its decimal digits.\<close>

function str_nat :: "nat \<Rightarrow> ustring" where
  "str_nat n = (if n < 10 then [48 + n] else str_nat (n div 10) @ [48 + n mod 10])"
  by pat_completeness auto
termination
  by (relation "measure id") auto

text \<open>The values that travel as keyword arguments of an event.\<close>

datatype pyval =
    VNone
  | VBool bool
  | VInt int
  | VFloat real
  | VStr ustring
  | VList "pyval list"

type_synonym kwargs = "(string \<times> pyval) list"

datatype error =
    ValueError ustring
  | KeyError ustring
  | IndexError
  | RuntimeError ustring
  | GenerationError ustring

section \<open>modules/callbacks.py\<close>

definition CALLBACK_TYPES :: "ustring list" where
  "CALLBACK_TYPES =
     [U ''on_detection'', U ''on_classification'', U ''on_message'',
      U ''on_error'', U ''on_startup'', U ''on_session_end'']"

text \<open>
  A subscriber is called with the keyword arguments of the event; \<open>Some e\<close> is an
  exception whose text is \<open>e\<close>, \<open>None\<close> a normal return.
\<close>

type_synonym callback = "kwargs \<Rightarrow> ustring option"

record event =
  ev_type :: ustring
  ev_timestamp :: real
  ev_data :: kwargs

record CallbackManager =
  callbacks :: "ustring \<rightharpoonup> callback list"
  history :: "event list"
  max_history :: nat

text \<open>
  What the program does besides changing its state, in the order it does it: lines
  written to the logger, the subscribers the manager calls (event kind, position in the
  kind's list, arguments), the file written by \<open>save_history\<close>, every call of
  \<open>callback_manager.trigger\<close> made by the other modules (kind and keyword arguments, as
  passed), what is shown on the page, and the stages of answering a question.
\<close>

datatype level = DEBUG | INFO | WARNING | ERROR

text \<open>
  The page elements. Texts that format a floating-point number carry the number
  instead of its digits.
\<close>

datatype ui =
    Subheader ustring
  | Image ustring
  | Info ustring
  | Warning ustring
  | Error ustring
  | Markdown ustring
  | DetectionLine nat ustring ustring real
  | ConclusionMalignant real
  | ConclusionBenign real

text \<open>
  The stages of answering a question that call into the knowledge base, the prompt
  builder and the external generator (with the prompt it receives).
\<close>

datatype stage = Knowledge_retrieval | Prompt_building | Generation ustring

datatype effect =
    Log level ustring
  | Call ustring nat kwargs
  | WriteFile ustring "event list"
  | Emit ustring kwargs
  | Show ui
  | Ran stage

definition CallbackManager_init :: "CallbackManager \<times> effect list" where
  "CallbackManager_init =
     (\<lparr>callbacks = map_of (map (\<lambda>callback_type. (callback_type, [])) CALLBACK_TYPES),
       history = [],
       max_history = 100\<rparr>,
      [Log INFO (U ''Gestionnaire de callbacks initialis'' @ [233])])"

text \<open>
  A method returns the exception it raises (if any), the manager as the call leaves it,
  and its effects.
\<close>

type_synonym outcome = "error option \<times> CallbackManager \<times> effect list"

definition register :: "CallbackManager \<Rightarrow> ustring \<Rightarrow> callback \<Rightarrow> outcome" where
  "register self event_type callback =
     (if event_type \<notin> set CALLBACK_TYPES then
        (Some (ValueError (U ''Type d'' @ [39, 233] @ U ''v'' @ [233] @ U ''nement inconnu: '' @
                 event_type @ U ''. Les types valides sont: '' @ join (U '', '') CALLBACK_TYPES)),
         self, [])
      else
        (case callbacks self event_type of
           None \<Rightarrow> (Some (KeyError event_type), self, [])
         | Some cs \<Rightarrow>
             (None,
              self\<lparr>callbacks := (callbacks self)(event_type \<mapsto> cs @ [callback])\<rparr>,
              [Log DEBUG (U ''Callback enregistr'' @ [233] @ U '' pour l'' @ [39, 233] @
                 U ''v'' @ [233] @ U ''nement: '' @ event_type)])))"

text \<open>
  \<open>xs[-n:]\<close>: the last \<open>n\<close> elements, and the whole list when \<open>n = 0\<close> (since \<open>-0 = 0\<close>)
  or when \<open>n\<close> exceeds the length.
\<close>

definition slice_last :: "nat \<Rightarrow> 'a list \<Rightarrow> 'a list" where
  "slice_last n xs = (if n = 0 then xs else drop (length xs - n) xs)"

text \<open>
  The loop over the subscribers of a kind: each is called in registration order, and
  one that raises is logged and does not stop the loop.
\<close>

fun run_callbacks :: "ustring \<Rightarrow> kwargs \<Rightarrow> nat \<Rightarrow> callback list \<Rightarrow> effect list" where
  "run_callbacks event_type kw i [] = []"
| "run_callbacks event_type kw i (cb # cbs) =
     Call event_type i kw #
     (case cb kw of
        None \<Rightarrow> []
      | Some e \<Rightarrow> [Log ERROR (U ''Erreur dans le callback pour '' @ event_type @ U '': '' @ e)])
     @ run_callbacks event_type kw (Suc i) cbs"

text \<open>\<open>now\<close> is the value \<open>time.time()\<close> returns during the call.\<close>

definition trigger :: "CallbackManager \<Rightarrow> real \<Rightarrow> ustring \<Rightarrow> kwargs \<Rightarrow> outcome" where
  "trigger self now event_type kw =
     (if event_type \<notin> set CALLBACK_TYPES then
        (None, self,
         [Log WARNING (U ''Tentative de d'' @ [233] @ U ''clenchement d'un '' @ [233] @
            U ''v'' @ [233] @ U ''nement inconnu: '' @ event_type)])
      else
        let event_data = \<lparr>ev_type = event_type, ev_timestamp = now, ev_data = kw\<rparr>;
            h = history self @ [event_data];
            h' = (if length h > max_history self then slice_last (max_history self) h else h);
            self' = self\<lparr>history := h'\<rparr>;
            logged = Log INFO ([201] @ U ''v'' @ [233] @ U ''nement d'' @ [233] @ U ''clench'' @
                               [233] @ U '': '' @ event_type)
        in (case callbacks self' event_type of
              None \<Rightarrow> (Some (KeyError event_type), self', [logged])
            | Some cbs \<Rightarrow> (None, self', logged # run_callbacks event_type kw 0 cbs)))"

text \<open>
  \<open>failure\<close> is the exception text when opening or writing the file fails; the
  exception is caught and logged.
\<close>

definition save_history ::
  "CallbackManager \<Rightarrow> ustring \<Rightarrow> ustring option \<Rightarrow> CallbackManager \<times> effect list" where
  "save_history self file_path failure =
     (case failure of
        None \<Rightarrow>
          (self, [WriteFile file_path (history self),
                  Log INFO (U ''Historique sauvegard'' @ [233] @ U '' dans '' @ file_path)])
      | Some e \<Rightarrow>
          (self, [Log ERROR (U ''Erreur lors de la sauvegarde de l'historique: '' @ e)]))"

definition clear_history :: "CallbackManager \<Rightarrow> CallbackManager \<times> effect list" where
  "clear_history self =
     (self\<lparr>history := []\<rparr>,
      [Log INFO (U ''Historique des '' @ [233] @ U ''v'' @ [233] @ U ''nements effac'' @ [233])])"

text \<open>
  The operations of the class as data, and a manager driven through a sequence of them
  from its constructor.
\<close>

datatype operation =
    Register ustring callback
  | Trigger real ustring kwargs
  | SaveHistory ustring "ustring option"
  | ClearHistory

fun apply_operation :: "CallbackManager \<Rightarrow> operation \<Rightarrow> CallbackManager" where
  "apply_operation m (Register k cb) = fst (snd (register m k cb))"
| "apply_operation m (Trigger now k kw) = fst (snd (trigger m now k kw))"
| "apply_operation m (SaveHistory p failure) = fst (save_history m p failure)"
| "apply_operation m ClearHistory = fst (clear_history m)"

definition run_operations :: "operation list \<Rightarrow> CallbackManager" where
  "run_operations ops = foldl apply_operation (fst CallbackManager_init) ops"

text \<open>The state a manager built by the constructor keeps under every method.\<close>

definition well_formed :: "CallbackManager \<Rightarrow> bool" where
  "well_formed m =
     (dom (callbacks m) = set CALLBACK_TYPES \<and> max_history m = 100 \<and> length (history m) \<le> 100)"

section \<open>config.py\<close>

definition MALIGNANCY_THRESHOLD :: real where
  "MALIGNANCY_THRESHOLD = 0.70"

section \<open>modules/detection.py\<close>

text \<open>
  A detected box as the program reads it: the class index \<open>int(box.cls[0])\<close> and the
  confidence \<open>float(box.conf[0])\<close>. A result holds its boxes in the detector's output
  order and the detector's table of class names.
  Confidences are real numbers here: the program only compares them, and a comparison
  of two floating-point numbers agrees with that of the reals they denote; the value
  not-a-number is left out.
\<close>

record box =
  box_cls :: nat
  box_conf :: real

record yolo_result =
  boxes :: "box list"
  names :: "nat \<rightharpoonup> ustring"

text \<open>
  The state the modules work on: the global \<open>callback_manager\<close> (\<open>None\<close> when its
  import failed), \<open>st.session_state.detected_condition\<close>, the effects so far, the
  number of \<open>trigger\<close> calls made so far, which indexes the clock, and the messages of
  the conversation (role and content).
\<close>

record app_state =
  callback_manager :: "CallbackManager option"
  detected_condition :: "ustring option"
  effects :: "effect list"
  triggers :: nat
  messages :: "(ustring \<times> ustring) list"

definition show_ui :: "app_state \<Rightarrow> ui \<Rightarrow> app_state" where
  "show_ui s u = s\<lparr>effects := effects s @ [Show u]\<rparr>"

text \<open>
  \<open>if callback_manager: callback_manager.trigger(kind, **kw)\<close>. The \<open>n\<close>-th call
  of the run reads the time \<open>clock n\<close>.
\<close>

definition emit ::
  "(nat \<Rightarrow> real) \<Rightarrow> app_state \<Rightarrow> ustring \<Rightarrow> kwargs \<Rightarrow> error option \<times> app_state" where
  "emit clock s kind kw =
     (case callback_manager s of
        None \<Rightarrow> (None, s)
      | Some m \<Rightarrow>
          (case trigger m (clock (triggers s)) kind kw of
             (err, m', out) \<Rightarrow>
               (err, s\<lparr>callback_manager := Some m',
                       effects := effects s @ [Emit kind kw] @ out,
                       triggers := Suc (triggers s)\<rparr>)))"

text \<open>\<open>xs[i]\<close> for \<open>i \<ge> 0\<close>.\<close>

definition index :: "'a list \<Rightarrow> nat \<Rightarrow> error + 'a" where
  "index xs i = (if i < length xs then Inr (xs ! i) else Inl IndexError)"

text \<open>
  \<open>torch.argmax\<close> on a one-dimensional tensor, as the library documents it: the index
  of the maximal value, the first one when several are maximal; an empty tensor raises.
\<close>

fun argmax_from :: "real list \<Rightarrow> nat \<Rightarrow> nat \<Rightarrow> real \<Rightarrow> nat" where
  "argmax_from [] i best v = best"
| "argmax_from (x # xs) i best v =
     (if x > v then argmax_from xs (Suc i) i x else argmax_from xs (Suc i) best v)"

definition argmax :: "real list \<Rightarrow> error + nat" where
  "argmax xs =
     (case xs of
        [] \<Rightarrow> Inl (RuntimeError (U ''argmax(): Expected reduction dim to be specified for input.numel() == 0''))
      | x # rest \<Rightarrow> Inr (argmax_from rest 1 0 x))"

text \<open>
  The loop over the boxes (lines 111 to 147): \<open>i\<close> is the index of the next box, and
  the counters are \<open>malignant_count\<close>, \<open>benign_count\<close> and \<open>all_confidences\<close>.
\<close>

fun classify_boxes ::
  "(nat \<Rightarrow> real) \<Rightarrow> ustring \<Rightarrow> (nat \<rightharpoonup> ustring) \<Rightarrow> nat \<Rightarrow> box list \<Rightarrow>
   nat \<times> nat \<times> real list \<Rightarrow> app_state \<Rightarrow> error option \<times> (nat \<times> nat \<times> real list) \<times> app_state" where
  "classify_boxes clock analysis_id res_names i [] counts s = (None, counts, s)"
| "classify_boxes clock analysis_id res_names i (b # bs) (malignant_count, benign_count, all_confidences) s =
     (let cls = box_cls b;
          conf = box_conf b
      in case res_names cls of
           None \<Rightarrow> (Some (KeyError (str_nat cls)), (malignant_count, benign_count, all_confidences), s)
         | Some original_class_name \<Rightarrow>
             (let all_confidences = all_confidences @ [conf];
                  adjusted_class_name = (if conf > MALIGNANCY_THRESHOLD then U ''cancer'' else U ''normal'');
                  display_name = (if conf > MALIGNANCY_THRESHOLD then U ''MALIGNE'' else U ''B'' @ [201] @ U ''NIGNE'');
                  color = (if conf > MALIGNANCY_THRESHOLD then [128308] else [128994]);
                  malignant_count = (if conf > MALIGNANCY_THRESHOLD then malignant_count + 1 else malignant_count);
                  benign_count = (if conf > MALIGNANCY_THRESHOLD then benign_count else benign_count + 1);
                  s = show_ui s (DetectionLine (i + 1) color display_name conf)
              in case emit clock s (U ''on_classification'')
                        [(''detection_id'', VStr (analysis_id @ U ''_det'' @ str_nat i)),
                         (''confidence'', VFloat conf),
                         (''original_class'', VStr original_class_name),
                         (''adjusted_class'', VStr adjusted_class_name),
                         (''is_malignant'', VBool (conf > MALIGNANCY_THRESHOLD))] of
                   (Some e, s) \<Rightarrow> (Some e, (malignant_count, benign_count, all_confidences), s)
                 | (None, s) \<Rightarrow>
                     classify_boxes clock analysis_id res_names (Suc i) bs
                       (malignant_count, benign_count, all_confidences) s))"

text \<open>
  The first half of \<open>display_results\<close> (lines 95 to 194): the detections, the
  condition kept for the chatbot, and the statistics event. \<open>average_confidence\<close> is
  the exact quotient; the rounding of the floating-point division is not modelled.
\<close>

definition no_detection_text :: ustring where
  "no_detection_text =
     U ''Aucune tumeur n'a '' @ [233] @ U ''t'' @ [233] @ U '' d'' @ [233] @ U ''tect'' @ [233] @
     U ''e dans cette image.''"

definition show_detections ::
  "(nat \<Rightarrow> real) \<Rightarrow> ustring \<Rightarrow> yolo_result list option \<Rightarrow> app_state \<Rightarrow> error option \<times> app_state" where
  "show_detections clock analysis_id yolo_results s =
     (case yolo_results of
        Some (res # other_results) \<Rightarrow>
          (if length (boxes res) > 0 then
             (let s = show_ui s (Image (U ''Image avec d'' @ [233] @ U ''tections''))
              in case classify_boxes clock analysis_id (names res) 0 (boxes res) (0, 0, []) s of
                   (Some e, counts, s) \<Rightarrow> (Some e, s)
                 | (None, (malignant_count, benign_count, all_confidences), s) \<Rightarrow>
                     (case argmax (map box_conf (boxes res)) of
                        Inl e \<Rightarrow> (Some e, s)
                      | Inr highest_conf_idx \<Rightarrow>
                          (case index (map box_conf (boxes res)) highest_conf_idx of
                             Inl e \<Rightarrow> (Some e, s)
                           | Inr highest_conf \<Rightarrow>
                               (let s = s\<lparr>detected_condition :=
                                           (if highest_conf > MALIGNANCY_THRESHOLD
                                            then Some (U ''cancer'') else Some (U ''normal''))\<rparr>
                                in emit clock s (U ''on_analysis_complete'')
                                     [(''analysis_id'', VStr analysis_id),
                                      (''total_detections'', VInt (int (length (boxes res)))),
                                      (''malignant_count'', VInt (int malignant_count)),
                                      (''benign_count'', VInt (int benign_count)),
                                      (''average_confidence'',
                                         (if all_confidences \<noteq> []
                                          then VFloat (sum_list all_confidences / real (length all_confidences))
                                          else VInt 0)),
                                      (''highest_confidence'', VFloat highest_conf),
                                      (''final_classification'',
                                         (case detected_condition s of None \<Rightarrow> VNone | Some c \<Rightarrow> VStr c))]))))
           else
             (let s = show_ui s (Info no_detection_text);
                  s = s\<lparr>detected_condition := None\<rparr>
              in emit clock s (U ''on_analysis_complete'')
                   [(''analysis_id'', VStr analysis_id),
                    (''total_detections'', VInt 0),
                    (''result'', VStr (U ''no_detection''))]))
      | _ \<Rightarrow>
          (let s = show_ui s (Info no_detection_text);
               s = s\<lparr>detected_condition := None\<rparr>
           in emit clock s (U ''on_analysis_complete'')
                [(''analysis_id'', VStr analysis_id),
                 (''total_detections'', VInt 0),
                 (''result'', VStr (U ''no_results''))]))"

text \<open>The second half (lines 196 to 233): the conclusion and its event.\<close>

definition show_conclusion ::
  "(nat \<Rightarrow> real) \<Rightarrow> ustring \<Rightarrow> yolo_result list option \<Rightarrow> app_state \<Rightarrow> error option \<times> app_state" where
  "show_conclusion clock analysis_id yolo_results s =
     (let s = show_ui s (Subheader (U ''Conclusion''));
          no_detection =
            (let s = show_ui s (Info
                       (U ''Aucune tumeur n'a '' @ [233] @ U ''t'' @ [233] @ U '' d'' @ [233] @
                        U ''tect'' @ [233] @ U ''e dans cette image. Cependant, si vous avez des pr'' @
                        [233] @ U ''occupations, consultez un professionnel de sant'' @ [233] @ U ''.''))
             in emit clock s (U ''on_conclusion'')
                  [(''analysis_id'', VStr analysis_id),
                   (''conclusion'', VStr (U ''aucune_d'' @ [233] @ U ''tection'')),
                   (''confidence'', VInt 0),
                   (''threshold_used'', VFloat MALIGNANCY_THRESHOLD)])
      in case yolo_results of
           Some (res # other_results) \<Rightarrow>
             (if length (boxes res) > 0 then
                (case argmax (map box_conf (boxes res)) of
                   Inl e \<Rightarrow> (Some e, s)
                 | Inr highest_conf_idx \<Rightarrow>
                     (case index (map box_conf (boxes res)) highest_conf_idx of
                        Inl e \<Rightarrow> (Some e, s)
                      | Inr highest_conf \<Rightarrow>
                          (let s = show_ui s
                                     (if highest_conf > MALIGNANCY_THRESHOLD
                                      then ConclusionMalignant (highest_conf * 100)
                                      else ConclusionBenign (highest_conf * 100));
                               conclusion =
                                 (if highest_conf > MALIGNANCY_THRESHOLD
                                  then U ''maligne'' else U ''b'' @ [233] @ U ''nigne'')
                           in emit clock s (U ''on_conclusion'')
                                [(''analysis_id'', VStr analysis_id),
                                 (''conclusion'', VStr conclusion),
                                 (''confidence'', VFloat highest_conf),
                                 (''threshold_used'', VFloat MALIGNANCY_THRESHOLD)])))
              else no_detection)
         | _ \<Rightarrow> no_detection)"

text \<open>
  \<open>display_results\<close>. \<open>hex8\<close> is \<open>uuid.uuid4().hex[:8]\<close>; the image itself is not
  modelled, only that it is shown.
\<close>

definition display_results ::
  "(nat \<Rightarrow> real) \<Rightarrow> ustring \<Rightarrow> yolo_result list option \<Rightarrow> app_state \<Rightarrow> error option \<times> app_state" where
  "display_results clock hex8 yolo_results s =
     (let s = show_ui s (Subheader (U ''R'' @ [233] @ U ''sultats de l'analyse''));
          analysis_id = U ''analysis_'' @ hex8;
          s = show_ui s (Image (U ''Image originale''));
          s = show_ui s (Subheader ([128269] @ U '' R'' @ [233] @ U ''sultats de l'analyse''))
      in case show_detections clock analysis_id yolo_results s of
           (Some e, s) \<Rightarrow> (Some e, s)
         | (None, s) \<Rightarrow> show_conclusion clock analysis_id yolo_results s)"

text \<open>
  Reading a run of \<open>display_results\<close>: the detection lines shown (number, displayed
  class, confidence), the keyword arguments of the \<open>trigger\<close> calls made for a kind, and
  the keyword arguments of the events of a kind held in the history.
\<close>

fun detection_lines :: "effect list \<Rightarrow> (nat \<times> ustring \<times> real) list" where
  "detection_lines [] = []"
| "detection_lines (Show (DetectionLine i color display_name conf) # es) =
     (i, display_name, conf) # detection_lines es"
| "detection_lines (e # es) = detection_lines es"

fun emitted :: "ustring \<Rightarrow> effect list \<Rightarrow> kwargs list" where
  "emitted kind [] = []"
| "emitted kind (Emit k kw # es) = (if k = kind then kw # emitted kind es else emitted kind es)"
| "emitted kind (e # es) = emitted kind es"

definition recorded :: "ustring \<Rightarrow> CallbackManager option \<Rightarrow> kwargs list" where
  "recorded kind m =
     (case m of None \<Rightarrow> [] | Some m \<Rightarrow> map ev_data (filter (\<lambda>e. ev_type e = kind) (history m)))"

text \<open>The manager, when there is one, is in a state reached from the constructor.\<close>

definition manager_ok :: "app_state \<Rightarrow> bool" where
  "manager_ok s = (case callback_manager s of None \<Rightarrow> True | Some m \<Rightarrow> well_formed m)"

text \<open>
  \<open>j\<close> is the position of the first maximal element of \<open>cs\<close>.
\<close>

definition first_max :: "real list \<Rightarrow> nat \<Rightarrow> bool" where
  "first_max cs j =
     (j < length cs \<and> (\<forall>i < length cs. cs ! i \<le> cs ! j) \<and> (\<forall>i < j. cs ! i < cs ! j))"

text \<open>
  The \<open>trigger\<close> calls among the effects, in order; the last 100 elements of a list;
  the kinds and arguments of the events in the history; and one step of a run: the
  effects grow by \<open>new\<close>, the manager stays in a state reached from the constructor,
  and the history is the old one followed by the calls of known kinds, cut to its last
  100 events.
\<close>

fun emits :: "effect list \<Rightarrow> (ustring \<times> kwargs) list" where
  "emits [] = []"
| "emits (Emit k kw # es) = (k, kw) # emits es"
| "emits (e # es) = emits es"

definition keep100 :: "'a list \<Rightarrow> 'a list" where
  "keep100 xs = drop (length xs - 100) xs"

definition records :: "app_state \<Rightarrow> (ustring \<times> kwargs) list" where
  "records s =
     (case callback_manager s of
        None \<Rightarrow> []
      | Some m \<Rightarrow> map (\<lambda>e. (ev_type e, ev_data e)) (history m))"

definition step_ok :: "app_state \<Rightarrow> app_state \<Rightarrow> effect list \<Rightarrow> bool" where
  "step_ok s s' new =
     (effects s' = effects s @ new \<and> manager_ok s' \<and>
      (callback_manager s' = None) = (callback_manager s = None) \<and>
      (if callback_manager s = None then emits new = []
       else records s' = keep100 (records s @ filter (\<lambda>(k, kw). k \<in> set CALLBACK_TYPES) (emits new))))"

section \<open>Python's text primitives\<close>

text \<open>
  The program's text handling rests on tables of the Python runtime that are not part of
  the repository. They are parameters of the model: \<open>lower\<close> is \<open>str.lower\<close>,
  \<open>isspace\<close> the characters that \<open>\s\<close> and \<open>str.strip\<close> treat as whitespace,
  \<open>isword\<close> the characters of \<open>\w\<close>, and \<open>casefold\<close> sends a character to the
  representative of the characters that \<open>re.IGNORECASE\<close> identifies with it.
\<close>

record unicode =
  lower :: "ustring \<Rightarrow> ustring"
  isspace :: "nat \<Rightarrow> bool"
  isword :: "nat \<Rightarrow> bool"
  casefold :: "nat \<Rightarrow> nat"

text \<open>\<open>s.startswith(p)\<close> and \<open>needle in hay\<close>.\<close>

fun startswith :: "ustring \<Rightarrow> ustring \<Rightarrow> bool" where
  "startswith s [] = True"
| "startswith [] (c # p) = False"
| "startswith (x # s) (c # p) = (x = c \<and> startswith s p)"

fun contains :: "ustring \<Rightarrow> ustring \<Rightarrow> bool" where
  "contains [] needle = (needle = [])"
| "contains (x # hay) needle = (startswith (x # hay) needle \<or> contains hay needle)"

text \<open>\<open>any(word in text for word in words)\<close>\<close>

definition any_in :: "ustring list \<Rightarrow> ustring \<Rightarrow> bool" where
  "any_in words text = list_ex (\<lambda>word. contains text word) words"

text \<open>\<open>s.strip()\<close>\<close>

definition strip :: "unicode \<Rightarrow> ustring \<Rightarrow> ustring" where
  "strip u s = rev (dropWhile (isspace u) (rev (dropWhile (isspace u) s)))"

text \<open>\<open>s.split()\<close>: the maximal runs of characters that are not whitespace.\<close>

fun split_ws :: "unicode \<Rightarrow> ustring \<Rightarrow> ustring \<Rightarrow> ustring list" where
  "split_ws u w [] = (if w = [] then [] else [w])"
| "split_ws u w (x # xs) =
     (if isspace u x then (if w = [] then split_ws u [] xs else w # split_ws u [] xs)
      else split_ws u (w @ [x]) xs)"

text \<open>
  \<open>s.replace(old, new)\<close> for a non-empty \<open>old\<close>: the occurrences are taken from left
  to right and do not overlap.
\<close>

function replace :: "ustring \<Rightarrow> ustring \<Rightarrow> ustring \<Rightarrow> ustring" where
  "replace [] old new = []"
| "replace (x # s) old new =
     (if old \<noteq> [] \<and> startswith (x # s) old
      then new @ replace (drop (length old - 1) s) old new
      else x # replace s old new)"
  by pat_completeness auto
termination
  by (relation "measure (\<lambda>(s, old, new). length s)") auto

subsection \<open>Regular expressions\<close>

text \<open>
  The patterns of the program use literals, character sets, the dot, greedy and lazy
  repetition of one character, groups with alternatives, a lookahead, \<open>^\<close>, \<open>$\<close> and
  \<open>\b\<close>, under the flags \<open>IGNORECASE\<close> and \<open>DOTALL\<close>.
\<close>

datatype cset = Chr nat | Range nat nat | Space | Word

datatype atom = Lit nat | Dot | In "cset list" | NotIn "cset list"

datatype re =
    Atom atom
  | Empty
  | Seq re re
  | Alt re re
  | Star atom
  | StarLazy atom
  | Look re
  | Bol
  | Eol
  | Wordb

record flags =
  ignorecase :: bool
  dotall :: bool

fun cset_match :: "unicode \<Rightarrow> flags \<Rightarrow> cset \<Rightarrow> nat \<Rightarrow> bool" where
  "cset_match u fl (Chr c) x = (if ignorecase fl then casefold u x = casefold u c else x = c)"
| "cset_match u fl (Range a b) x =
     (if ignorecase fl then list_ex (\<lambda>c. casefold u x = casefold u c) [a ..< Suc b]
      else a \<le> x \<and> x \<le> b)"
| "cset_match u fl Space x = isspace u x"
| "cset_match u fl Word x = isword u x"

fun atom_match :: "unicode \<Rightarrow> flags \<Rightarrow> atom \<Rightarrow> nat \<Rightarrow> bool" where
  "atom_match u fl (Lit c) x = (if ignorecase fl then casefold u x = casefold u c else x = c)"
| "atom_match u fl Dot x = (dotall fl \<or> x \<noteq> 10)"
| "atom_match u fl (In cs) x = list_ex (\<lambda>c. cset_match u fl c x) cs"
| "atom_match u fl (NotIn cs) x = (\<not> list_ex (\<lambda>c. cset_match u fl c x) cs)"

text \<open>
  A position in the subject is the character before it (\<open>None\<close> at the start) and the
  text that remains. The matcher returns the positions where a match of the pattern
  that starts at the given position can end, in the order in which a backtracking
  matcher finds them: the first alternative before the second, a greedy repetition
  longest first, a lazy one shortest first. Python takes the first.
\<close>

type_synonym pos = "nat option \<times> ustring"

fun star_greedy :: "(nat \<Rightarrow> bool) \<Rightarrow> nat option \<Rightarrow> ustring \<Rightarrow> pos list" where
  "star_greedy P p [] = [(p, [])]"
| "star_greedy P p (x # xs) = (if P x then star_greedy P (Some x) xs else []) @ [(p, x # xs)]"

fun star_lazy :: "(nat \<Rightarrow> bool) \<Rightarrow> nat option \<Rightarrow> ustring \<Rightarrow> pos list" where
  "star_lazy P p [] = [(p, [])]"
| "star_lazy P p (x # xs) = (p, x # xs) # (if P x then star_lazy P (Some x) xs else [])"

definition at_word_boundary :: "unicode \<Rightarrow> pos \<Rightarrow> bool" where
  "at_word_boundary u s =
     (let before = (case fst s of None \<Rightarrow> False | Some c \<Rightarrow> isword u c);
          after = (case snd s of [] \<Rightarrow> False | c # cs \<Rightarrow> isword u c)
      in before \<noteq> after)"

fun rmatch :: "unicode \<Rightarrow> flags \<Rightarrow> re \<Rightarrow> pos \<Rightarrow> pos list" where
  "rmatch u fl (Atom a) s =
     (case snd s of [] \<Rightarrow> [] | x # xs \<Rightarrow> (if atom_match u fl a x then [(Some x, xs)] else []))"
| "rmatch u fl Empty s = [s]"
| "rmatch u fl (Seq a b) s = concat (map (\<lambda>s'. rmatch u fl b s') (rmatch u fl a s))"
| "rmatch u fl (Alt a b) s = rmatch u fl a s @ rmatch u fl b s"
| "rmatch u fl (Star a) s = star_greedy (atom_match u fl a) (fst s) (snd s)"
| "rmatch u fl (StarLazy a) s = star_lazy (atom_match u fl a) (fst s) (snd s)"
| "rmatch u fl (Look r) s = (if rmatch u fl r s = [] then [] else [s])"
| "rmatch u fl Bol s = (if fst s = None then [s] else [])"
| "rmatch u fl Eol s = (if snd s = [] \<or> snd s = [10] then [s] else [])"
| "rmatch u fl Wordb s = (if at_word_boundary u s then [s] else [])"

text \<open>
  The length of the first match of the pattern that starts at a position, if there is
  one.
\<close>

definition match_length :: "unicode \<Rightarrow> flags \<Rightarrow> re \<Rightarrow> pos \<Rightarrow> nat option" where
  "match_length u fl r s =
     (case rmatch u fl r s of
        [] \<Rightarrow> None
      | e # es \<Rightarrow> Some (length (snd s) - length (snd e)))"

text \<open>
  The scan shared by \<open>re.sub\<close>, \<open>re.split\<close>, \<open>re.findall\<close> and \<open>re.search\<close>: the
  non-overlapping matches from left to right, each with the text between it and the
  match before, and the text after the last match. \<open>pending\<close> is the text passed over
  since the last match. An empty match is recorded and the scan moves on by one
  character; no pattern of the program matches the empty string.
\<close>

function scan ::
  "unicode \<Rightarrow> flags \<Rightarrow> re \<Rightarrow> nat option \<Rightarrow> ustring \<Rightarrow> ustring \<Rightarrow> (ustring \<times> ustring) list \<times> ustring" where
  "scan u fl r p pending [] =
     (case match_length u fl r (p, []) of
        None \<Rightarrow> ([], pending)
      | Some n \<Rightarrow> ([(pending, [])], []))"
| "scan u fl r p pending (x # xs) =
     (case match_length u fl r (p, x # xs) of
        None \<Rightarrow> scan u fl r (Some x) (pending @ [x]) xs
      | Some n \<Rightarrow>
          (if n = 0 then
             (case scan u fl r (Some x) [x] xs of (ms, rest) \<Rightarrow> ((pending, []) # ms, rest))
           else
             (case scan u fl r (Some ((x # xs) ! (n - 1))) [] (drop (n - 1) xs) of
                (ms, rest) \<Rightarrow> ((pending, take n (x # xs)) # ms, rest))))"
  by pat_completeness auto
termination
  by (relation "measure (\<lambda>(u, fl, r, p, pending, s). length s)") auto

definition re_sub :: "unicode \<Rightarrow> flags \<Rightarrow> re \<Rightarrow> ustring \<Rightarrow> ustring \<Rightarrow> ustring" where
  "re_sub u fl r repl s =
     (case scan u fl r None [] s of
        (ms, rest) \<Rightarrow> concat (map (\<lambda>(before, m). before @ repl) ms) @ rest)"

definition re_split :: "unicode \<Rightarrow> flags \<Rightarrow> re \<Rightarrow> ustring \<Rightarrow> ustring list" where
  "re_split u fl r s = (case scan u fl r None [] s of (ms, rest) \<Rightarrow> map fst ms @ [rest])"

definition re_findall :: "unicode \<Rightarrow> flags \<Rightarrow> re \<Rightarrow> ustring \<Rightarrow> ustring list" where
  "re_findall u fl r s = map snd (fst (scan u fl r None [] s))"

definition re_search :: "unicode \<Rightarrow> flags \<Rightarrow> re \<Rightarrow> ustring \<Rightarrow> bool" where
  "re_search u fl r s = (fst (scan u fl r None [] s) \<noteq> [])"

text \<open>Building patterns: a literal text and a sequence.\<close>

definition lit :: "ustring \<Rightarrow> re" where
  "lit s = foldr (\<lambda>c r. Seq (Atom (Lit c)) r) s Empty"

definition seq :: "re list \<Rightarrow> re" where
  "seq rs = foldr Seq rs Empty"

definition no_flags :: flags where
  "no_flags = \<lparr>ignorecase = False, dotall = False\<rparr>"

definition IGNORECASE :: flags where
  "IGNORECASE = \<lparr>ignorecase = True, dotall = False\<rparr>"

definition DOTALL_IGNORECASE :: flags where
  "DOTALL_IGNORECASE = \<lparr>ignorecase = True, dotall = True\<rparr>"

subsection \<open>Tables for the Latin-1 and Arabic alphabet\<close>

text \<open>
  A concrete instance of the tables, for evaluating the model on given texts. It is the
  restriction of CPython 3's tables to the alphabet in which the program's own texts are
  written: the code points below 256 and the Arabic block, U+0600 to U+06FF. On these
  code points \<open>lower_char\<close> is \<open>str.lower\<close>, \<open>word_char\<close> is \<open>\w\<close> and
  \<open>ignorecase_char\<close> identifies the characters that \<open>re.IGNORECASE\<close> identifies;
  \<open>space_char\<close> is \<open>str.isspace\<close> on every code point. Outside the alphabet the
  instance is not CPython's: apart from the four characters that \<open>re.IGNORECASE\<close>
  identifies with ASCII letters, it takes a character there as a caseless symbol that
  is no word character, where CPython lowers U+212A to \<open>k\<close> and counts U+0153 and the
  CJK letters as word characters. The instance is therefore applied to texts of the
  alphabet only, and a property of every text is stated for arbitrary tables.
\<close>

definition lower_char :: "nat \<Rightarrow> nat" where
  "lower_char c =
     (if (65 \<le> c \<and> c \<le> 90) \<or> (192 \<le> c \<and> c \<le> 222 \<and> c \<noteq> 215) then c + 32 else c)"

definition space_char :: "nat \<Rightarrow> bool" where
  "space_char c =
     ((9 \<le> c \<and> c \<le> 13) \<or> (28 \<le> c \<and> c \<le> 32) \<or> c = 133 \<or> c = 160 \<or> c = 5760 \<or>
      (8192 \<le> c \<and> c \<le> 8202) \<or> c = 8232 \<or> c = 8233 \<or> c = 8239 \<or> c = 8287 \<or> c = 12288)"

definition word_char :: "nat \<Rightarrow> bool" where
  "word_char c =
     ((48 \<le> c \<and> c \<le> 57) \<or> (65 \<le> c \<and> c \<le> 90) \<or> c = 95 \<or> (97 \<le> c \<and> c \<le> 122) \<or>
      c = 170 \<or> c = 178 \<or> c = 179 \<or> c = 181 \<or> c = 185 \<or> c = 186 \<or>
      (188 \<le> c \<and> c \<le> 190) \<or> (192 \<le> c \<and> c \<le> 214) \<or> (216 \<le> c \<and> c \<le> 246) \<or>
      (248 \<le> c \<and> c \<le> 255) \<or>
      (1568 \<le> c \<and> c \<le> 1610) \<or> (1632 \<le> c \<and> c \<le> 1641) \<or> (1646 \<le> c \<and> c \<le> 1647) \<or>
      (1649 \<le> c \<and> c \<le> 1747) \<or> c = 1749 \<or> (1765 \<le> c \<and> c \<le> 1766) \<or>
      (1774 \<le> c \<and> c \<le> 1788) \<or> c = 1791)"

definition ignorecase_char :: "nat \<Rightarrow> nat" where
  "ignorecase_char c =
     (if c = 8490 then 107 else if c = 383 then 115 else if c = 304 \<or> c = 305 then 105
      else lower_char c)"

definition latin_arabic :: unicode where
  "latin_arabic = \<lparr>lower = map lower_char, isspace = space_char, isword = word_char,
              casefold = ignorecase_char\<rparr>"

section \<open>modules/knowledge.py\<close>

text \<open>
  The keywords \<open>extract_relevant_knowledge\<close> looks for in the paragraphs: those of the
  first topic one of whose words occurs in the lowercased query, for the three
  supported languages, and general ones when no topic matches.
\<close>

definition topic_keywords :: "ustring \<Rightarrow> ustring \<Rightarrow> ustring list" where
  "topic_keywords language query_lower =
     (if language = U ''fr'' then
        (if any_in [U ''symptome'', U ''sympt'' @ [244] @ U ''me'', U ''signe''] query_lower then
           [U ''sympt'' @ [244] @ U ''me'', U ''signe'', U ''caract'' @ [233] @ U ''ristique'',
               U ''manifestation'', U ''indication'']
         else if any_in [U ''traitement'', U ''soigner'', U ''gu'' @ [233] @ U ''rir''] query_lower then
           [U ''traitement'', U ''th'' @ [233] @ U ''rapie'', U ''soin'',
               U ''gu'' @ [233] @ U ''rison'', U ''chirurgie'', U ''radioth'' @ [233] @ U ''rapie'',
               U ''chimioth'' @ [233] @ U ''rapie'']
         else if any_in [U ''risque'', U ''facteur'', U ''pr'' @ [233] @ U ''vention''] query_lower then
           [U ''risque'', U ''facteur'', U ''pr'' @ [233] @ U ''vention'',
               U ''d'' @ [233] @ U ''pistage'', U ''pr'' @ [233] @ U ''disposition'']
         else if any_in [U ''diagnostic'', U ''d'' @ [233] @ U ''tection'', U ''test''] query_lower then
           [U ''diagnostic'', U ''d'' @ [233] @ U ''tection'', U ''test'', U ''examen'',
               U ''mammographie'', U ''biopsie'']
         else [])
      else if language = U ''en'' then
        (if any_in [U ''symptom'', U ''sign''] query_lower then
           [U ''symptom'', U ''sign'', U ''characteristic'', U ''manifestation'', U ''indication'']
         else if any_in [U ''treatment'', U ''cure'', U ''heal''] query_lower then
           [U ''treatment'', U ''therapy'', U ''care'', U ''healing'', U ''surgery'',
               U ''radiation'', U ''chemotherapy'']
         else if any_in [U ''risk'', U ''factor'', U ''prevention''] query_lower then
           [U ''risk'', U ''factor'', U ''prevention'', U ''screening'', U ''predisposition'']
         else if any_in [U ''diagnosis'', U ''detection'', U ''test''] query_lower then
           [U ''diagnosis'', U ''detection'', U ''test'', U ''examination'', U ''mammography'',
               U ''biopsy'']
         else [])
      else if language = U ''ar'' then
        (if any_in [[1593, 1585, 1590], [1593, 1604, 1575, 1605, 1577], [1571, 1593, 1585, 1575, 1590]] query_lower then
           [[1593, 1585, 1590], [1593, 1604, 1575, 1605, 1577], [1582, 1589, 1575, 1574, 1589],
               [1571, 1593, 1585, 1575, 1590], [1605, 1572, 1588, 1585]]
         else if any_in [[1593, 1604, 1575, 1580], [1588, 1601, 1575, 1569]] query_lower then
           [[1593, 1604, 1575, 1580], [1588, 1601, 1575, 1569], [1585, 1593, 1575, 1610, 1577],
               [1580, 1585, 1575, 1581, 1577], [1573, 1588, 1593, 1575, 1593],
               [1603, 1610, 1605, 1575, 1608, 1610]]
         else if any_in [[1582, 1591, 1585], [1593, 1575, 1605, 1604], [1608, 1602, 1575, 1610, 1577]] query_lower then
           [[1582, 1591, 1585], [1593, 1575, 1605, 1604], [1608, 1602, 1575, 1610, 1577],
               [1601, 1581, 1589], [1575, 1587, 1578, 1593, 1583, 1575, 1583]]
         else if any_in [[1578, 1588, 1582, 1610, 1589], [1603, 1588, 1601], [1601, 1581, 1589]] query_lower then
           [[1578, 1588, 1582, 1610, 1589], [1603, 1588, 1601], [1601, 1581, 1589],
               [1578, 1589, 1608, 1610, 1585], [1582, 1586, 1593, 1577]]
         else [])
      else [])"

definition general_keywords :: "ustring \<Rightarrow> ustring list" where
  "general_keywords language =
     (if language = U ''fr'' then
        [U ''cancer'', U ''sein'', U ''tumeur'', U ''maligne'', U ''b'' @ [233] @ U ''nigne'']
      else if language = U ''en'' then
        [U ''cancer'', U ''breast'', U ''tumor'', U ''malignant'', U ''benign'']
      else if language = U ''ar'' then
        [[1587, 1585, 1591, 1575, 1606], [1579, 1583, 1610], [1608, 1585, 1605],
               [1582, 1576, 1610, 1579], [1581, 1605, 1610, 1583]]
      else
        [U ''cancer'', U ''sein'', U ''breast'', U ''tumor'', U ''tumeur''])"

text \<open>The pattern \<open>\n\s*\n\<close> that separates paragraphs.\<close>

definition blank_line :: re where
  "blank_line = seq [Atom (Lit 10), Star (In [Space]), Atom (Lit 10)]"

text \<open>
  \<open>extract_relevant_knowledge\<close> from line 84 to line 143: the text \<open>combined_segments\<close>
  of a knowledge base of 1000 characters or more.
\<close>

definition combined_segments :: "unicode \<Rightarrow> ustring \<Rightarrow> ustring \<Rightarrow> ustring \<Rightarrow> ustring" where
  "combined_segments u query knowledge_base language =
     (let query_lower = lower u query;
          keywords = topic_keywords language query_lower;
          keywords = (if keywords = [] then general_keywords language else keywords);
          paragraphs = re_split u no_flags blank_line knowledge_base;
          relevant_segments =
            filter (\<lambda>paragraph. any_in keywords (lower u paragraph)) paragraphs;
          relevant_segments =
            (if relevant_segments = [] \<and> paragraphs \<noteq> [] then take 3 paragraphs
             else relevant_segments)
      in join (U ''\<newline>\<newline>'') relevant_segments)"

definition extract_relevant_knowledge :: "unicode \<Rightarrow> ustring \<Rightarrow> ustring \<Rightarrow> ustring \<Rightarrow> ustring" where
  "extract_relevant_knowledge u query knowledge_base language =
     (if length knowledge_base < 1000 then knowledge_base
      else
        let combined_segments = combined_segments u query knowledge_base language
        in if length combined_segments > 1500 then take 1500 combined_segments @ U ''...''
           else combined_segments)"

section \<open>modules/utils.py\<close>

text \<open>
  \<open>detect_language\<close>: \<open>langdetect\<close> is the external detector, \<open>None\<close> when it raises;
  the program then answers French.
\<close>

definition detect_language :: "(ustring \<Rightarrow> ustring option) \<Rightarrow> ustring \<Rightarrow> ustring" where
  "detect_language langdetect text = (case langdetect text of None \<Rightarrow> U ''fr'' | Some l \<Rightarrow> l)"

subsection \<open>\<open>clean_llama_response\<close>\<close>

definition incomplete_answer :: ustring where
  "incomplete_answer =
     U ''Je ne peux pas g'' @ [233] @ U ''n'' @ [233] @ U ''rer une r'' @ [233] @
     U ''ponse compl'' @ [232] @ U ''te pour le moment.''"

text \<open>Lines 38 to 52: leaked instructions, remarks about the correction, tags and emphasis.\<close>

definition strip_leaks :: "unicode \<Rightarrow> ustring \<Rightarrow> ustring" where
  "strip_leaks u answer =
     (let
        answer = \<comment> \<open>line 38\<close>
          re_sub u DOTALL_IGNORECASE
            (seq [lit (U ''INSTRUCTION ''), Alt (lit (U ''CRITIQUE'')) (Alt (lit (U ''INTERNE'')) (lit (U
               ''CRITICAL''))), StarLazy (Dot), lit (U ''Question:'')])
            ([]) answer;
        answer = \<comment> \<open>line 39\<close>
          re_sub u DOTALL_IGNORECASE
            (seq [lit (U ''INTERNAL INSTRUCTION''), StarLazy (Dot), lit (U ''Question:'')])
            ([]) answer;
        answer = \<comment> \<open>line 40\<close>
          re_sub u DOTALL_IGNORECASE
            (seq [lit ([1578, 1593, 1604, 1610, 1605, 1575, 1578] @ U '' ''), Alt (lit ([1605, 1607, 1605,
               1577])) (lit ([1583, 1575, 1582, 1604, 1610, 1577])), StarLazy (Dot), lit ([1575, 1604, 1587,
               1572, 1575, 1604] @ U '':'')])
            ([]) answer;
        answer = \<comment> \<open>line 41\<close>
          re_sub u DOTALL_IGNORECASE
            (seq [lit (U ''Question corrig'' @ [233] @ U ''e et reformul'' @ [233] @ U ''e''), Star (In
               [Space]), lit (U '':''), StarLazy (Dot), lit (U ''\<newline>'')])
            ([]) answer;
        answer = \<comment> \<open>line 42\<close>
          re_sub u DOTALL_IGNORECASE
            (seq [lit (U ''Corrected and rephrased question''), Star (In [Space]), lit (U '':''), StarLazy
               (Dot), lit (U ''\<newline>'')])
            ([]) answer;
        answer = \<comment> \<open>line 43\<close>
          re_sub u DOTALL_IGNORECASE
            (seq [lit ([1575, 1604, 1587, 1572, 1575, 1604] @ U '' '' @ [1575, 1604, 1605, 1589, 1581, 1581]
               @ U '' '' @ [1608, 1575, 1604, 1605, 1593, 1575, 1583] @ U '' '' @ [1589, 1610, 1575, 1594,
               1578, 1607]), Star (In [Space]), lit (U '':''), StarLazy (Dot), lit (U ''\<newline>'')])
            ([]) answer;
        answer = \<comment> \<open>line 46\<close>
          re_sub u IGNORECASE
            (lit (U ''J'ai corrig'' @ [233] @ U '' et reformul'' @ [233] @ U '' votre question.''))
            ([]) answer;
        answer = \<comment> \<open>line 47\<close>
          re_sub u IGNORECASE
            (lit (U ''I have corrected and rephrased your question.''))
            ([]) answer;
        answer = \<comment> \<open>line 48\<close>
          re_sub u IGNORECASE
            (lit ([1604, 1602, 1583] @ U '' '' @ [1602, 1605, 1578] @ U '' '' @ [1576, 1578, 1589, 1581,
               1610, 1581] @ U '' '' @ [1608, 1573, 1593, 1575, 1583, 1577] @ U '' '' @ [1589, 1610, 1575,
               1594, 1577] @ U '' '' @ [1587, 1572, 1575, 1604, 1603] @ U ''.''))
            ([]) answer;
        answer = \<comment> \<open>line 51\<close>
          re_sub u no_flags
            (seq [lit (U ''<''), Star (NotIn [Chr 62]), lit (U ''>'')])
            ([]) answer;
        answer = \<comment> \<open>line 52\<close>
          re_sub u no_flags
            (seq [Atom (In [Chr 42, Chr 95, Chr 126, Chr 96, Chr 124]), Star (In [Chr 42, Chr 95, Chr 126,
               Chr 96, Chr 124])])
            ([]) answer
      in answer)"

text \<open>Lines 55 to 63: the wrong medical terms, removed one after the other.\<close>

definition incorrect_terms :: "ustring list" where
  "incorrect_terms =
     [U ''glandes salivaires'', U ''canc'' @ [233] @ U ''ro-breast'',
      U ''L'' @ [233] @ U ''ucod'' @ [233] @ U ''sques de Kallmann'',
      U ''M'' @ [233] @ U ''lancoloma'', U ''tissue mammary'', U ''moustacelles'',
      U ''canc'' @ [233] @ U ''risation'', U ''tumor anaplastique'',
      U ''l'' @ [233] @ U ''cithines'', U ''cellules moustacelles'',
      U ''anaplastique intra'' @ [233] @ U ''pith'' @ [233] @ U ''liale'',
      U ''tumors anaplastiques'']"

definition remove_incorrect_terms :: "ustring \<Rightarrow> ustring" where
  "remove_incorrect_terms answer = foldl (\<lambda>answer term. replace answer term []) answer incorrect_terms"

text \<open>
  Lines 66 to 108: the paragraphs kept for a non-empty query. A set of words is a list
  here, and the size of an intersection counts its distinct members.
\<close>

definition word_pattern :: re where
  "word_pattern = seq [Wordb, Atom (In [Word]), Star (In [Word]), Wordb]"

definition politeness_pattern :: re where
  "politeness_pattern =
     Alt (lit (U ''n'h'' @ [233] @ U ''sitez pas'')) (Alt (lit (U ''je suis l'' @ [224])) (Alt (lit
     (U ''en esp'' @ [233] @ U ''rant'')) (Alt (lit (U ''j'esp'' @ [232] @ U ''re'')) (lit (U ''pour toute question'')))))"

definition paragraph_score :: "unicode \<Rightarrow> ustring list \<Rightarrow> nat \<Rightarrow> ustring \<Rightarrow> int" where
  "paragraph_score u significant_words i para =
     (let para_lower = lower u para;
          para_words = re_findall u no_flags word_pattern para_lower;
          word_match_score =
            int (length (remdups (filter (\<lambda>w. w \<in> set significant_words) para_words))) * 2;
          position_score = max 0 (3 - int i) * 2;
          politeness_penalty =
            (if re_search u no_flags politeness_pattern para_lower then 10 else 0)
      in word_match_score + position_score - politeness_penalty)"

text \<open>
  \<open>sort(key=..., reverse=True)\<close> is stable: the pairs come out by decreasing score,
  and pairs of equal score in the order they had.
\<close>

fun insert_by_score :: "ustring \<times> int \<Rightarrow> (ustring \<times> int) list \<Rightarrow> (ustring \<times> int) list" where
  "insert_by_score x [] = [x]"
| "insert_by_score x (y # ys) =
     (if snd x > snd y then x # y # ys else y # insert_by_score x ys)"

definition sort_by_score :: "(ustring \<times> int) list \<Rightarrow> (ustring \<times> int) list" where
  "sort_by_score xs = foldl (\<lambda>sorted x. insert_by_score x sorted) [] xs"

definition keep_relevant_paragraphs :: "unicode \<Rightarrow> ustring \<Rightarrow> ustring \<Rightarrow> error + ustring" where
  "keep_relevant_paragraphs u answer query =
     (let query_lower = lower u query;
          question_words = remdups (re_findall u no_flags word_pattern query_lower);
          significant_words = filter (\<lambda>word. length word > 3) question_words;
          paragraphs = re_split u no_flags blank_line answer;
          paragraphs = map (strip u) (filter (\<lambda>p. length (strip u p) > 20) paragraphs);
          scored_paragraphs =
            map (\<lambda>(i, para). (para, paragraph_score u significant_words i para))
              (zip [0 ..< length paragraphs] paragraphs);
          scored_paragraphs = sort_by_score scored_paragraphs;
          best_paragraphs = map fst (take 4 scored_paragraphs);
          ordered_paragraphs = filter (\<lambda>p. p \<in> set best_paragraphs) paragraphs
      in if ordered_paragraphs = [] \<and> paragraphs \<noteq> [] then
           (case index paragraphs 0 of
              Inl e \<Rightarrow> Inl e
            | Inr first \<Rightarrow> Inr (join (U ''\<newline>\<newline>'') [first]))
         else Inr (join (U ''\<newline>\<newline>'') ordered_paragraphs))"

text \<open>
  Lines 113 to 147: closing formulas, conclusions, referrals, runs of newlines and of
  spaces, and a leading label.
\<close>

definition strip_closings :: "unicode \<Rightarrow> ustring \<Rightarrow> ustring" where
  "strip_closings u answer =
     (let
        answer = \<comment> \<open>line 113\<close>
          re_sub u DOTALL_IGNORECASE
            (seq [lit (U ''N'h'' @ [233] @ U ''sitez''), StarLazy (NotIn [Chr 46, Chr 10]), lit ([224] @ U '' me poser''),
               StarLazy (NotIn [Chr 46, Chr 10]), lit (U ''.'')])
            ([]) answer;
        answer = \<comment> \<open>line 114\<close>
          re_sub u DOTALL_IGNORECASE
            (seq [lit (U ''Nous sommes l'' @ [224] @ U '' pour t'aider''), StarLazy (NotIn [Chr 46, Chr 10]),
               lit (U ''.'')])
            ([]) answer;
        answer = \<comment> \<open>line 115\<close>
          re_sub u DOTALL_IGNORECASE
            (seq [lit (U ''Si tu n'obtiens pas''), StarLazy (NotIn [Chr 46, Chr 10]), lit (U ''.'')])
            ([]) answer;
        answer = \<comment> \<open>line 116\<close>
          re_sub u DOTALL_IGNORECASE
            (seq [lit (U ''Vous pouvez aussi contacter''), StarLazy (NotIn [Chr 46, Chr 10]), lit (U ''.'')])
            ([]) answer;
        answer = \<comment> \<open>line 117\<close>
          re_sub u DOTALL_IGNORECASE
            (seq [lit (U ''Si j'avais des r'' @ [233] @ U ''ponses''), StarLazy (NotIn [Chr 46, Chr 10]), lit
               (U ''.'')])
            ([]) answer;
        answer = \<comment> \<open>line 118\<close>
          re_sub u DOTALL_IGNORECASE
            (seq [lit (U ''Je suis''), StarLazy (NotIn [Chr 46, Chr 10]), lit ([224] @ U '' votre service''),
               StarLazy (NotIn [Chr 46, Chr 10]), lit (U ''.'')])
            ([]) answer;
        answer = \<comment> \<open>line 119\<close>
          re_sub u DOTALL_IGNORECASE
            (seq [lit (U ''n'h'' @ [233] @ U ''sitez pas '' @ [224] @ U '' me poser''), StarLazy (NotIn [Chr
               46, Chr 10]), lit (U ''.'')])
            ([]) answer;
        answer = \<comment> \<open>line 120\<close>
          re_sub u DOTALL_IGNORECASE
            (seq [lit (U ''N'h'' @ [233] @ U ''sitez pas '' @ [224] @ U '' me demander''), StarLazy (NotIn
               [Chr 46, Chr 10]), lit (U ''.'')])
            ([]) answer;
        answer = \<comment> \<open>line 121\<close>
          re_sub u DOTALL_IGNORECASE
            (seq [lit (U ''Je suis disponible''), StarLazy (NotIn [Chr 46, Chr 10]), lit (U ''.'')])
            ([]) answer;
        answer = \<comment> \<open>line 122\<close>
          re_sub u DOTALL_IGNORECASE
            (seq [lit (U ''J'esp'' @ [232] @ U ''re que cette ''), StarLazy (NotIn [Chr 46, Chr 10]), lit (U
               '' vous a aid'' @ [233]), StarLazy (NotIn [Chr 46, Chr 10]), lit (U ''.'')])
            ([]) answer;
        answer = \<comment> \<open>line 123\<close>
          re_sub u DOTALL_IGNORECASE
            (seq [lit (U ''En esp'' @ [233] @ U ''rant avoir r'' @ [233] @ U ''pondu '' @ [224] @ U '' votre question''),
               StarLazy (NotIn [Chr 46, Chr 10]), lit (U ''.'')])
            ([]) answer;
        answer = \<comment> \<open>line 124\<close>
          re_sub u DOTALL_IGNORECASE
            (seq [lit (U ''Avez-vous d'autres questions''), StarLazy (NotIn [Chr 46, Chr 10]), lit (U ''.'')])
            ([]) answer;
        answer = \<comment> \<open>line 127\<close>
          re_sub u DOTALL_IGNORECASE
            (seq [lit (U ''En r'' @ [233] @ U ''sum'' @ [233] @ U '',''), StarLazy (NotIn [Chr 46]), Look
               (Alt (seq [lit (U ''. ''), Atom (In [Range 65 90])]) Eol)])
            ([]) answer;
        answer = \<comment> \<open>line 128\<close>
          re_sub u DOTALL_IGNORECASE
            (seq [lit (U ''En conclusion,''), StarLazy (NotIn [Chr 46]), Look (Alt (seq [lit (U ''. ''), Atom
               (In [Range 65 90])]) Eol)])
            ([]) answer;
        answer = \<comment> \<open>line 131\<close>
          re_sub u DOTALL_IGNORECASE
            (seq [lit (U ''Il est ''), Alt (lit (U ''donc '')) Empty, lit (U ''important que vous consultiez un m''
               @ [233] @ U ''decin''), StarLazy (NotIn [Chr 46]), lit (U ''.'')])
            ([]) answer;
        answer = \<comment> \<open>line 132\<close>
          re_sub u DOTALL_IGNORECASE
            (seq [lit (U ''vous devriez consulter un m'' @ [233] @ U ''decin''), StarLazy (NotIn [Chr 46]),
               lit (U ''.'')])
            ([]) answer;
        answer = \<comment> \<open>line 133\<close>
          re_sub u DOTALL_IGNORECASE
            (seq [lit (U ''consultez un professionnel de sant'' @ [233]), StarLazy (NotIn [Chr 46]), lit (U
               ''.'')])
            ([]) answer;
        answer = \<comment> \<open>line 136\<close>
          re_sub u DOTALL_IGNORECASE
            (seq [lit (U ''Il est ''), Alt (lit (U ''aussi '')) (Alt (lit ([233] @ U ''galement '')) Empty),
               lit (U ''important de noter''), StarLazy (NotIn [Chr 46]), lit (U ''.'')])
            ([]) answer;
        answer = \<comment> \<open>line 139\<close>
          re_sub u DOTALL_IGNORECASE
            (seq [lit (U ''il s'agit ''), Alt (lit (U ''donc '')) Empty, lit (U ''d'un sujet ''), Alt (lit (U
               ''tr'' @ [232] @ U ''s '')) Empty, lit (U ''vaste et complexe''), StarLazy (NotIn [Chr 46]), lit
               (U ''.'')])
            ([]) answer;
        answer = \<comment> \<open>line 140\<close>
          re_sub u DOTALL_IGNORECASE
            (seq [lit (U ''Il n'est pas possible dans ce contexte''), StarLazy (NotIn [Chr 46]), lit (U
               ''.'')])
            ([]) answer;
        answer = \<comment> \<open>line 143\<close>
          re_sub u no_flags
            (seq [Atom (Lit 10), Atom (Lit 10), Atom (Lit 10), Star (Lit 10)])
            (U ''\<newline>\<newline>'') answer;
        answer = \<comment> \<open>line 144\<close>
          re_sub u no_flags
            (seq [Atom (Lit 32), Atom (Lit 32), Star (Lit 32)])
            (U '' '') answer;
        answer = \<comment> \<open>line 147\<close>
          re_sub u IGNORECASE
            (seq [Bol, Alt (lit (U ''R'' @ [233] @ U ''ponse'')) (Alt (lit (U ''Answer'')) (lit ([1573, 1580,
               1575, 1576, 1577]))), Star (In [Space]), lit (U '':''), Star (In [Space])])
            ([]) answer
      in answer)"

definition clean_llama_response :: "unicode \<Rightarrow> ustring \<Rightarrow> ustring \<Rightarrow> error + ustring" where
  "clean_llama_response u answer query =
     (if answer = [] \<or> length answer < 10 then Inr incomplete_answer
      else
        let answer = strip_leaks u answer;
            answer = remove_incorrect_terms answer
        in case (if query \<noteq> [] then keep_relevant_paragraphs u answer query else Inr answer) of
             Inl e \<Rightarrow> Inl e
           | Inr answer \<Rightarrow> Inr (strip u (strip_closings u answer)))"

subsection \<open>\<open>generate_llama_prompt\<close>\<close>

definition system_message :: "ustring \<Rightarrow> ustring" where
  "system_message language =
     (if language = U ''fr'' then
        U ''\<newline>        Tu es un assistant m'' @ [233] @ U ''dical sp'' @ [233] @ U ''cialis'' @
          [233] @ U '' dans le cancer du sein. R'' @ [201] @ U ''PONDS UNIQUEMENT ET DIRECTEMENT '' @
          [192] @ U '' CE QUI EST DEMAND'' @ [201] @
          U '' dans la question. \<newline>        Fournis une r'' @ [233] @ U ''ponse d'' @ [233] @
          U ''taill'' @ [233] @ U ''e, en utilisant plusieurs paragraphes si n'' @ [233] @
          U ''cessaire pour bien expliquer chaque point, mais fais-le de mani'' @ [232] @
          U ''re structur'' @ [233] @
          U ''e et claire. \<newline>\<newline>        N'introduis PAS de d'' @ [233] @
          U ''finitions ou d'informations non demand'' @ [233] @ U ''es, et ne t'' @ [39, 233] @
          U ''carte pas du sujet pr'' @ [233] @
          U ''cis de la question. \<newline>        Assure-toi que ta r'' @ [233] @
          U ''ponse est grammaticale, sans fautes d'orthographe, et bien formul'' @ [233] @
          U ''e. \<newline>        N'utilise pas de formules de politesse ni d'invitations '' @ [224] @
          U '' poser d'autres questions.\<newline>        Donne une r'' @ [233] @
          U ''ponse claire de maximum 10 lignes et qui convient '' @ [224] @ U '' la question pos'' @
          [233] @ U ''e.\<newline>        Dans la r'' @ [233] @ U ''ponse, tu dois uniquement r'' @
          [233] @ U ''pondre '' @ [224] @ U '' la question pos'' @ [233] @
          U ''e, sans aborder d'autres sujets qui ne sont pas demand'' @ [233] @ U ''s. R'' @ [233] @
          U ''ponds strictement '' @ [224] @
          U '' la question, ni plus ni moins.       \<newline>        Termine la phrase, ne'' @
          U '' t'arr'' @ [234] @ U ''te pas en cours de r'' @ [233] @ U ''ponse.\<newline>        ''
      else if language = U ''en'' then
        U ''\<newline>        You are a medical assistant specializing in breast cancer. ANSW'' @
          U ''ER ONLY AND DIRECTLY WHAT IS ASKED in the question. \<newline>        Provide a d'' @
          U ''etailed response, using multiple paragraphs when necessary to explain ea'' @
          U ''ch point clearly and effectively. \<newline>\<newline>        DO NOT introduce definitions'' @
          U '' or information that wasn't asked for and don't deviate from the specifi'' @
          U ''c topic of the question. \<newline>        Ensure your answer is grammatically co'' @
          U ''rrect, free from spelling mistakes, and well-structured. \<newline>        Don't '' @
          U ''use politeness formulas or invitations to ask other questions.\<newline>        P'' @
          U ''rovide a clear response with a maximum of 10 lines that fits the questio'' @
          U ''n being asked.\<newline>        In your answer, you should only respond to the qu'' @
          U ''estion being asked, without addressing any other topics. Respond strictl'' @
          U ''y to the question, no more, no less.       \<newline>        Finish the sentence,'' @
          U '' do not stop halfway.\<newline>        ''
      else if language = U ''ar'' then
        U ''\<newline>        '' @ [1571, 1606, 1578] @ U '' '' @ [1605, 1587, 1575, 1593, 1583] @
          U '' '' @ [1591, 1576, 1610] @ U '' '' @ [1605, 1578, 1582, 1589, 1589] @ U '' '' @
          [1601, 1610] @ U '' '' @ [1587, 1585, 1591, 1575, 1606] @ U '' '' @
          [1575, 1604, 1579, 1583, 1610] @ U ''. '' @ [1571, 1580, 1576] @ U '' '' @
          [1601, 1602, 1591] @ U '' '' @ [1608, 1605, 1576, 1575, 1588, 1585, 1577] @ U '' '' @
          [1593, 1604, 1609] @ U '' '' @ [1605, 1575] @ U '' '' @ [1607, 1608] @ U '' '' @
          [1605, 1591, 1604, 1608, 1576] @ U '' '' @ [1601, 1610] @ U '' '' @
          [1575, 1604, 1587, 1572, 1575, 1604] @ U ''. \<newline>        '' @ [1602, 1583, 1605] @
          U '' '' @ [1573, 1580, 1575, 1576, 1577] @ U '' '' @ [1605, 1601, 1589, 1604, 1577] @
          U '' '' @ [1576, 1575, 1587, 1578, 1582, 1583, 1575, 1605] @ U '' '' @ [1593, 1583, 1577] @
          U '' '' @ [1601, 1602, 1585, 1575, 1578] @ U '' '' @ [1593, 1606, 1583] @ U '' '' @
          [1575, 1604, 1581, 1575, 1580, 1577] @ U '' '' @ [1604, 1588, 1585, 1581] @ U '' '' @
          [1603, 1604] @ U '' '' @ [1606, 1602, 1591, 1577] @ U '' '' @ [1576, 1608, 1590, 1608, 1581] @
          U '' '' @ [1608, 1601, 1593, 1575, 1604, 1610, 1577] @ U ''. \<newline>\<newline>        '' @
          [1604, 1575] @ U '' '' @ [1578, 1602, 1583, 1605] @ U '' '' @
          [1578, 1593, 1585, 1610, 1601, 1575, 1578] @ U '' '' @ [1571, 1608] @ U '' '' @
          [1605, 1593, 1604, 1608, 1605, 1575, 1578] @ U '' '' @ [1594, 1610, 1585] @ U '' '' @
          [1605, 1591, 1604, 1608, 1576, 1577] @ U '' '' @ [1608, 1604, 1575] @ U '' '' @
          [1578, 1606, 1581, 1585, 1601] @ U '' '' @ [1593, 1606] @ U '' '' @
          [1575, 1604, 1605, 1608, 1590, 1608, 1593] @ U '' '' @ [1575, 1604, 1605, 1581, 1583, 1583] @
          U '' '' @ [1604, 1604, 1587, 1572, 1575, 1604] @ U ''. \<newline>        '' @
          [1578, 1571, 1603, 1583] @ U '' '' @ [1605, 1606] @ U '' '' @ [1571, 1606] @ U '' '' @
          [1573, 1580, 1575, 1576, 1578, 1603] @ U '' '' @ [1589, 1581, 1610, 1581, 1577] @ U '' '' @
          [1605, 1606] @ U '' '' @ [1575, 1604, 1606, 1575, 1581, 1610, 1577] @ U '' '' @
          [1575, 1604, 1606, 1581, 1608, 1610, 1577] @ U '' '' @ [1608, 1582, 1575, 1604, 1610, 1577] @
          U '' '' @ [1605, 1606] @ U '' '' @ [1575, 1604, 1571, 1582, 1591, 1575, 1569] @ U '' '' @
          [1575, 1604, 1573, 1605, 1604, 1575, 1574, 1610, 1577] @ U '' '' @
          [1608, 1605, 1607, 1610, 1603, 1604, 1577] @ U '' '' @ [1576, 1588, 1603, 1604] @ U '' '' @
          [1580, 1610, 1583] @ U ''. \<newline>        '' @ [1604, 1575] @ U '' '' @
          [1578, 1587, 1578, 1582, 1583, 1605] @ U '' '' @ [1589, 1610, 1594] @ U '' '' @
          [1575, 1604, 1605, 1580, 1575, 1605, 1604, 1577] @ U '' '' @ [1571, 1608] @ U '' '' @
          [1575, 1604, 1583, 1593, 1608, 1575, 1578] @ U '' '' @ [1604, 1591, 1585, 1581] @ U '' '' @
          [1571, 1587, 1574, 1604, 1577] @ U '' '' @ [1571, 1582, 1585, 1609] @
          U ''.\<newline>        '' @ [1602, 1583, 1605] @ U '' '' @ [1573, 1580, 1575, 1576, 1577] @
          U '' '' @ [1608, 1575, 1590, 1581, 1577] @ U '' '' @ [1604, 1575] @ U '' '' @
          [1578, 1578, 1580, 1575, 1608, 1586] @ U '' 10 '' @ [1571, 1587, 1591, 1585] @ U '' '' @
          [1578, 1578, 1606, 1575, 1587, 1576] @ U '' '' @ [1605, 1593] @ U '' '' @
          [1575, 1604, 1587, 1572, 1575, 1604] @ U '' '' @ [1575, 1604, 1605, 1591, 1585, 1608, 1581] @
          U ''.\<newline>        '' @ [1601, 1610] @ U '' '' @
          [1573, 1580, 1575, 1576, 1578, 1603, 1548] @ U '' '' @ [1610, 1580, 1576] @ U '' '' @
          [1571, 1606] @ U '' '' @ [1578, 1602, 1578, 1589, 1585] @ U '' '' @ [1593, 1604, 1609] @
          U '' '' @ [1575, 1604, 1573, 1580, 1575, 1576, 1577] @ U '' '' @ [1593, 1606] @ U '' '' @
          [1575, 1604, 1587, 1572, 1575, 1604] @ U '' '' @ [1575, 1604, 1605, 1591, 1585, 1608, 1581] @
          U '' '' @ [1583, 1608, 1606] @ U '' '' @ [1575, 1604, 1578, 1591, 1585, 1602] @ U '' '' @
          [1573, 1604, 1609] @ U '' '' @ [1605, 1608, 1575, 1590, 1610, 1593] @ U '' '' @
          [1571, 1582, 1585, 1609] @ U ''. '' @ [1571, 1580, 1576] @ U '' '' @
          [1576, 1583, 1602, 1577] @ U '' '' @ [1593, 1604, 1609] @ U '' '' @
          [1575, 1604, 1587, 1572, 1575, 1604, 1548] @ U '' '' @ [1604, 1575] @ U '' '' @
          [1571, 1603, 1579, 1585] @ U '' '' @ [1608, 1604, 1575] @ U '' '' @ [1571, 1602, 1604] @
          U ''.       \<newline>        '' @ [1571, 1603, 1605, 1604] @ U '' '' @
          [1575, 1604, 1580, 1605, 1604, 1577, 1548] @ U '' '' @ [1604, 1575] @ U '' '' @
          [1578, 1578, 1608, 1602, 1601] @ U '' '' @ [1601, 1610] @ U '' '' @
          [1605, 1606, 1578, 1589, 1601] @ U '' '' @ [1575, 1604, 1580, 1608, 1575, 1576] @
          U ''.\<newline>        ''
      else 
        U ''\<newline>        Tu es un assistant m'' @ [233] @ U ''dical sp'' @ [233] @ U ''cialis'' @
          [233] @ U '' dans le cancer du sein. R'' @ [201] @ U ''PONDS UNIQUEMENT ET DIRECTEMENT '' @
          [192] @ U '' CE QUI EST DEMAND'' @ [201] @
          U '' dans la question. \<newline>        Fournis une r'' @ [233] @ U ''ponse d'' @ [233] @
          U ''taill'' @ [233] @ U ''e, en utilisant plusieurs paragraphes si n'' @ [233] @
          U ''cessaire pour bien expliquer chaque point, mais fais-le de mani'' @ [232] @
          U ''re structur'' @ [233] @
          U ''e et claire. \<newline>\<newline>        N'introduis PAS de d'' @ [233] @
          U ''finitions ou d'informations non demand'' @ [233] @ U ''es, et ne t'' @ [39, 233] @
          U ''carte pas du sujet pr'' @ [233] @
          U ''cis de la question. \<newline>        Assure-toi que ta r'' @ [233] @
          U ''ponse est grammaticale, sans fautes d'orthographe, et bien formul'' @ [233] @
          U ''e. \<newline>        N'utilise pas de formules de politesse ni d'invitations '' @ [224] @
          U '' poser d'autres questions.\<newline>        Donne une r'' @ [233] @
          U ''ponse claire de maximum 10 lignes et qui convient '' @ [224] @ U '' la question pos'' @
          [233] @ U ''e.\<newline>        Dans la r'' @ [233] @ U ''ponse, tu dois uniquement r'' @
          [233] @ U ''pondre '' @ [224] @ U '' la question pos'' @ [233] @
          U ''e, sans aborder d'autres sujets qui ne sont pas demand'' @ [233] @ U ''s. R'' @ [233] @
          U ''ponds strictement '' @ [224] @
          U '' la question, ni plus ni moins.       \<newline>        Termine la phrase, ne'' @
          U '' t'arr'' @ [234] @ U ''te pas en cours de r'' @ [233] @ U ''ponse.\<newline>        '')"

definition specific_instruction ::
  "ustring \<Rightarrow> ustring \<Rightarrow> ustring list \<Rightarrow> ustring \<Rightarrow> ustring" where
  "specific_instruction language query important_words knowledge_base =
     (if language = U ''fr'' then
        U ''INSTRUCTION CRITIQUE: \<newline>1. R'' @ [233] @ U ''ponds UNIQUEMENT '' @ [224] @
          U '' la question suivante: '' @ [34] @
          query @
          [34] @ U ''\<newline>2. Concentre-toi sur ces concepts cl'' @ [233] @ U ''s: '' @
          join (U '', '') (take 5 important_words) @
          U ''\<newline>3. Fournis une r'' @ [233] @ U ''ponse D'' @ [201] @ U ''TAILL'' @ [201] @
          U ''E mais STRICTEMENT PERTINENTE (pas d'information hors sujet)\<newline>4. Structur'' @
          U ''e ta r'' @ [233] @ U ''ponse en 2-4 paragraphes bien organis'' @ [233] @
          U ''s\<newline>5. Ne mentionne PAS que tu as re'' @ [231] @
          U ''u ces instructions\<newline>6. Ne termine PAS par des formules de politesse ou de'' @
          U ''s invitations\<newline>\<newline>Voici les informations m'' @ [233] @
          U ''dicales fiables sur lesquelles baser ta r'' @ [233] @ U ''ponse:\<newline>'' @
          knowledge_base @
          U ''\<newline>\<newline>Question: '' @
          query
      else if language = U ''en'' then
        U ''CRITICAL INSTRUCTION: \<newline>1. Answer ONLY the following question: '' @ [34] @
          query @
          [34] @ U ''\<newline>2. Focus on these key concepts: '' @
          join (U '', '') (take 5 important_words) @
          U ''\<newline>3. Provide a DETAILED but STRICTLY RELEVANT response (no off-topic info'' @
          U ''rmation)\<newline>4. Structure your answer in 2-4 well-organized paragraphs\<newline>5. DO'' @
          U '' NOT mention that you received these instructions\<newline>6. DO NOT end with pol'' @
          U ''iteness formulas or invitations\<newline>\<newline>Here is the reliable medical informatio'' @
          U ''n on which to base your answer:\<newline>'' @
          knowledge_base @
          U ''\<newline>\<newline>Question: '' @
          query
      else if language = U ''ar'' then
        [1578, 1593, 1604, 1610, 1605, 1575, 1578] @ U '' '' @ [1605, 1607, 1605, 1577] @
          U '': \<newline>1. '' @ [1571, 1580, 1576] @ U '' '' @ [1601, 1602, 1591] @ U '' '' @
          [1593, 1604, 1609] @ U '' '' @ [1575, 1604, 1587, 1572, 1575, 1604] @ U '' '' @
          [1575, 1604, 1578, 1575, 1604, 1610] @ U '': '' @ [34] @
          query @
          [34] @ U ''\<newline>2. '' @ [1585, 1603, 1586] @ U '' '' @ [1593, 1604, 1609] @ U '' '' @
          [1607, 1584, 1607] @ U '' '' @ [1575, 1604, 1605, 1601, 1575, 1607, 1610, 1605] @ U '' '' @
          [1575, 1604, 1585, 1574, 1610, 1587, 1610, 1577] @ U '': '' @
          join (U '', '') (take 5 important_words) @
          U ''\<newline>3. '' @ [1602, 1583, 1605] @ U '' '' @ [1573, 1580, 1575, 1576, 1577] @
          U '' '' @ [1605, 1601, 1589, 1604, 1577] @ U '' '' @ [1608, 1604, 1603, 1606] @ U '' '' @
          [1608, 1579, 1610, 1602, 1577] @ U '' '' @ [1575, 1604, 1589, 1604, 1577] @ U '' '' @
          [1578, 1605, 1575, 1605, 1611, 1575] @ U '' ('' @ [1576, 1583, 1608, 1606] @ U '' '' @
          [1605, 1593, 1604, 1608, 1605, 1575, 1578] @ U '' '' @ [1582, 1575, 1585, 1580] @ U '' '' @
          [1575, 1604, 1605, 1608, 1590, 1608, 1593] @ U '')\<newline>4. '' @ [1607, 1610, 1603, 1604] @
          U '' '' @ [1573, 1580, 1575, 1576, 1578, 1603] @ U '' '' @ [1601, 1610] @ U '' 2-4 '' @
          [1601, 1602, 1585, 1575, 1578] @ U '' '' @ [1605, 1606, 1592, 1605, 1577] @ U '' '' @
          [1580, 1610, 1583, 1611, 1575] @ U ''\<newline>5. '' @ [1604, 1575] @ U '' '' @
          [1578, 1584, 1603, 1585] @ U '' '' @ [1571, 1606, 1603] @ U '' '' @
          [1578, 1604, 1602, 1610, 1578] @ U '' '' @ [1607, 1584, 1607] @ U '' '' @
          [1575, 1604, 1578, 1593, 1604, 1610, 1605, 1575, 1578] @ U ''\<newline>6. '' @ [1604, 1575] @
          U '' '' @ [1578, 1606, 1578, 1607, 1610] @ U '' '' @ [1576, 1589, 1610, 1594] @ U '' '' @
          [1605, 1580, 1575, 1605, 1604, 1577] @ U '' '' @ [1571, 1608] @ U '' '' @
          [1583, 1593, 1608, 1575, 1578] @ U ''\<newline>\<newline>'' @ [1573, 1604, 1610, 1603] @
          U '' '' @ [1575, 1604, 1605, 1593, 1604, 1608, 1605, 1575, 1578] @ U '' '' @
          [1575, 1604, 1591, 1576, 1610, 1577] @ U '' '' @
          [1575, 1604, 1605, 1608, 1579, 1608, 1602, 1577] @ U '' '' @ [1575, 1604, 1578, 1610] @
          U '' '' @ [1610, 1605, 1603, 1606, 1603] @ U '' '' @
          [1575, 1604, 1575, 1587, 1578, 1606, 1575, 1583] @ U '' '' @ [1573, 1604, 1610, 1607, 1575] @
          U '' '' @ [1601, 1610] @ U '' '' @ [1573, 1580, 1575, 1576, 1578, 1603] @ U '':\<newline>'' @
          knowledge_base @
          U ''\<newline>\<newline>'' @ [1575, 1604, 1587, 1572, 1575, 1604] @ U '': '' @
          query
      else 
        U ''INSTRUCTION CRITIQUE: \<newline>1. R'' @ [233] @ U ''ponds UNIQUEMENT '' @ [224] @
          U '' la question suivante: '' @ [34] @
          query @
          [34] @ U ''\<newline>2. Concentre-toi sur ces concepts cl'' @ [233] @ U ''s: '' @
          join (U '', '') (take 5 important_words) @
          U ''\<newline>3. Fournis une r'' @ [233] @ U ''ponse D'' @ [201] @ U ''TAILL'' @ [201] @
          U ''E mais STRICTEMENT PERTINENTE (pas d'information hors sujet)\<newline>4. Structur'' @
          U ''e ta r'' @ [233] @ U ''ponse en 2-4 paragraphes bien organis'' @ [233] @
          U ''s\<newline>5. Ne mentionne PAS que tu as re'' @ [231] @
          U ''u ces instructions\<newline>6. Ne termine PAS par des formules de politesse ou de'' @
          U ''s invitations\<newline>\<newline>Voici les informations m'' @ [233] @
          U ''dicales fiables sur lesquelles baser ta r'' @ [233] @ U ''ponse:\<newline>'' @
          knowledge_base @
          U ''\<newline>\<newline>Question: '' @
          query)"

definition generate_llama_prompt ::
  "unicode \<Rightarrow> ustring \<Rightarrow> ustring \<Rightarrow> ustring \<Rightarrow> bool \<Rightarrow> ustring" where
  "generate_llama_prompt u query language knowledge_base use_correction =
     (let query_words = split_ws u [] query;
          important_words =
            filter (\<lambda>w. length w > 3 \<and>
                        lower u w \<notin> set [U ''dans'', U ''avec'', U ''pour'', U ''quel'', U ''quelle'', U ''quels'',
                           U ''quelles'', U ''comment'', U ''est-ce'', U ''sont'', U ''mais'', U ''aussi'',
                           U ''donc'', U ''alors''])
              query_words
      in U ''<s>[INST] '' @ system_message language @ U ''\<newline>\<newline>'' @
         specific_instruction language query important_words knowledge_base @ U '' [/INST]'')"

subsection \<open>\<open>get_fallback_response\<close>\<close>

definition get_fallback_response :: "unicode \<Rightarrow> ustring \<Rightarrow> ustring \<Rightarrow> ustring" where
  "get_fallback_response u query language =
     (let query_lower = lower u query
      in if language = U ''fr'' then
           (if any_in [U ''bonjour'', U ''salut'', U ''coucou''] query_lower then
             U ''Bonjour! Je suis votre assistant sp'' @ [233] @ U ''cialis'' @ [233] @
             U '' dans le cancer du sein. Comment puis-je vous aider aujourd'hui?''
           else if any_in [U ''merci'', U ''remercie''] query_lower then
             U ''Je vous en prie! N'h'' @ [233] @ U ''sitez pas si vous avez d'autres questions.''
           else if any_in [U ''symptome'', U ''sympt'' @ [244] @ U ''me'', U ''signe''] query_lower then
             U ''Les sympt'' @ [244] @ U ''mes courants du cancer du sein incluent une bosse ou un '' @
             [233] @ U ''paississement dans le sein, un changement de taille ou de forme du sein,'' @
             U '' des modifications de la peau du sein (rougeur, fossettes), un '' @ [233] @
             U ''coulement du mamelon et une douleur dans le sein ou le mamelon. Il est i'' @
             U ''mportant de consulter un m'' @ [233] @ U ''decin si vous remarquez l'un de ces signes.''
           else if any_in [U ''traitement'', U ''soigner'', U ''gu'' @ [233] @ U ''rir''] query_lower then
             U ''Les traitements du cancer du sein peuvent inclure la chirurgie (tumorect'' @
             U ''omie ou mastectomie), la radioth'' @ [233] @ U ''rapie, la chimioth'' @ [233] @
             U ''rapie, l'hormonoth'' @ [233] @ U ''rapie et les th'' @ [233] @ U ''rapies cibl'' @ [233] @
             U ''es. Le plan de traitement est personnalis'' @ [233] @
             U '' en fonction du stade du cancer, de son type et des caract'' @ [233] @
             U ''ristiques de la patiente.''
           else if any_in [U ''risque'', U ''facteur'', U ''pr'' @ [233] @ U ''vention''] query_lower then
             U ''Les facteurs de risque du cancer du sein incluent l'' @ [39, 226] @ U ''ge, les ant'' @
             [233] @ U ''c'' @ [233] @ U ''dents familiaux, les mutations g'' @ [233] @ U ''n'' @ [233] @
             U ''tiques (BRCA1 et BRCA2), l'exposition aux '' @ [339] @ U ''strog'' @ [232] @
             U ''nes, le surpoids apr'' @ [232] @ U ''s la m'' @ [233] @
             U ''nopause, la consommation d'alcool et l'inactivit'' @ [233] @ U '' physique. La pr'' @
             [233] @ U ''vention passe par un mode de vie sain et un d'' @ [233] @ U ''pistage r'' @
             [233] @ U ''gulier.''
           else 
             U ''Je ne peux pas g'' @ [233] @ U ''n'' @ [233] @ U ''rer une r'' @ [233] @
             U ''ponse compl'' @ [232] @ U ''te '' @ [224] @
             U '' cette question pour le moment. Je vous sugg'' @ [232] @
             U ''re de reformuler votre question ou de consulter un professionnel de sant'' @ [233] @
             U '' pour obtenir des informations pr'' @ [233] @ U ''cises sur le cancer du sein.'')
         else if language = U ''en'' then
           (if any_in [U ''hello'', U ''hi'', U ''hey''] query_lower then
             U ''Hello! I'm your breast cancer specialist assistant. How can I help you t'' @ U ''oday?''
           else if any_in [U ''thank'', U ''thanks''] query_lower then
             U ''You're welcome! Feel free to ask if you have any other questions.''
           else if any_in [U ''symptom'', U ''sign''] query_lower then
             U ''Common breast cancer symptoms include a lump or thickening in the breast'' @
             U '', change in breast size or shape, changes to the skin of the breast (red'' @
             U ''ness, dimpling), nipple discharge, and pain in the breast or nipple. '' @
             U ''It's important to consult a doctor if you notice any of these signs.''
           else if any_in [U ''treatment'', U ''cure'', U ''heal''] query_lower then
             U ''Breast cancer treatments may include surgery (lumpectomy or mastectomy),'' @
             U '' radiation therapy, chemotherapy, hormone therapy, and targeted therapie'' @
             U ''s. The treatment plan is personalized based on the stage of cancer, its '' @
             U ''type, and the patient's characteristics.''
           else if any_in [U ''risk'', U ''factor'', U ''prevention''] query_lower then
             U ''Breast cancer risk factors include age, family history, genetic mutation'' @
             U ''s (BRCA1 and BRCA2), estrogen exposure, being overweight after menopause'' @
             U '', alcohol consumption, and physical inactivity. Prevention involves a he'' @
             U ''althy lifestyle and regular screening.''
           else 
             U ''I cannot generate a complete answer to this question at the moment. I su'' @
             U ''ggest rephrasing your question or consulting a healthcare professional f'' @
             U ''or accurate information about breast cancer.'')
         else if language = U ''ar'' then
           (if any_in [[1589, 1576, 1575, 1581] @ U '' '' @ [1575, 1604, 1582, 1610, 1585] @ U '' '',
                 [1605, 1585, 1581, 1576, 1575], [1587, 1604, 1575, 1605], [1571, 1607, 1604, 1575]] query_lower then
             [1605, 1585, 1581, 1576, 1575, 1611] @ U ''! '' @ [1571, 1606, 1575] @ U '' '' @
             [1605, 1587, 1575, 1593, 1583, 1603] @ U '' '' @ [1575, 1604, 1605, 1578, 1582, 1589, 1589] @
             U '' '' @ [1601, 1610] @ U '' '' @ [1587, 1585, 1591, 1575, 1606] @ U '' '' @
             [1575, 1604, 1579, 1583, 1610] @ U ''. '' @ [1603, 1610, 1601] @ U '' '' @
             [1610, 1605, 1603, 1606, 1606, 1610] @ U '' '' @ [1605, 1587, 1575, 1593, 1583, 1578, 1603] @
             U '' '' @ [1575, 1604, 1610, 1608, 1605, 1567]
           else if any_in [[1588, 1603, 1585, 1575]] query_lower then
             [1593, 1604, 1609] @ U '' '' @ [1575, 1604, 1585, 1581, 1576] @ U '' '' @
             [1608, 1575, 1604, 1587, 1593, 1577] @ U ''! '' @ [1604, 1575] @ U '' '' @
             [1578, 1578, 1585, 1583, 1583] @ U '' '' @ [1601, 1610] @ U '' '' @
             [1575, 1604, 1587, 1572, 1575, 1604] @ U '' '' @ [1573, 1584, 1575] @ U '' '' @
             [1603, 1575, 1606] @ U '' '' @ [1604, 1583, 1610, 1603] @ U '' '' @ [1571, 1610] @ U '' '' @
             [1575, 1587, 1578, 1601, 1587, 1575, 1585, 1575, 1578] @ U '' '' @ [1571, 1582, 1585, 1609] @
             U ''.''
           else if any_in [[1593, 1585, 1590], [1593, 1604, 1575, 1605, 1577], [1571, 1593, 1585, 1575, 1590]] query_lower then
             [1578, 1588, 1605, 1604] @ U '' '' @ [1571, 1593, 1585, 1575, 1590] @ U '' '' @
             [1587, 1585, 1591, 1575, 1606] @ U '' '' @ [1575, 1604, 1579, 1583, 1610] @ U '' '' @
             [1575, 1604, 1588, 1575, 1574, 1593, 1577] @ U '' '' @ [1608, 1580, 1608, 1583] @ U '' '' @
             [1603, 1578, 1604, 1577] @ U '' '' @ [1571, 1608] @ U '' '' @ [1587, 1605, 1575, 1603, 1577] @
             U '' '' @ [1601, 1610] @ U '' '' @ [1575, 1604, 1579, 1583, 1610, 1548] @ U '' '' @
             [1578, 1594, 1610, 1585] @ U '' '' @ [1601, 1610] @ U '' '' @ [1581, 1580, 1605] @ U '' '' @
             [1571, 1608] @ U '' '' @ [1588, 1603, 1604] @ U '' '' @ [1575, 1604, 1579, 1583, 1610, 1548] @
             U '' '' @ [1578, 1594, 1610, 1585, 1575, 1578] @ U '' '' @ [1601, 1610] @ U '' '' @
             [1580, 1604, 1583] @ U '' '' @ [1575, 1604, 1579, 1583, 1610] @ U '' ('' @
             [1575, 1581, 1605, 1585, 1575, 1585, 1548] @ U '' '' @ [1606, 1602, 1585] @ U '')'' @ [1548] @
             U '' '' @ [1573, 1601, 1585, 1575, 1586, 1575, 1578] @ U '' '' @ [1605, 1606] @ U '' '' @
             [1575, 1604, 1581, 1604, 1605, 1577, 1548] @ U '' '' @ [1608, 1571, 1604, 1605] @ U '' '' @
             [1601, 1610] @ U '' '' @ [1575, 1604, 1579, 1583, 1610] @ U '' '' @ [1571, 1608] @ U '' '' @
             [1575, 1604, 1581, 1604, 1605, 1577] @ U ''. '' @ [1605, 1606] @ U '' '' @
             [1575, 1604, 1605, 1607, 1605] @ U '' '' @ [1575, 1587, 1578, 1588, 1575, 1585, 1577] @
             U '' '' @ [1575, 1604, 1591, 1576, 1610, 1576] @ U '' '' @ [1573, 1584, 1575] @ U '' '' @
             [1604, 1575, 1581, 1592, 1578] @ U '' '' @ [1571, 1610, 1575, 1611] @ U '' '' @ [1605, 1606] @
             U '' '' @ [1607, 1584, 1607] @ U '' '' @ [1575, 1604, 1593, 1604, 1575, 1605, 1575, 1578] @
             U ''.''
           else if any_in [[1593, 1604, 1575, 1580], [1588, 1601, 1575, 1569]] query_lower then
             [1602, 1583] @ U '' '' @ [1578, 1588, 1605, 1604] @ U '' '' @
             [1593, 1604, 1575, 1580, 1575, 1578] @ U '' '' @ [1587, 1585, 1591, 1575, 1606] @ U '' '' @
             [1575, 1604, 1579, 1583, 1610] @ U '' '' @ [1575, 1604, 1580, 1585, 1575, 1581, 1577] @
             U '' ('' @ [1575, 1587, 1578, 1574, 1589, 1575, 1604] @ U '' '' @
             [1575, 1604, 1608, 1585, 1605] @ U '' '' @ [1571, 1608] @ U '' '' @
             [1575, 1587, 1578, 1574, 1589, 1575, 1604] @ U '' '' @ [1575, 1604, 1579, 1583, 1610] @
             U '')'' @ [1548] @ U '' '' @ [1608, 1575, 1604, 1593, 1604, 1575, 1580] @ U '' '' @
             [1575, 1604, 1573, 1588, 1593, 1575, 1593, 1610, 1548] @ U '' '' @
             [1608, 1575, 1604, 1593, 1604, 1575, 1580] @ U '' '' @
             [1575, 1604, 1603, 1610, 1605, 1610, 1575, 1574, 1610, 1548] @ U '' '' @
             [1608, 1575, 1604, 1593, 1604, 1575, 1580] @ U '' '' @
             [1575, 1604, 1607, 1585, 1605, 1608, 1606, 1610, 1548] @ U '' '' @
             [1608, 1575, 1604, 1593, 1604, 1575, 1580, 1575, 1578] @ U '' '' @
             [1575, 1604, 1605, 1587, 1578, 1607, 1583, 1601, 1577] @ U ''. '' @ [1610, 1578, 1605] @
             U '' '' @ [1578, 1582, 1589, 1610, 1589] @ U '' '' @ [1582, 1591, 1577] @ U '' '' @
             [1575, 1604, 1593, 1604, 1575, 1580] @ U '' '' @ [1576, 1606, 1575, 1569, 1611] @ U '' '' @
             [1593, 1604, 1609] @ U '' '' @ [1605, 1585, 1581, 1604, 1577] @ U '' '' @
             [1575, 1604, 1587, 1585, 1591, 1575, 1606, 1548] @ U '' '' @
             [1608, 1606, 1608, 1593, 1607, 1548] @ U '' '' @ [1608, 1582, 1589, 1575, 1574, 1589] @
             U '' '' @ [1575, 1604, 1605, 1585, 1610, 1590, 1577] @ U ''.''
           else if any_in [[1582, 1591, 1585], [1593, 1575, 1605, 1604], [1608, 1602, 1575, 1610, 1577]] query_lower then
             [1578, 1588, 1605, 1604] @ U '' '' @ [1593, 1608, 1575, 1605, 1604] @ U '' '' @
             [1582, 1591, 1585] @ U '' '' @ [1575, 1604, 1573, 1589, 1575, 1576, 1577] @ U '' '' @
             [1576, 1587, 1585, 1591, 1575, 1606] @ U '' '' @ [1575, 1604, 1579, 1583, 1610] @ U '' '' @
             [1575, 1604, 1593, 1605, 1585, 1548] @ U '' '' @
             [1608, 1575, 1604, 1578, 1575, 1585, 1610, 1582] @ U '' '' @
             [1575, 1604, 1593, 1575, 1574, 1604, 1610, 1548] @ U '' '' @
             [1608, 1575, 1604, 1591, 1601, 1585, 1575, 1578] @ U '' '' @
             [1575, 1604, 1580, 1610, 1606, 1610, 1577] @ U '' (BRCA1 '' @ [1608] @ U '' BRCA2)'' @
             [1548] @ U '' '' @ [1608, 1575, 1604, 1578, 1593, 1585, 1590] @ U '' '' @
             [1604, 1604, 1573, 1587, 1578, 1585, 1608, 1580, 1610, 1606, 1548] @ U '' '' @
             [1608, 1586, 1610, 1575, 1583, 1577] @ U '' '' @ [1575, 1604, 1608, 1586, 1606] @ U '' '' @
             [1576, 1593, 1583] @ U '' '' @ [1575, 1606, 1602, 1591, 1575, 1593] @ U '' '' @
             [1575, 1604, 1591, 1605, 1579, 1548] @ U '' '' @
             [1608, 1575, 1587, 1578, 1607, 1604, 1575, 1603] @ U '' '' @
             [1575, 1604, 1603, 1581, 1608, 1604, 1548] @ U '' '' @ [1608, 1602, 1604, 1577] @ U '' '' @
             [1575, 1604, 1606, 1588, 1575, 1591] @ U '' '' @ [1575, 1604, 1576, 1583, 1606, 1610] @
             U ''. '' @ [1578, 1578, 1590, 1605, 1606] @ U '' '' @
             [1575, 1604, 1608, 1602, 1575, 1610, 1577] @ U '' '' @ [1606, 1605, 1591] @ U '' '' @
             [1581, 1610, 1575, 1577] @ U '' '' @ [1589, 1581, 1610] @ U '' '' @ [1608, 1601, 1581, 1589] @
             U '' '' @ [1605, 1606, 1578, 1592, 1605] @ U ''.''
           else 
             [1604, 1575] @ U '' '' @ [1610, 1605, 1603, 1606, 1606, 1610] @ U '' '' @
             [1578, 1602, 1583, 1610, 1605] @ U '' '' @ [1573, 1580, 1575, 1576, 1577] @ U '' '' @
             [1603, 1575, 1605, 1604, 1577] @ U '' '' @ [1593, 1604, 1609] @ U '' '' @ [1607, 1584, 1575] @
             U '' '' @ [1575, 1604, 1587, 1572, 1575, 1604] @ U '' '' @ [1601, 1610] @ U '' '' @
             [1575, 1604, 1608, 1602, 1578] @ U '' '' @ [1575, 1604, 1581, 1575, 1604, 1610] @ U ''. '' @
             [1571, 1602, 1578, 1585, 1581] @ U '' '' @ [1573, 1593, 1575, 1583, 1577] @ U '' '' @
             [1589, 1610, 1575, 1594, 1577] @ U '' '' @ [1587, 1572, 1575, 1604, 1603] @ U '' '' @
             [1571, 1608] @ U '' '' @ [1575, 1587, 1578, 1588, 1575, 1585, 1577] @ U '' '' @
             [1571, 1582, 1589, 1575, 1574, 1610] @ U '' '' @ [1585, 1593, 1575, 1610, 1577] @ U '' '' @
             [1589, 1581, 1610, 1577] @ U '' '' @ [1604, 1604, 1581, 1589, 1608, 1604] @ U '' '' @
             [1593, 1604, 1609] @ U '' '' @ [1605, 1593, 1604, 1608, 1605, 1575, 1578] @ U '' '' @
             [1583, 1602, 1610, 1602, 1577] @ U '' '' @ [1581, 1608, 1604] @ U '' '' @
             [1587, 1585, 1591, 1575, 1606] @ U '' '' @ [1575, 1604, 1579, 1583, 1610] @ U ''.'')
         else 
           U ''Je ne peux pas g'' @ [233] @ U ''n'' @ [233] @ U ''rer une r'' @ [233] @
             U ''ponse compl'' @ [232] @ U ''te '' @ [224] @
             U '' cette question pour le moment. Je vous sugg'' @ [232] @
             U ''re de reformuler votre question ou de consulter un professionnel de sant'' @ [233] @
             U '' pour obtenir des informations pr'' @ [233] @ U ''cises sur le cancer du sein.'')"

subsection \<open>Texts that are already clean\<close>

text \<open>
  \<open>clean_llama_response\<close> applied to its own result, with the same query; an exception
  of the first application is the outcome.
\<close>

definition clean_twice :: "unicode \<Rightarrow> ustring \<Rightarrow> ustring \<Rightarrow> error + ustring" where
  "clean_twice u answer query =
     (case clean_llama_response u answer query of
        Inl e \<Rightarrow> Inl e
      | Inr cleaned \<Rightarrow> clean_llama_response u cleaned query)"

text \<open>
  The substitutions of \<open>clean_llama_response\<close> as data: the flags, the pattern and the
  replacement of each \<open>re.sub\<close> of lines 38 to 52 and of lines 113 to 147, in the order
  of the code. Applying a list of them is what the two blocks of assignments do.
\<close>

type_synonym substitution = "flags \<times> re \<times> ustring"

definition leak_substitutions :: "substitution list" where
  "leak_substitutions =
     [
      \<comment> \<open>line 38\<close>
      (DOTALL_IGNORECASE,
        seq [lit (U ''INSTRUCTION ''), Alt (lit (U ''CRITIQUE'')) (Alt (lit (U ''INTERNE'')) (lit (U
         ''CRITICAL''))), StarLazy (Dot), lit (U ''Question:'')],
        []),
      \<comment> \<open>line 39\<close>
      (DOTALL_IGNORECASE,
        seq [lit (U ''INTERNAL INSTRUCTION''), StarLazy (Dot), lit (U ''Question:'')],
        []),
      \<comment> \<open>line 40\<close>
      (DOTALL_IGNORECASE,
        seq [lit ([1578, 1593, 1604, 1610, 1605, 1575, 1578] @ U '' ''), Alt (lit ([1605, 1607, 1605,
         1577])) (lit ([1583, 1575, 1582, 1604, 1610, 1577])), StarLazy (Dot), lit ([1575, 1604, 1587,
         1572, 1575, 1604] @ U '':'')],
        []),
      \<comment> \<open>line 41\<close>
      (DOTALL_IGNORECASE,
        seq [lit (U ''Question corrig'' @ [233] @ U ''e et reformul'' @ [233] @ U ''e''), Star (In
         [Space]), lit (U '':''), StarLazy (Dot), lit (U ''\<newline>'')],
        []),
      \<comment> \<open>line 42\<close>
      (DOTALL_IGNORECASE,
        seq [lit (U ''Corrected and rephrased question''), Star (In [Space]), lit (U '':''), StarLazy
         (Dot), lit (U ''\<newline>'')],
        []),
      \<comment> \<open>line 43\<close>
      (DOTALL_IGNORECASE,
        seq [lit ([1575, 1604, 1587, 1572, 1575, 1604] @ U '' '' @ [1575, 1604, 1605, 1589, 1581, 1581]
         @ U '' '' @ [1608, 1575, 1604, 1605, 1593, 1575, 1583] @ U '' '' @ [1589, 1610, 1575, 1594,
         1578, 1607]), Star (In [Space]), lit (U '':''), StarLazy (Dot), lit (U ''\<newline>'')],
        []),
      \<comment> \<open>line 46\<close>
      (IGNORECASE,
        lit (U ''J'ai corrig'' @ [233] @ U '' et reformul'' @ [233] @ U '' votre question.''),
        []),
      \<comment> \<open>line 47\<close>
      (IGNORECASE,
        lit (U ''I have corrected and rephrased your question.''),
        []),
      \<comment> \<open>line 48\<close>
      (IGNORECASE,
        lit ([1604, 1602, 1583] @ U '' '' @ [1602, 1605, 1578] @ U '' '' @ [1576, 1578, 1589, 1581,
         1610, 1581] @ U '' '' @ [1608, 1573, 1593, 1575, 1583, 1577] @ U '' '' @ [1589, 1610, 1575,
         1594, 1577] @ U '' '' @ [1587, 1572, 1575, 1604, 1603] @ U ''.''),
        []),
      \<comment> \<open>line 51\<close>
      (no_flags,
        seq [lit (U ''<''), Star (NotIn [Chr 62]), lit (U ''>'')],
        []),
      \<comment> \<open>line 52\<close>
      (no_flags,
        seq [Atom (In [Chr 42, Chr 95, Chr 126, Chr 96, Chr 124]), Star (In [Chr 42, Chr 95, Chr 126,
         Chr 96, Chr 124])],
        [])
     ]"

definition closing_substitutions :: "substitution list" where
  "closing_substitutions =
     [
      \<comment> \<open>line 113\<close>
      (DOTALL_IGNORECASE,
        seq [lit (U ''N'h'' @ [233] @ U ''sitez''), StarLazy (NotIn [Chr 46, Chr 10]), lit ([224] @ U '' me poser''),
         StarLazy (NotIn [Chr 46, Chr 10]), lit (U ''.'')],
        []),
      \<comment> \<open>line 114\<close>
      (DOTALL_IGNORECASE,
        seq [lit (U ''Nous sommes l'' @ [224] @ U '' pour t'aider''), StarLazy (NotIn [Chr 46, Chr 10]),
         lit (U ''.'')],
        []),
      \<comment> \<open>line 115\<close>
      (DOTALL_IGNORECASE,
        seq [lit (U ''Si tu n'obtiens pas''), StarLazy (NotIn [Chr 46, Chr 10]), lit (U ''.'')],
        []),
      \<comment> \<open>line 116\<close>
      (DOTALL_IGNORECASE,
        seq [lit (U ''Vous pouvez aussi contacter''), StarLazy (NotIn [Chr 46, Chr 10]), lit (U ''.'')],
        []),
      \<comment> \<open>line 117\<close>
      (DOTALL_IGNORECASE,
        seq [lit (U ''Si j'avais des r'' @ [233] @ U ''ponses''), StarLazy (NotIn [Chr 46, Chr 10]), lit
         (U ''.'')],
        []),
      \<comment> \<open>line 118\<close>
      (DOTALL_IGNORECASE,
        seq [lit (U ''Je suis''), StarLazy (NotIn [Chr 46, Chr 10]), lit ([224] @ U '' votre service''),
         StarLazy (NotIn [Chr 46, Chr 10]), lit (U ''.'')],
        []),
      \<comment> \<open>line 119\<close>
      (DOTALL_IGNORECASE,
        seq [lit (U ''n'h'' @ [233] @ U ''sitez pas '' @ [224] @ U '' me poser''), StarLazy (NotIn [Chr
         46, Chr 10]), lit (U ''.'')],
        []),
      \<comment> \<open>line 120\<close>
      (DOTALL_IGNORECASE,
        seq [lit (U ''N'h'' @ [233] @ U ''sitez pas '' @ [224] @ U '' me demander''), StarLazy (NotIn
         [Chr 46, Chr 10]), lit (U ''.'')],
        []),
      \<comment> \<open>line 121\<close>
      (DOTALL_IGNORECASE,
        seq [lit (U ''Je suis disponible''), StarLazy (NotIn [Chr 46, Chr 10]), lit (U ''.'')],
        []),
      \<comment> \<open>line 122\<close>
      (DOTALL_IGNORECASE,
        seq [lit (U ''J'esp'' @ [232] @ U ''re que cette ''), StarLazy (NotIn [Chr 46, Chr 10]), lit (U
         '' vous a aid'' @ [233]), StarLazy (NotIn [Chr 46, Chr 10]), lit (U ''.'')],
        []),
      \<comment> \<open>line 123\<close>
      (DOTALL_IGNORECASE,
        seq [lit (U ''En esp'' @ [233] @ U ''rant avoir r'' @ [233] @ U ''pondu '' @ [224] @ U '' votre question''),
         StarLazy (NotIn [Chr 46, Chr 10]), lit (U ''.'')],
        []),
      \<comment> \<open>line 124\<close>
      (DOTALL_IGNORECASE,
        seq [lit (U ''Avez-vous d'autres questions''), StarLazy (NotIn [Chr 46, Chr 10]), lit (U ''.'')],
        []),
      \<comment> \<open>line 127\<close>
      (DOTALL_IGNORECASE,
        seq [lit (U ''En r'' @ [233] @ U ''sum'' @ [233] @ U '',''), StarLazy (NotIn [Chr 46]), Look
         (Alt (seq [lit (U ''. ''), Atom (In [Range 65 90])]) Eol)],
        []),
      \<comment> \<open>line 128\<close>
      (DOTALL_IGNORECASE,
        seq [lit (U ''En conclusion,''), StarLazy (NotIn [Chr 46]), Look (Alt (seq [lit (U ''. ''), Atom
         (In [Range 65 90])]) Eol)],
        []),
      \<comment> \<open>line 131\<close>
      (DOTALL_IGNORECASE,
        seq [lit (U ''Il est ''), Alt (lit (U ''donc '')) Empty, lit (U ''important que vous consultiez un m''
         @ [233] @ U ''decin''), StarLazy (NotIn [Chr 46]), lit (U ''.'')],
        []),
      \<comment> \<open>line 132\<close>
      (DOTALL_IGNORECASE,
        seq [lit (U ''vous devriez consulter un m'' @ [233] @ U ''decin''), StarLazy (NotIn [Chr 46]),
         lit (U ''.'')],
        []),
      \<comment> \<open>line 133\<close>
      (DOTALL_IGNORECASE,
        seq [lit (U ''consultez un professionnel de sant'' @ [233]), StarLazy (NotIn [Chr 46]), lit (U
         ''.'')],
        []),
      \<comment> \<open>line 136\<close>
      (DOTALL_IGNORECASE,
        seq [lit (U ''Il est ''), Alt (lit (U ''aussi '')) (Alt (lit ([233] @ U ''galement '')) Empty),
         lit (U ''important de noter''), StarLazy (NotIn [Chr 46]), lit (U ''.'')],
        []),
      \<comment> \<open>line 139\<close>
      (DOTALL_IGNORECASE,
        seq [lit (U ''il s'agit ''), Alt (lit (U ''donc '')) Empty, lit (U ''d'un sujet ''), Alt (lit (U
         ''tr'' @ [232] @ U ''s '')) Empty, lit (U ''vaste et complexe''), StarLazy (NotIn [Chr 46]), lit
         (U ''.'')],
        []),
      \<comment> \<open>line 140\<close>
      (DOTALL_IGNORECASE,
        seq [lit (U ''Il n'est pas possible dans ce contexte''), StarLazy (NotIn [Chr 46]), lit (U
         ''.'')],
        []),
      \<comment> \<open>line 143\<close>
      (no_flags,
        seq [Atom (Lit 10), Atom (Lit 10), Atom (Lit 10), Star (Lit 10)],
        U ''\<newline>\<newline>''),
      \<comment> \<open>line 144\<close>
      (no_flags,
        seq [Atom (Lit 32), Atom (Lit 32), Star (Lit 32)],
        U '' ''),
      \<comment> \<open>line 147\<close>
      (IGNORECASE,
        seq [Bol, Alt (lit (U ''R'' @ [233] @ U ''ponse'')) (Alt (lit (U ''Answer'')) (lit ([1573, 1580,
         1575, 1576, 1577]))), Star (In [Space]), lit (U '':''), Star (In [Space])],
        [])
     ]"

definition substitute_all :: "unicode \<Rightarrow> substitution list \<Rightarrow> ustring \<Rightarrow> ustring" where
  "substitute_all u subs answer =
     foldl (\<lambda>answer (fl, r, repl). re_sub u fl r repl answer) answer subs"

text \<open>No pattern of the list has a match in the text.\<close>

definition untouched :: "unicode \<Rightarrow> substitution list \<Rightarrow> ustring \<Rightarrow> bool" where
  "untouched u subs text = list_all (\<lambda>(fl, r, repl). \<not> re_search u fl r text) subs"

text \<open>
  The least number of characters that a match of a pattern takes.
\<close>

fun minlen :: "re \<Rightarrow> nat" where
  "minlen (Atom a) = 1"
| "minlen (Seq a b) = minlen a + minlen b"
| "minlen (Alt a b) = min (minlen a) (minlen b)"
| "minlen r = 0"

text \<open>
  The text is made of whole paragraphs: each has more than 20 characters and no
  whitespace around it, and what separates two paragraphs is one empty line and nothing
  more.
\<close>

definition whole_paragraphs :: "unicode \<Rightarrow> ustring \<Rightarrow> bool" where
  "whole_paragraphs u text =
     (let paragraphs = re_split u no_flags blank_line text
      in list_all (\<lambda>p. strip u p = p \<and> 20 < length p) paragraphs \<and>
         join (U ''\<newline>\<newline>'') paragraphs = text)"

text \<open>
  A text is already clean for a query when it has at least 10 characters, none of the
  patterns that the function removes or shortens has a match in it, none of the wrong
  terms occurs in it, it has no whitespace around it, and, if the query is not
  empty, it is made of whole paragraphs.
\<close>

definition already_clean :: "unicode \<Rightarrow> ustring \<Rightarrow> ustring \<Rightarrow> bool" where
  "already_clean u text query =
     (10 \<le> length text \<and>
      untouched u leak_substitutions text \<and>
      list_all (\<lambda>term. \<not> contains text term) incorrect_terms \<and>
      (query = [] \<or> whole_paragraphs u text) \<and>
      untouched u closing_substitutions text \<and>
      strip u text = text)"

section \<open>modules/chat.py\<close>

text \<open>
  A dictionary with string keys is the list of its items in the order of declaration.
  \<open>dict_get d k dflt\<close> is \<open>d.get(k, dflt)\<close>, and \<open>lookup d k\<close> is \<open>d[k]\<close>, which
  raises \<open>KeyError\<close> on a missing key.
\<close>

definition dict_get :: "(ustring \<times> 'v) list \<Rightarrow> ustring \<Rightarrow> 'v \<Rightarrow> 'v" where
  "dict_get d k dflt = (case map_of d k of None \<Rightarrow> dflt | Some v \<Rightarrow> v)"

definition lookup :: "(ustring \<times> 'v) list \<Rightarrow> ustring \<Rightarrow> error + 'v" where
  "lookup d k = (case map_of d k of None \<Rightarrow> Inl (KeyError k) | Some v \<Rightarrow> Inr v)"

definition HEALTH_KEYWORDS :: "(ustring \<times> ustring list) list" where
  "HEALTH_KEYWORDS =
     [(U ''fr'',
        [U ''cancer'', U ''sein'', U ''tumeur'', U ''mammaire'', U ''sant'' @ [233],
         U ''m'' @ [233] @ U ''decin'', U ''m'' @ [233] @ U ''dical'',
         U ''h'' @ [244] @ U ''pital'', U ''maladie'', U ''traitement'',
         U ''sympt'' @ [244] @ U ''me'', U ''douleur'', U ''d'' @ [233] @ U ''pistage'',
         U ''diagnostic'', U ''m'' @ [233] @ U ''dicament'', U ''chirurgie'',
         U ''th'' @ [233] @ U ''rapie'', U ''radioth'' @ [233] @ U ''rapie'',
         U ''chimioth'' @ [233] @ U ''rapie'', U ''b'' @ [233] @ U ''nin'', U ''malin'',
         U ''m'' @ [233] @ U ''tastase'', U ''cellule'', U ''biopsie'', U ''mammographie'',
         [233] @ U ''chographie'', U ''pr'' @ [233] @ U ''vention'', U ''risque'',
         U ''hormonal'', U ''r'' @ [233] @ U ''cidive'', U ''gu'' @ [233] @ U ''rison'',
         U ''consulter'']),
      (U ''en'',
        [U ''cancer'', U ''breast'', U ''tumor'', U ''health'', U ''doctor'', U ''medical'',
         U ''hospital'', U ''disease'', U ''treatment'', U ''symptom'', U ''pain'',
         U ''screening'', U ''diagnosis'', U ''medicine'', U ''surgery'', U ''therapy'',
         U ''radiotherapy'', U ''chemotherapy'', U ''benign'', U ''malignant'', U ''metastasis'',
         U ''cell'', U ''biopsy'', U ''mammography'', U ''ultrasound'', U ''prevention'',
         U ''risk'', U ''hormonal'', U ''recurrence'', U ''recovery'', U ''consult'']),
      (U ''ar'',
        [[1587, 1585, 1591, 1575, 1606], [1579, 1583, 1610], [1608, 1585, 1605],
         [1589, 1581, 1577], [1591, 1576, 1610, 1576], [1591, 1576, 1610],
         [1605, 1587, 1578, 1588, 1601, 1609], [1605, 1585, 1590], [1593, 1604, 1575, 1580],
         [1593, 1585, 1590], [1571, 1604, 1605], [1601, 1581, 1589],
         [1578, 1588, 1582, 1610, 1589], [1583, 1608, 1575, 1569],
         [1580, 1585, 1575, 1581, 1577], [1605, 1593, 1575, 1604, 1580, 1577],
         [1593, 1604, 1575, 1580] @ U '' '' @ [1573, 1588, 1593, 1575, 1593, 1610],
         [1593, 1604, 1575, 1580] @ U '' '' @ [1603, 1610, 1605, 1610, 1575, 1574, 1610],
         [1581, 1605, 1610, 1583], [1582, 1576, 1610, 1579], [1606, 1602, 1610, 1604, 1577],
         [1582, 1604, 1610, 1577], [1582, 1586, 1593, 1577],
         [1578, 1589, 1608, 1610, 1585] @ U '' '' @ [1575, 1604, 1579, 1583, 1610],
         [1578, 1589, 1608, 1610, 1585] @ U '' '' @ [1576, 1575, 1604, 1605, 1608, 1580, 1575, 1578] @ U '' '' @ [1601, 1608, 1602] @ U '' '' @ [1575, 1604, 1589, 1608, 1578, 1610, 1577],
         [1608, 1602, 1575, 1610, 1577], [1582, 1591, 1585],
         [1607, 1585, 1605, 1608, 1606, 1610], [1575, 1606, 1578, 1603, 1575, 1587],
         [1588, 1601, 1575, 1569], [1575, 1587, 1578, 1588, 1575, 1585, 1577]])]"

definition OFF_TOPIC_MESSAGES :: "(ustring \<times> ustring) list" where
  "OFF_TOPIC_MESSAGES =
     [(U ''fr'',
        U ''Je suis sp'' @ [233] @ U ''cialis'' @ [233] @
        U '' dans les questions relatives au cancer du sein et '' @ [224] @ U '' la sant'' @ [233] @
        U ''. Je ne peux pas r'' @ [233] @ U ''pondre '' @ [224] @
        U '' cette question qui semble en dehors de mon domaine d'expertise. Si vous'' @
        U '' avez des questions sur le cancer du sein, ses sympt'' @ [244] @
        U ''mes, traitements ou pr'' @ [233] @ U ''vention, je serai ravi de vous aider.''),
      (U ''en'',
        U ''I specialize in questions related to breast cancer and health. I cannot '' @
        U ''answer this question as it appears to be outside my area of expertise. I'' @
        U ''f you have questions about breast cancer, its symptoms, treatments, or p'' @
        U ''revention, I would be happy to help.''),
      (U ''ar'',
        [1571, 1606, 1575] @ U '' '' @ [1605, 1578, 1582, 1589, 1589] @ U '' '' @ [1601, 1610] @
        U '' '' @ [1575, 1604, 1571, 1587, 1574, 1604, 1577] @ U '' '' @
        [1575, 1604, 1605, 1578, 1593, 1604, 1602, 1577] @ U '' '' @
        [1576, 1587, 1585, 1591, 1575, 1606] @ U '' '' @ [1575, 1604, 1579, 1583, 1610] @ U '' '' @
        [1608, 1575, 1604, 1589, 1581, 1577] @ U ''. '' @ [1604, 1575] @ U '' '' @
        [1610, 1605, 1603, 1606, 1606, 1610] @ U '' '' @ [1575, 1604, 1573, 1580, 1575, 1576, 1577] @
        U '' '' @ [1593, 1604, 1609] @ U '' '' @ [1607, 1584, 1575] @ U '' '' @
        [1575, 1604, 1587, 1572, 1575, 1604] @ U '' '' @ [1604, 1571, 1606, 1607] @ U '' '' @
        [1610, 1576, 1583, 1608] @ U '' '' @ [1582, 1575, 1585, 1580] @ U '' '' @
        [1605, 1580, 1575, 1604] @ U '' '' @ [1582, 1576, 1585, 1578, 1610] @ U ''. '' @
        [1573, 1584, 1575] @ U '' '' @ [1603, 1575, 1606] @ U '' '' @ [1604, 1583, 1610, 1603] @
        U '' '' @ [1571, 1587, 1574, 1604, 1577] @ U '' '' @ [1581, 1608, 1604] @ U '' '' @
        [1587, 1585, 1591, 1575, 1606] @ U '' '' @ [1575, 1604, 1579, 1583, 1610] @ U '' '' @
        [1608, 1571, 1593, 1585, 1575, 1590, 1607] @ U '' '' @
        [1608, 1593, 1604, 1575, 1580, 1575, 1578, 1607] @ U '' '' @ [1571, 1608] @ U '' '' @
        [1575, 1604, 1608, 1602, 1575, 1610, 1577] @ U '' '' @ [1605, 1606, 1607, 1548] @ U '' '' @
        [1601, 1587, 1571, 1603, 1608, 1606] @ U '' '' @ [1587, 1593, 1610, 1583, 1611, 1575] @
        U '' '' @ [1576, 1605, 1587, 1575, 1593, 1583, 1578, 1603] @ U ''.'')]"

definition GREETINGS :: "(ustring \<times> ustring list) list" where
  "GREETINGS =
     [(U ''fr'',
        [U ''bonjour'', U ''salut'', U ''bonsoir'', U ''coucou'', U ''hello'']),
      (U ''en'',
        [U ''hi'', U ''hello'', U ''hey'', U ''good morning'', U ''good evening'']),
      (U ''ar'',
        [[1605, 1585, 1581, 1576, 1575], [1571, 1607, 1604, 1575],
         [1575, 1604, 1587, 1604, 1575, 1605] @ U '' '' @ [1593, 1604, 1610, 1603, 1605],
         [1575, 1604, 1587, 1604, 1575, 1605] @ U '' '' @ [1593, 1604, 1610, 1603, 1605] @ U '' '' @ [1608, 1585, 1581, 1605, 1577] @ U '' '' @ [1575, 1604, 1604, 1607]])]"

definition GREETING_RESPONSES :: "(ustring \<times> ustring) list" where
  "GREETING_RESPONSES =
     [(U ''fr'',
        U ''Bonjour ! Comment puis-je vous aider concernant le cancer du sein ?''),
      (U ''en'',
        U ''Hello! How can I assist you regarding breast cancer?''),
      (U ''ar'',
        [1605, 1585, 1581, 1576, 1611, 1575] @ U ''! '' @ [1603, 1610, 1601] @ U '' '' @
        [1610, 1605, 1603, 1606, 1606, 1610] @ U '' '' @ [1605, 1587, 1575, 1593, 1583, 1578, 1603] @
        U '' '' @ [1576, 1588, 1571, 1606] @ U '' '' @ [1587, 1585, 1591, 1575, 1606] @ U '' '' @
        [1575, 1604, 1579, 1583, 1610, 1567])]"

text \<open>
  \<open>clean_text\<close>: every character is removed that is neither a word character nor
  whitespace nor in the Arabic block U+0600 to U+06FF.
\<close>

definition clean_text :: "unicode \<Rightarrow> ustring \<Rightarrow> ustring" where
  "clean_text u text =
     strip u (re_sub u no_flags (Atom (NotIn [Word, Space, Range 1536 1791])) [] (lower u text))"

text \<open>
  \<open>detect_greeting_language\<close>: the languages are tried in the order of the dictionary,
  and the first one with a greeting that starts the cleaned text is returned.
\<close>

definition detect_greeting_language :: "unicode \<Rightarrow> ustring \<Rightarrow> ustring option" where
  "detect_greeting_language u text =
     (let cleaned = clean_text u text
      in map_option fst
           (find (\<lambda>(lang, greets). list_ex (\<lambda>g. startswith cleaned g) greets) GREETINGS))"

text \<open>
  \<open>is_health_related\<close>. The keys \<open>fr\<close> and \<open>en\<close> of the second loop are in the
  dictionary, so its indexing cannot raise; the model reads it with \<open>dict_get\<close>.
\<close>

definition is_health_related :: "unicode \<Rightarrow> ustring \<Rightarrow> ustring \<Rightarrow> bool" where
  "is_health_related u text language =
     (let txt = lower u text
      in if any_in (dict_get HEALTH_KEYWORDS language (dict_get HEALTH_KEYWORDS (U ''fr'') [])) txt
         then True
         else list_ex (\<lambda>lang. lang \<noteq> language \<and> any_in (dict_get HEALTH_KEYWORDS lang []) txt)
                [U ''fr'', U ''en''])"

text \<open>
  \<open>get_llama_response\<close>. \<open>langdetect\<close> is the language detector at this call and
  \<open>llama\<close> the external generator with its fixed decoding parameters: it returns the
  text \<open>resp["choices"][0]["text"]\<close>, or the exception raised by the call or by reading
  the response. The result is the answer and the effects: the stages run, in order,
  and what is shown on the page.
\<close>

definition error_text :: "error \<Rightarrow> ustring" where
  "error_text e =
     (case e of
        ValueError m \<Rightarrow> m
      | KeyError k \<Rightarrow> [39] @ k @ [39]
      | IndexError \<Rightarrow> U ''list index out of range''
      | RuntimeError m \<Rightarrow> m
      | GenerationError m \<Rightarrow> m)"

definition get_llama_response ::
  "unicode \<Rightarrow> (ustring \<Rightarrow> ustring option) \<Rightarrow> (ustring \<Rightarrow> error + ustring) \<Rightarrow> ustring \<Rightarrow> ustring \<Rightarrow>
   ustring \<times> effect list" where
  "get_llama_response u langdetect llama query knowledge_base =
     (let language = detect_language langdetect query
      in if \<not> is_health_related u query language then
           (dict_get OFF_TOPIC_MESSAGES language (dict_get OFF_TOPIC_MESSAGES (U ''fr'') []), [])
         else
           let know = extract_relevant_knowledge u query knowledge_base language;
               prompt = generate_llama_prompt u query language know True;
               too_long = (length prompt > 100000);
               prompt = (if too_long
                         then generate_llama_prompt u query language (take 2000 know @ [8230]) True
                         else prompt);
               before = [Ran Knowledge_retrieval, Ran Prompt_building] @
                        (if too_long
                         then [Show (Warning (U ''Prompt trop long, troncature'' @ [8230])), Ran Prompt_building]
                         else []) @
                        [Ran (Generation prompt)];
               failed = (\<lambda>e. (get_fallback_response u query language,
                               before @ [Show (Error (U ''Erreur g'' @ [233] @ U ''n'' @ [233] @ U ''ration LLaMA: '' @ error_text e))]))
           in case llama prompt of
                Inl e \<Rightarrow> failed e
              | Inr completion \<Rightarrow>
                  (let text = strip u completion
                   in if text = [] \<or> length text < 10 then
                        (get_fallback_response u query language, before)
                      else
                        (case clean_llama_response u text query of
                           Inl e \<Rightarrow> failed e
                         | Inr cleaned \<Rightarrow> (cleaned, before))))"

text \<open>\<open>get_fallback_responses\<close>\<close>

definition fallback_responses :: "(ustring \<times> (ustring \<times> ustring) list) list" where
  "fallback_responses =
     [(U ''fr'',
        [(U ''cancer_info'',
           U ''Le cancer du sein est une maladie o'' @ [249] @
           U '' les cellules mammaires se multiplient de fa'' @ [231] @ U ''on anormale. Un d'' @ [233] @
           U ''pistage pr'' @ [233] @ U ''coce augmente significativement les chances de gu'' @ [233] @
           U ''rison.''),
         (U ''benign_info'',
           U ''Une tumeur b'' @ [233] @ U ''nigne n'est pas canc'' @ [233] @
           U ''reuse. Elle ne se propage pas aux tissus environnants et n'est g'' @ [233] @ U ''n'' @
           [233] @ U ''ralement pas dangereuse pour la sant'' @ [233] @ U ''.''),
         (U ''malignant_info'',
           U ''Une tumeur maligne est canc'' @ [233] @
           U ''reuse et peut envahir les tissus environnants. Un traitement m'' @ [233] @
           U ''dical rapide est essentiel.''),
         (U ''treatment'',
           U ''Les traitements courants du cancer du sein incluent la chirurgie, la rad'' @ U ''ioth'' @
           [233] @ U ''rapie, la chimioth'' @ [233] @ U ''rapie, l'hormonoth'' @ [233] @
           U ''rapie et les th'' @ [233] @ U ''rapies cibl'' @ [233] @ U ''es.''),
         (U ''default'',
           U ''Je n'ai pas d'information sp'' @ [233] @
           U ''cifique sur ce sujet. Consultez un professionnel de sant'' @ [233] @
           U '' pour des conseils m'' @ [233] @ U ''dicaux personnalis'' @ [233] @ U ''s.'')]),
      (U ''en'',
        [(U ''cancer_info'',
           U ''Breast cancer is a disease where breast cells multiply abnormally. Early'' @
           U '' detection significantly increases chances of recovery.''),
         (U ''benign_info'',
           U ''A benign tumor is not cancerous. It does not spread to surrounding tissu'' @
           U ''es and is generally not dangerous to health.''),
         (U ''malignant_info'',
           U ''A malignant tumor is cancerous and can invade surrounding tissues. Promp'' @
           U ''t medical treatment is essential.''),
         (U ''treatment'',
           U ''Common breast cancer treatments include surgery, radiation therapy, chem'' @
           U ''otherapy, hormone therapy, and targeted therapies.''),
         (U ''default'',
           U ''I don't have specific information on this topic. Please consult a health'' @
           U ''care professional for personalized medical advice.'')]),
      (U ''ar'',
        [(U ''cancer_info'',
           [1587, 1585, 1591, 1575, 1606] @ U '' '' @ [1575, 1604, 1579, 1583, 1610] @ U '' '' @
           [1607, 1608] @ U '' '' @ [1605, 1585, 1590] @ U '' '' @ [1578, 1578, 1603, 1575, 1579, 1585] @
           U '' '' @ [1601, 1610, 1607] @ U '' '' @ [1582, 1604, 1575, 1610, 1575] @ U '' '' @
           [1575, 1604, 1579, 1583, 1610] @ U '' '' @ [1576, 1588, 1603, 1604] @ U '' '' @
           [1594, 1610, 1585] @ U '' '' @ [1591, 1576, 1610, 1593, 1610] @ U ''. '' @
           [1610, 1586, 1610, 1583] @ U '' '' @ [1575, 1604, 1603, 1588, 1601] @ U '' '' @
           [1575, 1604, 1605, 1576, 1603, 1585] @ U '' '' @ [1576, 1588, 1603, 1604] @ U '' '' @
           [1603, 1576, 1610, 1585] @ U '' '' @ [1605, 1606] @ U '' '' @ [1601, 1585, 1589] @ U '' '' @
           [1575, 1604, 1588, 1601, 1575, 1569] @ U ''.''),
         (U ''benign_info'',
           [1575, 1604, 1608, 1585, 1605] @ U '' '' @ [1575, 1604, 1581, 1605, 1610, 1583] @ U '' '' @
           [1604, 1610, 1587] @ U '' '' @ [1587, 1585, 1591, 1575, 1606, 1610, 1611, 1575] @ U ''. '' @
           [1604, 1575] @ U '' '' @ [1610, 1606, 1578, 1588, 1585] @ U '' '' @ [1573, 1604, 1609] @
           U '' '' @ [1575, 1604, 1571, 1606, 1587, 1580, 1577] @ U '' '' @
           [1575, 1604, 1605, 1581, 1610, 1591, 1577] @ U '' '' @ [1608, 1593, 1575, 1583, 1577] @
           U '' '' @ [1604, 1575] @ U '' '' @ [1610, 1588, 1603, 1604] @ U '' '' @
           [1582, 1591, 1585, 1611, 1575] @ U '' '' @ [1593, 1604, 1609] @ U '' '' @
           [1575, 1604, 1589, 1581, 1577] @ U ''.''),
         (U ''malignant_info'',
           [1575, 1604, 1608, 1585, 1605] @ U '' '' @ [1575, 1604, 1582, 1576, 1610, 1579] @ U '' '' @
           [1587, 1585, 1591, 1575, 1606, 1610] @ U '' '' @ [1608, 1610, 1605, 1603, 1606] @ U '' '' @
           [1571, 1606] @ U '' '' @ [1610, 1594, 1586, 1608] @ U '' '' @
           [1575, 1604, 1571, 1606, 1587, 1580, 1577] @ U '' '' @
           [1575, 1604, 1605, 1581, 1610, 1591, 1577] @ U ''. '' @ [1575, 1604, 1593, 1604, 1575, 1580] @
           U '' '' @ [1575, 1604, 1591, 1576, 1610] @ U '' '' @ [1575, 1604, 1587, 1585, 1610, 1593] @
           U '' '' @ [1590, 1585, 1608, 1585, 1610] @ U ''.''),
         (U ''treatment'',
           [1578, 1588, 1605, 1604] @ U '' '' @ [1593, 1604, 1575, 1580, 1575, 1578] @ U '' '' @
           [1587, 1585, 1591, 1575, 1606] @ U '' '' @ [1575, 1604, 1579, 1583, 1610] @ U '' '' @
           [1575, 1604, 1588, 1575, 1574, 1593, 1577] @ U '' '' @
           [1575, 1604, 1580, 1585, 1575, 1581, 1577] @ U '' '' @
           [1608, 1575, 1604, 1593, 1604, 1575, 1580] @ U '' '' @
           [1575, 1604, 1573, 1588, 1593, 1575, 1593, 1610] @ U '' '' @
           [1608, 1575, 1604, 1593, 1604, 1575, 1580] @ U '' '' @
           [1575, 1604, 1603, 1610, 1605, 1610, 1575, 1574, 1610] @ U '' '' @
           [1608, 1575, 1604, 1593, 1604, 1575, 1580] @ U '' '' @
           [1575, 1604, 1607, 1585, 1605, 1608, 1606, 1610] @ U '' '' @
           [1608, 1575, 1604, 1593, 1604, 1575, 1580, 1575, 1578] @ U '' '' @
           [1575, 1604, 1605, 1587, 1578, 1607, 1583, 1601, 1577] @ U ''.''),
         (U ''default'',
           [1604, 1610, 1587] @ U '' '' @ [1604, 1583, 1610] @ U '' '' @
           [1605, 1593, 1604, 1608, 1605, 1575, 1578] @ U '' '' @ [1605, 1581, 1583, 1583, 1577] @
           U '' '' @ [1581, 1608, 1604] @ U '' '' @ [1607, 1584, 1575] @ U '' '' @
           [1575, 1604, 1605, 1608, 1590, 1608, 1593] @ U ''. '' @ [1610, 1585, 1580, 1609] @ U '' '' @
           [1575, 1587, 1578, 1588, 1575, 1585, 1577] @ U '' '' @ [1571, 1582, 1589, 1575, 1574, 1610] @
           U '' '' @ [1585, 1593, 1575, 1610, 1577] @ U '' '' @ [1589, 1581, 1610, 1577] @ U '' '' @
           [1604, 1604, 1581, 1589, 1608, 1604] @ U '' '' @ [1593, 1604, 1609] @ U '' '' @
           [1606, 1589, 1575, 1574, 1581] @ U '' '' @ [1591, 1576, 1610, 1577] @ U '' '' @
           [1605, 1582, 1589, 1589, 1577] @ U ''.'')])]"

definition get_fallback_responses :: "unicode \<Rightarrow> ustring \<Rightarrow> ustring \<Rightarrow> error + ustring" where
  "get_fallback_responses u query language =
     (let language = (if language \<notin> set (map fst fallback_responses) then U ''fr'' else language);
          query_lower = lower u query;
          category =
          (if any_in [U ''cancer'', U ''sein'', U ''mammaire'', U ''breast'', [1587, 1585, 1591, 1575, 1606],
                   [1579, 1583, 1610]] query_lower then U ''cancer_info''
           else if any_in [U ''b'' @ [233] @ U ''nin'', U ''benin'', U ''b'' @ [233] @ U ''nigne'', U ''benign'',
                   [1581, 1605, 1610, 1583]] query_lower then U ''benign_info''
           else if any_in [U ''malin'', U ''maligne'', U ''malignes'', U ''malignant'', [1582, 1576, 1610, 1579]] query_lower then U ''malignant_info''
           else if any_in [U ''traitement'', U ''soigner'', U ''gu'' @ [233] @ U ''rir'',
                   U ''gu'' @ [233] @ U ''rison'', U ''treatment'', U ''therapy'', [1593, 1604, 1575, 1580]] query_lower then U ''treatment''
           else U ''default'')
      in case lookup fallback_responses language of
           Inl e \<Rightarrow> Inl e
         | Inr by_category \<Rightarrow> lookup by_category category)"

text \<open>
  \<open>get_bot_response\<close>. \<open>langdetect\<close> is the detector at the call made here and
  \<open>langdetect'\<close> at the later call inside \<open>get_llama_response\<close>; \<open>llama_model\<close> is
  \<open>None\<close> when the generator could not be loaded, and \<open>condition\<close> is the argument
  \<open>detected_condition\<close>.
\<close>

definition benign_image_message :: "(ustring \<times> ustring) list" where
  "benign_image_message =
     [(U ''fr'',
        U ''D'apr'' @ [232] @ U ''s l'analyse de votre image, une tumeur b'' @ [233] @
        U ''nigne a '' @ [233] @ U ''t'' @ [233] @ U '' d'' @ [233] @ U ''tect'' @ [233] @
        U ''e. Les tumeurs b'' @ [233] @ U ''nignes ne sont g'' @ [233] @ U ''n'' @ [233] @
        U ''ralement pas canc'' @ [233] @ U ''reuses, mais un suivi m'' @ [233] @
        U ''dical est recommand'' @ [233] @ U ''.''),
      (U ''en'',
        U ''Based on the analysis of your image, a benign tumor has been detected. B'' @
        U ''enign tumors are generally not cancerous, but medical follow-up is recom'' @
        U ''mended.''),
      (U ''ar'',
        [1576, 1606, 1575, 1569, 1611] @ U '' '' @ [1593, 1604, 1609] @ U '' '' @
        [1578, 1581, 1604, 1610, 1604] @ U '' '' @ [1589, 1608, 1585, 1578, 1603, 1548] @ U '' '' @
        [1578, 1605] @ U '' '' @ [1575, 1603, 1578, 1588, 1575, 1601] @ U '' '' @ [1608, 1585, 1605] @
        U '' '' @ [1581, 1605, 1610, 1583] @ U ''. '' @ [1575, 1604, 1571, 1608, 1585, 1575, 1605] @
        U '' '' @ [1575, 1604, 1581, 1605, 1610, 1583, 1577] @ U '' '' @ [1604, 1610, 1587, 1578] @
        U '' '' @ [1587, 1585, 1591, 1575, 1606, 1610, 1577] @ U '' '' @
        [1593, 1605, 1608, 1605, 1611, 1575, 1548] @ U '' '' @ [1608, 1604, 1603, 1606] @ U '' '' @
        [1610, 1608, 1589, 1609] @ U '' '' @ [1576, 1575, 1604, 1605, 1578, 1575, 1576, 1593, 1577] @
        U '' '' @ [1575, 1604, 1591, 1576, 1610, 1577] @ U ''.'')]"

definition malignant_image_message :: "(ustring \<times> ustring) list" where
  "malignant_image_message =
     [(U ''fr'',
        U ''D'apr'' @ [232] @ U ''s l'analyse de votre image, une tumeur maligne a '' @ [233] @
        U ''t'' @ [233] @ U '' d'' @ [233] @ U ''tect'' @ [233] @ U ''e. Veuillez consulter un m'' @
        [233] @ U ''decin d'' @ [232] @ U ''s que possible pour une '' @ [233] @
        U ''valuation professionnelle.''),
      (U ''en'',
        U ''Based on the analysis of your image, a malignant tumor has been detected'' @
        U ''. Please consult a doctor as soon as possible for a professional evaluat'' @ U ''ion.''),
      (U ''ar'',
        [1576, 1606, 1575, 1569, 1611] @ U '' '' @ [1593, 1604, 1609] @ U '' '' @
        [1578, 1581, 1604, 1610, 1604] @ U '' '' @ [1589, 1608, 1585, 1578, 1603, 1548] @ U '' '' @
        [1578, 1605] @ U '' '' @ [1575, 1603, 1578, 1588, 1575, 1601] @ U '' '' @ [1608, 1585, 1605] @
        U '' '' @ [1582, 1576, 1610, 1579] @ U ''. '' @ [1610, 1585, 1580, 1609] @ U '' '' @
        [1575, 1587, 1578, 1588, 1575, 1585, 1577] @ U '' '' @ [1575, 1604, 1591, 1576, 1610, 1576] @
        U '' '' @ [1601, 1610] @ U '' '' @ [1571, 1602, 1585, 1576] @ U '' '' @ [1608, 1602, 1578] @
        U '' '' @ [1605, 1605, 1603, 1606] @ U '' '' @ [1604, 1604, 1581, 1589, 1608, 1604] @
        U '' '' @ [1593, 1604, 1609] @ U '' '' @ [1578, 1602, 1610, 1610, 1605] @ U '' '' @
        [1605, 1607, 1606, 1610] @ U ''.'')]"

definition get_bot_response ::
  "unicode \<Rightarrow> (ustring \<Rightarrow> ustring option) \<Rightarrow> (ustring \<Rightarrow> ustring option) \<Rightarrow>
   (ustring \<Rightarrow> error + ustring) option \<Rightarrow> ustring \<Rightarrow> ustring \<Rightarrow> ustring option \<Rightarrow>
   error option \<times> ustring \<times> effect list" where
  "get_bot_response u langdetect langdetect' llama_model question knowledge_base condition =
     (case detect_greeting_language u question of
        Some greeting_lang \<Rightarrow>
          (None, dict_get GREETING_RESPONSES greeting_lang (dict_get GREETING_RESPONSES (U ''fr'') []), [])
      | None \<Rightarrow>
          (let language = detect_language langdetect question
           in if \<not> is_health_related u question language then
                (None, dict_get OFF_TOPIC_MESSAGES language (dict_get OFF_TOPIC_MESSAGES (U ''fr'') []), [])
              else if condition = Some (U ''normal'') then
                (None, dict_get benign_image_message language
                         (U ''D'apr'' @ [232] @ U ''s l'analyse de votre image, une tumeur b'' @ [233] @
                          U ''nigne a '' @ [233] @ U ''t'' @ [233] @ U '' d'' @ [233] @ U ''tect'' @ [233] @
                          U ''e. Les tumeurs b'' @ [233] @ U ''nignes ne sont g'' @ [233] @ U ''n'' @ [233] @
                          U ''ralement pas canc'' @ [233] @ U ''reuses, mais un suivi m'' @ [233] @
                          U ''dical est recommand'' @ [233] @ U ''.''), [])
              else if condition = Some (U ''cancer'') then
                (None, dict_get malignant_image_message language
                         (U ''D'apr'' @ [232] @ U ''s l'analyse de votre image, une tumeur maligne a '' @ [233] @
                          U ''t'' @ [233] @ U '' d'' @ [233] @ U ''tect'' @ [233] @ U ''e. Veuillez consulter un m'' @
                          [233] @ U ''decin d'' @ [232] @ U ''s que possible pour une '' @ [233] @
                          U ''valuation professionnelle.''), [])
              else
                (case llama_model of
                   Some llama \<Rightarrow>
                     (case get_llama_response u langdetect' llama question knowledge_base of
                        (response, out) \<Rightarrow> (None, response, out))
                 | None \<Rightarrow>
                     (case get_fallback_responses u question language of
                        Inl e \<Rightarrow> (Some e, [], [])
                      | Inr response \<Rightarrow> (None, response, [])))))"

section \<open>app.py: one message of the conversation\<close>

text \<open>
  The helpers \<open>on_message_received\<close> and \<open>on_error_occurred\<close> of
  \<open>modules/callbacks.py\<close>; \<open>strftime\<close> is the text of the current time.
\<close>

definition on_message_received ::
  "(nat \<Rightarrow> real) \<Rightarrow> ustring \<Rightarrow> app_state \<Rightarrow> ustring \<Rightarrow> ustring \<Rightarrow> ustring \<Rightarrow>
   error option \<times> app_state" where
  "on_message_received clock strftime s user_message bot_response detected_language =
     emit clock s (U ''on_message'')
       [(''user_message'', VStr user_message),
        (''bot_response'', VStr bot_response),
        (''detected_language'', VStr detected_language),
        (''timestamp'', VStr strftime)]"

definition on_error_occurred ::
  "(nat \<Rightarrow> real) \<Rightarrow> ustring \<Rightarrow> app_state \<Rightarrow> ustring \<Rightarrow> ustring \<Rightarrow> ustring \<Rightarrow>
   error option \<times> app_state" where
  "on_error_occurred clock strftime s error_type error_message module_name =
     emit clock s (U ''on_error'')
       [(''error_type'', VStr error_type),
        (''error_message'', VStr error_message),
        (''module'', VStr module_name),
        (''timestamp'', VStr strftime)]"

text \<open>
  The handling of a submitted message in \<open>chat_section\<close> (lines 218 to 281).
  \<open>langdetect n\<close> is the language detector at its \<open>n\<close>-th call of the run and
  \<open>format_exc\<close> the text of a traceback. The streaming handler is an object of the
  top-level module \<open>utils\<close>, which is not among the sources: \<open>register_callback\<close> is
  the outcome of its method of that name at line 235, \<open>None\<close> when the call returns
  and the exception when it raises. The call stands before the \<open>try\<close>, so an exception
  of it leaves \<open>chat_section\<close> with the user's message already appended. The first
  call of \<open>get_bot_response\<close> passes a keyword \<open>streaming_callback\<close> that the function
  does not have, so it raises \<open>TypeError\<close> before doing anything and the second call is
  the one that answers; the warning logged in between is below the level of the logger.
  The text on the page accumulates what \<open>update_response\<close> receives. The final rerun of
  the page is not modelled.
\<close>

definition recover ::
  "unicode \<Rightarrow> (nat \<Rightarrow> real) \<Rightarrow> ustring \<Rightarrow> (error \<Rightarrow> ustring) \<Rightarrow> ustring \<Rightarrow> ustring \<Rightarrow> ustring \<Rightarrow>
   error \<Rightarrow> app_state \<Rightarrow> error option \<times> app_state" where
  "recover u clock strftime format_exc user_input detected_language current_response e s =
     (let s = s\<lparr>effects := effects s @
                  [Log ERROR (U ''Erreur lors de la g'' @ [233] @ U ''n'' @ [233] @
                              U ''ration de la r'' @ [233] @ U ''ponse: '' @ error_text e),
                   Log ERROR (format_exc e)]\<rparr>;
          response = get_fallback_response u user_input detected_language;
          s = show_ui s (Markdown (current_response @ response))
      in case on_error_occurred clock strftime s (U ''response_generation_error'') (error_text e)
                (U ''chat'') of
           (Some e', s) \<Rightarrow> (Some e', s)
         | (None, s) \<Rightarrow> (None, s\<lparr>messages := messages s @ [(U ''assistant'', response)]\<rparr>))"

definition submit_message ::
  "unicode \<Rightarrow> (nat \<Rightarrow> real) \<Rightarrow> ustring \<Rightarrow> (error \<Rightarrow> ustring) \<Rightarrow> (nat \<Rightarrow> ustring \<Rightarrow> ustring option) \<Rightarrow>
   error option \<Rightarrow> (ustring \<Rightarrow> error + ustring) option \<Rightarrow> ustring \<Rightarrow> ustring \<Rightarrow> app_state \<Rightarrow>
   error option \<times> app_state" where
  "submit_message u clock strftime format_exc langdetect register_callback llama_model
     knowledge_base user_input s =
     (if user_input = [] then (None, s)
      else
        let s = s\<lparr>messages := messages s @ [(U ''user'', user_input)]\<rparr>
        in case register_callback of
             Some e \<Rightarrow> (Some e, s)
           | None \<Rightarrow>
               (let detected_language = detect_language (langdetect 0) user_input
                in case get_bot_response u (langdetect 1) (langdetect 2) llama_model user_input
                          knowledge_base (detected_condition s) of
                     (Some e, response, out) \<Rightarrow>
                       recover u clock strftime format_exc user_input detected_language []
                         e (s\<lparr>effects := effects s @ out\<rparr>)
                   | (None, response, out) \<Rightarrow>
                       (let s = s\<lparr>effects := effects s @ out\<rparr>;
                            s = show_ui s (Markdown response)
                        in case on_message_received clock strftime s user_input response
                                  detected_language of
                             (Some e, s) \<Rightarrow>
                               recover u clock strftime format_exc user_input detected_language
                                 response e s
                           | (None, s) \<Rightarrow>
                               (None, s\<lparr>messages := messages s @ [(U ''assistant'', response)]\<rparr>))))"

text \<open>
  The answer of \<open>get_fallback_response\<close> to a French question about treatment.
\<close>

definition french_treatment_fallback :: ustring where
  "french_treatment_fallback =
     U ''Les traitements du cancer du sein peuvent inclure la chirurgie (tumorect'' @
        U ''omie ou mastectomie), la radioth'' @ [233] @ U ''rapie, la chimioth'' @ [233] @
        U ''rapie, l'hormonoth'' @ [233] @ U ''rapie et les th'' @ [233] @ U ''rapies cibl'' @ [233] @
        U ''es. Le plan de traitement est personnalis'' @ [233] @
        U '' en fonction du stade du cancer, de son type et des caract'' @ [233] @
        U ''ristiques de la patiente.''"

section \<open>Properties of the callback manager\<close>

lemma U_inj [simp]: "U a = U b \<longleftrightarrow> a = b"
proof -
  have "inj (of_char :: char \<Rightarrow> nat)"
    by (rule inj_on_inverseI [where g = char_of]) simp
  then show ?thesis
    unfolding U_def by (simp add: inj_map_eq_map)
qed

lemma well_formed_init: "well_formed (fst CallbackManager_init)"
  by (auto simp: well_formed_def CallbackManager_init_def CALLBACK_TYPES_def
      dom_map_of_conv_image_fst)

lemma well_formed_lookup:
  "well_formed m \<Longrightarrow> k \<in> set CALLBACK_TYPES \<Longrightarrow> \<exists>cs. callbacks m k = Some cs"
  unfolding well_formed_def by (metis domD)

lemma well_formed_register:
  assumes "well_formed m"
  shows "well_formed (apply_operation m (Register k cb))"
proof (cases "k \<in> set CALLBACK_TYPES")
  case True
  then obtain cs where "callbacks m k = Some cs"
    using assms well_formed_lookup by blast
  with True assms show ?thesis
    by (auto simp: register_def well_formed_def)
next
  case False
  with assms show ?thesis by (simp add: register_def)
qed

lemma well_formed_trigger:
  assumes "well_formed m"
  shows "well_formed (apply_operation m (Trigger now k kw))"
proof (cases "k \<in> set CALLBACK_TYPES")
  case True
  then obtain cs where "callbacks m k = Some cs"
    using assms well_formed_lookup by blast
  with True assms show ?thesis
    by (auto simp: trigger_def well_formed_def Let_def slice_last_def)
next
  case False
  with assms show ?thesis by (simp add: trigger_def)
qed

lemma well_formed_apply_operation:
  "well_formed m \<Longrightarrow> well_formed (apply_operation m op)"
proof (cases op)
  case (Register k cb)
  assume "well_formed m"
  with Register show ?thesis by (simp only: well_formed_register)
next
  case (Trigger now k kw)
  assume "well_formed m"
  with Trigger show ?thesis by (simp only: well_formed_trigger)
next
  case (SaveHistory p f)
  assume "well_formed m"
  with SaveHistory show ?thesis
    by (simp add: save_history_def well_formed_def split: option.splits)
next
  case ClearHistory
  assume "well_formed m"
  with ClearHistory show ?thesis
    by (simp add: clear_history_def well_formed_def)
qed

lemma well_formed_foldl:
  "well_formed m \<Longrightarrow> well_formed (foldl apply_operation m ops)"
  by (induction ops arbitrary: m) (simp_all add: well_formed_apply_operation)

lemma well_formed_run_operations: "well_formed (run_operations ops)"
  unfolding run_operations_def by (rule well_formed_foldl [OF well_formed_init])

lemma trigger_history:
  assumes "well_formed m" "k \<in> set CALLBACK_TYPES"
  shows "history (fst (snd (trigger m now k kw))) =
         (if length (history m) < 100 then history m else tl (history m)) @
         [\<lparr>ev_type = k, ev_timestamp = now, ev_data = kw\<rparr>]"
proof -
  obtain cs where cs: "callbacks m k = Some cs"
    using assms well_formed_lookup by blast
  have len: "length (history m) \<le> 100" and mx: "max_history m = 100"
    using assms(1) by (simp_all add: well_formed_def)
  show ?thesis
  proof (cases "length (history m) < 100")
    case True
    with cs mx assms(2) show ?thesis
      by (simp add: trigger_def Let_def)
  next
    case False
    with len have full: "length (history m) = 100" by simp
    then have "history m \<noteq> []" by auto
    then have "drop 1 (history m @ [e]) = tl (history m) @ [e]" for e
      by (cases "history m") simp_all
    with cs mx assms(2) full show ?thesis
      by (simp add: trigger_def Let_def slice_last_def)
  qed
qed

text \<open>
  C5. The history of a manager never holds more than 100 events: whatever sequence of
  register, trigger, save_history and clear_history calls follows the constructor, and
  after any single operation on a manager in such a state. A trigger of a known kind
  appends its event at the end and, when the history is full, drops the oldest one.
\<close>

theorem history_never_exceeds_100:
  "length (history (run_operations ops)) \<le> 100 \<and>
   (well_formed m \<longrightarrow>
      well_formed (apply_operation m op) \<and> length (history (apply_operation m op)) \<le> 100) \<and>
   (well_formed m \<and> k \<in> set CALLBACK_TYPES \<longrightarrow>
      history (apply_operation m (Trigger now k kw)) =
        (if length (history m) < 100 then history m else tl (history m)) @
        [\<lparr>ev_type = k, ev_timestamp = now, ev_data = kw\<rparr>])"
proof (intro conjI impI)
  show "length (history (run_operations ops)) \<le> 100"
    using well_formed_run_operations [of ops] by (simp add: well_formed_def)
next
  assume "well_formed m"
  then show "well_formed (apply_operation m op)"
    by (rule well_formed_apply_operation)
  then show "length (history (apply_operation m op)) \<le> 100"
    by (simp add: well_formed_def)
next
  assume "well_formed m \<and> k \<in> set CALLBACK_TYPES"
  then show "history (apply_operation m (Trigger now k kw)) =
        (if length (history m) < 100 then history m else tl (history m)) @
        [\<lparr>ev_type = k, ev_timestamp = now, ev_data = kw\<rparr>]"
    by (simp add: trigger_history)
qed

theorem history_never_exceeds_100_witness:
  "well_formed \<lparr>callbacks = callbacks (fst CallbackManager_init),
                history = replicate 100 \<lparr>ev_type = U ''on_startup'', ev_timestamp = 1, ev_data = []\<rparr>,
                max_history = 100\<rparr> \<and>
   U ''on_message'' \<in> set CALLBACK_TYPES \<and>
   history (apply_operation
       \<lparr>callbacks = callbacks (fst CallbackManager_init),
        history = replicate 100 \<lparr>ev_type = U ''on_startup'', ev_timestamp = 1, ev_data = []\<rparr>,
        max_history = 100\<rparr>
       (Trigger 2 (U ''on_message'') [])) =
     replicate 99 \<lparr>ev_type = U ''on_startup'', ev_timestamp = 1, ev_data = []\<rparr> @
     [\<lparr>ev_type = U ''on_message'', ev_timestamp = 2, ev_data = []\<rparr>] \<and>
   length (history (apply_operation
       \<lparr>callbacks = callbacks (fst CallbackManager_init),
        history = replicate 100 \<lparr>ev_type = U ''on_startup'', ev_timestamp = 1, ev_data = []\<rparr>,
        max_history = 100\<rparr>
       (Trigger 2 (U ''on_message'') []))) \<le> 100"
proof -
  let ?e = "\<lparr>ev_type = U ''on_startup'', ev_timestamp = 1, ev_data = []\<rparr>"
  let ?m = "\<lparr>callbacks = callbacks (fst CallbackManager_init),
             history = replicate 100 ?e, max_history = 100\<rparr>"
  have wf: "well_formed ?m"
    using well_formed_init by (simp add: well_formed_def)
  have k: "U ''on_message'' \<in> set CALLBACK_TYPES"
    by (simp add: CALLBACK_TYPES_def)
  have tl: "tl (replicate 100 ?e) = replicate 99 ?e"
    by (simp add: tl_replicate)
  from history_never_exceeds_100
    [of "[]" ?m "Trigger 2 (U ''on_message'') []" "U ''on_message''" 2 "[]"] wf k tl
  show ?thesis by simp
qed

text \<open>
  C8. On a manager built by the constructor, register raises the invalid-kind error
  exactly when the kind is not one of the fixed kinds, and otherwise appends the
  subscriber to the kind's list and raises nothing. trigger with an unknown kind only
  logs a warning: it raises nothing, calls no subscriber, and returns the manager,
  history included, as it was.
\<close>

theorem register_and_trigger_unknown_kind:
  "well_formed m \<Longrightarrow>
   ((\<exists>msg. fst (register m k cb) = Some (ValueError msg)) \<longleftrightarrow> k \<notin> set CALLBACK_TYPES) \<and>
   (if k \<notin> set CALLBACK_TYPES then
      fst (snd (register m k cb)) = m \<and>
      (\<exists>msg. trigger m now k kw = (None, m, [Log WARNING msg]))
    else
      (\<exists>cs msg. callbacks m k = Some cs \<and>
         register m k cb =
           (None, m\<lparr>callbacks := (callbacks m)(k \<mapsto> cs @ [cb])\<rparr>, [Log DEBUG msg])))"
proof (cases "k \<in> set CALLBACK_TYPES")
  case True
  assume "well_formed m"
  with True obtain cs where "callbacks m k = Some cs"
    using well_formed_lookup by blast
  with True show ?thesis
    by (simp add: register_def)
next
  case False
  then show ?thesis
    by (simp add: register_def trigger_def)
qed

theorem register_and_trigger_unknown_kind_witness:
  "well_formed (fst CallbackManager_init) \<and>
   U ''on_analysis_complete'' \<notin> set CALLBACK_TYPES \<and>
   (\<exists>msg. fst (register (fst CallbackManager_init) (U ''on_analysis_complete'') (\<lambda>kw. None)) =
      Some (ValueError msg)) \<and>
   (\<exists>msg. trigger (fst CallbackManager_init) 0 (U ''on_analysis_complete'') [] =
      (None, fst CallbackManager_init, [Log WARNING msg]))"
proof -
  have k: "U ''on_analysis_complete'' \<notin> set CALLBACK_TYPES"
    by (simp add: CALLBACK_TYPES_def)
  from register_and_trigger_unknown_kind
    [OF well_formed_init, of "U ''on_analysis_complete''" "\<lambda>kw. None" 0 "[]"] k well_formed_init
  show ?thesis by simp
qed

section \<open>Properties of the detection adapter\<close>

lemma argmax_from_first_max:
  "first_max pre best \<Longrightarrow> i = length pre \<Longrightarrow> v = pre ! best \<Longrightarrow>
   first_max (pre @ xs) (argmax_from xs i best v)"
proof (induction xs arbitrary: pre best v i)
  case Nil
  then show ?case by simp
next
  case (Cons x xs)
  show ?case
  proof (cases "x > v")
    case True
    have "first_max (pre @ [x]) (length pre)"
      using Cons.prems True
      by (auto simp: first_max_def nth_append less_Suc_eq intro: less_imp_le order_le_less_trans)
    from Cons.IH [OF this, of "Suc i" x] Cons.prems True show ?thesis
      by simp
  next
    case False
    have "first_max (pre @ [x]) best"
      using Cons.prems False
      by (auto simp: first_max_def nth_append less_Suc_eq)
    from Cons.IH [OF this, of "Suc i" v] Cons.prems False show ?thesis
      by (simp add: first_max_def nth_append)
  qed
qed

lemma argmax_first_max:
  "cs \<noteq> [] \<Longrightarrow> \<exists>j. argmax cs = Inr j \<and> first_max cs j"
proof (cases cs)
  case Nil
  assume "cs \<noteq> []"
  with Nil show ?thesis by simp
next
  case (Cons x rest)
  have "first_max [x] 0" by (simp add: first_max_def)
  from argmax_from_first_max [OF this, of 1 x rest] Cons show ?thesis
    by (simp add: argmax_def)
qed

lemma emits_append [simp]: "emits (a @ b) = emits a @ emits b"
  by (induction a rule: emits.induct) simp_all

lemma detection_lines_append [simp]:
  "detection_lines (a @ b) = detection_lines a @ detection_lines b"
  by (induction a rule: detection_lines.induct) simp_all

lemma emitted_emits: "emitted kind es = map snd (filter (\<lambda>(k, kw). k = kind) (emits es))"
  by (induction es rule: emits.induct) simp_all

lemma run_callbacks_quiet [simp]:
  "emits (run_callbacks k kw i cbs) = []" "detection_lines (run_callbacks k kw i cbs) = []"
  by (induction cbs arbitrary: i) (simp_all split: option.splits)

lemma keep100_keep100: "keep100 (keep100 a @ b) = keep100 (a @ b)"
proof (cases "length a \<le> 100")
  case True
  then show ?thesis by (simp add: keep100_def)
next
  case False
  then have "length a + length b - 100 = length b + (length a - 100)" by simp
  with False show ?thesis
    by (simp add: keep100_def add.commute)
qed

lemma keep100_small: "length xs \<le> 100 \<Longrightarrow> keep100 xs = xs"
  by (simp add: keep100_def)

lemma keep100_map: "keep100 (map f xs) = map f (keep100 xs)"
  by (simp add: keep100_def drop_map)

lemma manager_ok_records: "manager_ok s \<Longrightarrow> keep100 (records s) = records s"
  by (auto simp: manager_ok_def records_def well_formed_def keep100_small split: option.splits)

lemma step_ok_refl: "manager_ok s \<Longrightarrow> step_ok s s []"
  by (simp add: step_ok_def manager_ok_records)

lemma step_ok_trans:
  assumes "step_ok s s' n1" "step_ok s' s'' n2"
  shows "step_ok s s'' (n1 @ n2)"
proof (cases "callback_manager s = None")
  case True
  with assms have "callback_manager s' = None" by (simp add: step_ok_def)
  with assms True show ?thesis by (simp add: step_ok_def)
next
  case False
  with assms have "callback_manager s' \<noteq> None" by (simp add: step_ok_def)
  with assms False show ?thesis
    by (auto simp: step_ok_def keep100_keep100)
qed

lemma step_ok_show: "manager_ok s \<Longrightarrow> step_ok s (show_ui s u) [Show u]"
  by (simp add: step_ok_def show_ui_def manager_ok_def records_def keep100_small well_formed_def
      split: option.splits)

lemma step_ok_condition:
  "manager_ok s \<Longrightarrow> step_ok s (s\<lparr>detected_condition := c\<rparr>) []"
  by (simp add: step_ok_def manager_ok_def records_def keep100_small well_formed_def
      split: option.splits)

lemma trigger_well_formed:
  assumes "well_formed m"
  shows "fst (trigger m now k kw) = None"
    and "well_formed (fst (snd (trigger m now k kw)))"
    and "emits (snd (snd (trigger m now k kw))) = []"
    and "detection_lines (snd (snd (trigger m now k kw))) = []"
    and "callbacks (fst (snd (trigger m now k kw))) = callbacks m"
proof -
  show "well_formed (fst (snd (trigger m now k kw)))"
    using well_formed_trigger [OF assms, of now k kw] by simp
  show "fst (trigger m now k kw) = None"
  proof (cases "k \<in> set CALLBACK_TYPES")
    case True
    then obtain cs where "callbacks m k = Some cs"
      using assms well_formed_lookup by blast
    with True show ?thesis by (simp add: trigger_def Let_def)
  next
    case False
    then show ?thesis by (simp add: trigger_def)
  qed
  show "emits (snd (snd (trigger m now k kw))) = []"
    by (simp add: trigger_def Let_def split: option.splits)
  show "detection_lines (snd (snd (trigger m now k kw))) = []"
    by (simp add: trigger_def Let_def split: option.splits)
  show "callbacks (fst (snd (trigger m now k kw))) = callbacks m"
    by (simp add: trigger_def Let_def split: option.splits)
qed

lemma trigger_records:
  assumes "well_formed m"
  shows "map (\<lambda>e. (ev_type e, ev_data e)) (history (fst (snd (trigger m now k kw)))) =
         keep100 (map (\<lambda>e. (ev_type e, ev_data e)) (history m) @
                  filter (\<lambda>(k, kw). k \<in> set CALLBACK_TYPES) [(k, kw)])"
proof (cases "k \<in> set CALLBACK_TYPES")
  case True
  have len: "length (history m) \<le> 100" using assms by (simp add: well_formed_def)
  have "history (fst (snd (trigger m now k kw))) =
        keep100 (history m @ [\<lparr>ev_type = k, ev_timestamp = now, ev_data = kw\<rparr>])"
  proof (cases "length (history m) < 100")
    case True
    then show ?thesis
      using trigger_history [OF assms \<open>k \<in> set CALLBACK_TYPES\<close>, of now kw]
      by (simp add: keep100_def)
  next
    case False
    with len have full: "length (history m) = 100" by simp
    then have "history m \<noteq> []" by auto
    then have "drop 1 (history m @ [e]) = tl (history m) @ [e]" for e
      by (cases "history m") simp_all
    with full show ?thesis
      using trigger_history [OF assms \<open>k \<in> set CALLBACK_TYPES\<close>, of now kw]
      by (simp add: keep100_def)
  qed
  with True show ?thesis
    by (simp add: keep100_map [symmetric])
next
  case False
  have "length (history m) \<le> 100" using assms by (simp add: well_formed_def)
  with False show ?thesis
    by (simp add: trigger_def keep100_small)
qed

lemma emit_ok:
  assumes "manager_ok s"
  shows "\<exists>s' new. emit clock s k kw = (None, s') \<and> step_ok s s' new \<and>
           detected_condition s' = detected_condition s \<and> detection_lines new = [] \<and>
           emits new = (if callback_manager s = None then [] else [(k, kw)])"
proof (cases "callback_manager s")
  case None
  with assms show ?thesis
    by (auto simp: emit_def intro!: exI [of _ "[]"] step_ok_refl)
next
  case (Some m)
  with assms have wf: "well_formed m" by (simp add: manager_ok_def)
  obtain err m' out where t: "trigger m (clock (triggers s)) k kw = (err, m', out)"
    by (cases "trigger m (clock (triggers s)) k kw") auto
  from trigger_well_formed [OF wf, of "clock (triggers s)" k kw] t
  have f: "err = None" "well_formed m'" "emits out = []" "detection_lines out = []" by simp_all
  from trigger_records [OF wf, of "clock (triggers s)" k kw] t
  have r: "map (\<lambda>e. (ev_type e, ev_data e)) (history m') =
           keep100 (map (\<lambda>e. (ev_type e, ev_data e)) (history m) @
                    filter (\<lambda>(k, kw). k \<in> set CALLBACK_TYPES) [(k, kw)])" by simp
  let ?s' = "s\<lparr>callback_manager := Some m', effects := effects s @ [Emit k kw] @ out,
               triggers := Suc (triggers s)\<rparr>"
  have "emit clock s k kw = (None, ?s')"
    using Some t f by (simp add: emit_def)
  moreover have "step_ok s ?s' ([Emit k kw] @ out)"
    using Some f r by (simp add: step_ok_def manager_ok_def records_def)
  ultimately show ?thesis
    using Some f by (intro exI [of _ ?s'] exI [of _ "[Emit k kw] @ out"]) simp
qed

lemma step_ok_manager: "step_ok s s' new \<Longrightarrow> manager_ok s'"
  and step_ok_none: "step_ok s s' new \<Longrightarrow> (callback_manager s' = None) = (callback_manager s = None)"
  by (simp_all add: step_ok_def)

lemma classify_boxes_ok:
  assumes "manager_ok s" "\<forall>b \<in> set bs. box_cls b \<in> dom nm"
  shows "\<exists>s' new.
      classify_boxes clock aid nm i bs (mal, ben, confs) s =
        (None,
         (mal + length (filter (\<lambda>b. box_conf b > 7/10) bs),
          ben + length (filter (\<lambda>b. \<not> box_conf b > 7/10) bs),
          confs @ map box_conf bs), s') \<and>
      step_ok s s' new \<and> detected_condition s' = detected_condition s \<and>
      detection_lines new =
        map (\<lambda>(j, b). (j + 1, if box_conf b > 7/10 then U ''MALIGNE'' else U ''B'' @ [201] @ U ''NIGNE'',
                       box_conf b)) (zip [i ..< i + length bs] bs) \<and>
      map (\<lambda>(k, kw). (k, map_of kw ''confidence'', map_of kw ''is_malignant'')) (emits new) =
        (if callback_manager s = None then []
         else map (\<lambda>b. (U ''on_classification'', Some (VFloat (box_conf b)),
                        Some (VBool (box_conf b > 7/10)))) bs)"
  using assms
proof (induction bs arbitrary: i mal ben confs s)
  case Nil
  then show ?case
    by (auto intro!: exI [of _ "[]"] step_ok_refl)
next
  case (Cons b bs)
  from Cons.prems obtain name where name: "nm (box_cls b) = Some name" by auto
  let ?m = "box_conf b > 7/10"
  let ?s1 = "show_ui s (DetectionLine (i + 1) (if ?m then [128308] else [128994])
               (if ?m then U ''MALIGNE'' else U ''B'' @ [201] @ U ''NIGNE'') (box_conf b))"
  let ?kw = "[(''detection_id'', VStr (aid @ U ''_det'' @ str_nat i)),
              (''confidence'', VFloat (box_conf b)),
              (''original_class'', VStr name),
              (''adjusted_class'', VStr (if ?m then U ''cancer'' else U ''normal'')),
              (''is_malignant'', VBool ?m)]"
  have ok1: "step_ok s ?s1 [Show (DetectionLine (i + 1) (if ?m then [128308] else [128994])
               (if ?m then U ''MALIGNE'' else U ''B'' @ [201] @ U ''NIGNE'') (box_conf b))]"
    using Cons.prems(1) by (rule step_ok_show)
  have c1: "detected_condition ?s1 = detected_condition s" by (simp add: show_ui_def)
  from emit_ok [OF step_ok_manager [OF ok1], of clock "U ''on_classification''" ?kw]
  obtain s2 new2 where e: "emit clock ?s1 (U ''on_classification'') ?kw = (None, s2)"
    and ok2: "step_ok ?s1 s2 new2" and c2: "detected_condition s2 = detected_condition ?s1"
    and d2: "detection_lines new2 = []"
    and em2: "emits new2 = (if callback_manager ?s1 = None then [] else [(U ''on_classification'', ?kw)])"
    by blast
  from Cons.prems have names: "\<forall>b \<in> set bs. box_cls b \<in> dom nm" by simp
  from Cons.IH [OF step_ok_manager [OF ok2] names, of "Suc i"
      "if ?m then mal + 1 else mal" "if ?m then ben else ben + 1" "confs @ [box_conf b]"]
  obtain s3 new3 where
    r: "classify_boxes clock aid nm (Suc i) bs
          (if ?m then mal + 1 else mal, if ?m then ben else ben + 1, confs @ [box_conf b]) s2 =
        (None,
         ((if ?m then mal + 1 else mal) + length (filter (\<lambda>b. box_conf b > 7/10) bs),
          (if ?m then ben else ben + 1) + length (filter (\<lambda>b. \<not> box_conf b > 7/10) bs),
          (confs @ [box_conf b]) @ map box_conf bs), s3)"
    and ok3: "step_ok s2 s3 new3" and c3: "detected_condition s3 = detected_condition s2"
    and d3: "detection_lines new3 =
        map (\<lambda>(j, b). (j + 1, if box_conf b > 7/10 then U ''MALIGNE'' else U ''B'' @ [201] @ U ''NIGNE'',
                       box_conf b)) (zip [Suc i ..< Suc i + length bs] bs)"
    and em3: "map (\<lambda>(k, kw). (k, map_of kw ''confidence'', map_of kw ''is_malignant'')) (emits new3) =
        (if callback_manager s2 = None then []
         else map (\<lambda>b. (U ''on_classification'', Some (VFloat (box_conf b)),
                        Some (VBool (box_conf b > 7/10)))) bs)"
    by blast
  have none: "(callback_manager s2 = None) = (callback_manager s = None)"
    "(callback_manager ?s1 = None) = (callback_manager s = None)"
    using step_ok_none [OF ok1] step_ok_none [OF ok2] by simp_all
  have run: "classify_boxes clock aid nm i (b # bs) (mal, ben, confs) s =
        (None,
         (mal + length (filter (\<lambda>b. box_conf b > 7/10) (b # bs)),
          ben + length (filter (\<lambda>b. \<not> box_conf b > 7/10) (b # bs)),
          confs @ map box_conf (b # bs)), s3)"
    using name e r by (simp add: Let_def MALIGNANCY_THRESHOLD_def)
  have ok: "step_ok s s3 ([Show (DetectionLine (i + 1) (if ?m then [128308] else [128994])
               (if ?m then U ''MALIGNE'' else U ''B'' @ [201] @ U ''NIGNE'') (box_conf b))] @ new2 @ new3)"
    using step_ok_trans [OF ok1 step_ok_trans [OF ok2 ok3]] .
  have "[i ..< i + length (b # bs)] = i # [Suc i ..< i + length (b # bs)]"
    by (rule upt_conv_Cons) simp
  then have upt: "[i ..< i + length (b # bs)] = i # [Suc i ..< Suc i + length bs]"
    by simp
  let ?new = "[Show (DetectionLine (i + 1) (if ?m then [128308] else [128994])
               (if ?m then U ''MALIGNE'' else U ''B'' @ [201] @ U ''NIGNE'') (box_conf b))] @ new2 @ new3"
  have cond: "detected_condition s3 = detected_condition s"
    using c1 c2 c3 by (simp only:)
  have dl: "detection_lines ?new =
        map (\<lambda>(j, b). (j + 1, if box_conf b > 7/10 then U ''MALIGNE'' else U ''B'' @ [201] @ U ''NIGNE'',
                       box_conf b)) (zip [i ..< i + length (b # bs)] (b # bs))"
    unfolding upt by (simp add: d2 d3)
  have em: "map (\<lambda>(k, kw). (k, map_of kw ''confidence'', map_of kw ''is_malignant'')) (emits ?new) =
        (if callback_manager s = None then []
         else map (\<lambda>b. (U ''on_classification'', Some (VFloat (box_conf b)),
                        Some (VBool (box_conf b > 7/10)))) (b # bs))"
    using em2 em3 none by simp
  from run ok cond dl em show ?case by blast
qed

lemma index_in_range: "i < length xs \<Longrightarrow> index xs i = Inr (xs ! i)"
  by (simp add: index_def)

lemma show_detections_ok:
  assumes "manager_ok s" "\<forall>b \<in> set (boxes res). box_cls b \<in> dom (names res)" "boxes res \<noteq> []"
  shows "\<exists>s' new j kw.
      show_detections clock aid (Some (res # rest)) s = (None, s') \<and> step_ok s s' new \<and>
      first_max (map box_conf (boxes res)) j \<and>
      detected_condition s' =
        Some (if box_conf (boxes res ! j) > 7/10 then U ''cancer'' else U ''normal'') \<and>
      detection_lines new =
        map (\<lambda>(j, b). (j + 1, if box_conf b > 7/10 then U ''MALIGNE'' else U ''B'' @ [201] @ U ''NIGNE'',
                       box_conf b)) (zip [0 ..< length (boxes res)] (boxes res)) \<and>
      (if callback_manager s = None then emits new = []
       else map (\<lambda>(k, kw). (k, map_of kw ''confidence'', map_of kw ''is_malignant'')) (butlast (emits new)) =
              map (\<lambda>b. (U ''on_classification'', Some (VFloat (box_conf b)),
                        Some (VBool (box_conf b > 7/10)))) (boxes res) \<and>
            emits new \<noteq> [] \<and> last (emits new) = (U ''on_analysis_complete'', kw) \<and>
            map_of kw ''total_detections'' = Some (VInt (int (length (boxes res)))) \<and>
            map_of kw ''malignant_count'' =
              Some (VInt (int (length (filter (\<lambda>b. box_conf b > 7/10) (boxes res))))) \<and>
            map_of kw ''benign_count'' =
              Some (VInt (int (length (filter (\<lambda>b. \<not> box_conf b > 7/10) (boxes res))))))"
proof -
  let ?confs = "map box_conf (boxes res)"
  let ?s1 = "show_ui s (Image (U ''Image avec d'' @ [233] @ U ''tections''))"
  have ok1: "step_ok s ?s1 [Show (Image (U ''Image avec d'' @ [233] @ U ''tections''))]"
    using assms(1) by (rule step_ok_show)
  from classify_boxes_ok [OF step_ok_manager [OF ok1] assms(2), of clock aid 0 0 0 "[]"]
  obtain s2 new2 where
    run: "classify_boxes clock aid (names res) 0 (boxes res) (0, 0, []) ?s1 =
        (None, (0 + length (filter (\<lambda>b. box_conf b > 7/10) (boxes res)),
                0 + length (filter (\<lambda>b. \<not> box_conf b > 7/10) (boxes res)),
                [] @ ?confs), s2)"
    and ok2: "step_ok ?s1 s2 new2" and c2: "detected_condition s2 = detected_condition ?s1"
    and d2: "detection_lines new2 =
        map (\<lambda>(j, b). (j + 1, if box_conf b > 7/10 then U ''MALIGNE'' else U ''B'' @ [201] @ U ''NIGNE'',
                       box_conf b)) (zip [0 ..< 0 + length (boxes res)] (boxes res))"
    and em2: "map (\<lambda>(k, kw). (k, map_of kw ''confidence'', map_of kw ''is_malignant'')) (emits new2) =
        (if callback_manager ?s1 = None then []
         else map (\<lambda>b. (U ''on_classification'', Some (VFloat (box_conf b)),
                        Some (VBool (box_conf b > 7/10)))) (boxes res))"
    by blast
  from assms(3) have "?confs \<noteq> []" by simp
  from argmax_first_max [OF this] obtain j where
    am: "argmax ?confs = Inr j" and fm: "first_max ?confs j" by blast
  from fm have jlt: "j < length (boxes res)" by (simp add: first_max_def)
  then have ix: "index ?confs j = Inr (box_conf (boxes res ! j))"
    by (simp add: index_def)
  define cond where "cond = Some (if box_conf (boxes res ! j) > 7/10 then U ''cancer'' else U ''normal'')"
  let ?s3 = "s2\<lparr>detected_condition := cond\<rparr>"
  define kw where "kw =
     [(''analysis_id'', VStr aid),
      (''total_detections'', VInt (int (length (boxes res)))),
      (''malignant_count'', VInt (int (length (filter (\<lambda>b. box_conf b > 7/10) (boxes res))))),
      (''benign_count'', VInt (int (length (filter (\<lambda>b. \<not> box_conf b > 7/10) (boxes res))))),
      (''average_confidence'',
         (if ?confs \<noteq> [] then VFloat (sum_list ?confs / real (length ?confs)) else VInt 0)),
      (''highest_confidence'', VFloat (box_conf (boxes res ! j))),
      (''final_classification'', (case cond of None \<Rightarrow> VNone | Some c \<Rightarrow> VStr c))]"
  have ok3: "step_ok s2 ?s3 []"
    using step_ok_manager [OF ok2] by (rule step_ok_condition)
  from emit_ok [OF step_ok_manager [OF ok3], of clock "U ''on_analysis_complete''" kw]
  obtain s4 new4 where e: "emit clock ?s3 (U ''on_analysis_complete'') kw = (None, s4)"
    and ok4: "step_ok ?s3 s4 new4" and c4: "detected_condition s4 = detected_condition ?s3"
    and d4: "detection_lines new4 = []"
    and em4: "emits new4 = (if callback_manager ?s3 = None then [] else [(U ''on_analysis_complete'', kw)])"
    by blast
  have none: "(callback_manager ?s1 = None) = (callback_manager s = None)"
    "(callback_manager ?s3 = None) = (callback_manager s = None)"
    using step_ok_none [OF ok1] step_ok_none [OF ok2] by simp_all
  let ?new = "[Show (Image (U ''Image avec d'' @ [233] @ U ''tections''))] @ new2 @ [] @ new4"
  have result: "show_detections clock aid (Some (res # rest)) s = (None, s4)"
    using assms(3) run am ix e
    by (cases "box_conf (boxes res ! j) > 7/10")
       (simp_all add: show_detections_def Let_def MALIGNANCY_THRESHOLD_def cond_def kw_def)
  have ok: "step_ok s s4 ?new"
    using step_ok_trans [OF ok1 step_ok_trans [OF ok2 step_ok_trans [OF ok3 ok4]]] .
  have c: "detected_condition s4 = cond" using c4 by simp
  have dl: "detection_lines ?new =
        map (\<lambda>(j, b). (j + 1, if box_conf b > 7/10 then U ''MALIGNE'' else U ''B'' @ [201] @ U ''NIGNE'',
                       box_conf b)) (zip [0 ..< length (boxes res)] (boxes res))"
    using d2 d4 by simp
  have kws: "map_of kw ''total_detections'' = Some (VInt (int (length (boxes res))))"
    "map_of kw ''malignant_count'' =
       Some (VInt (int (length (filter (\<lambda>b. box_conf b > 7/10) (boxes res)))))"
    "map_of kw ''benign_count'' =
       Some (VInt (int (length (filter (\<lambda>b. \<not> box_conf b > 7/10) (boxes res)))))"
    by (simp_all add: kw_def)
  have em: "if callback_manager s = None then emits ?new = []
       else map (\<lambda>(k, kw). (k, map_of kw ''confidence'', map_of kw ''is_malignant'')) (butlast (emits ?new)) =
              map (\<lambda>b. (U ''on_classification'', Some (VFloat (box_conf b)),
                        Some (VBool (box_conf b > 7/10)))) (boxes res) \<and>
            emits ?new \<noteq> [] \<and> last (emits ?new) = (U ''on_analysis_complete'', kw)"
  proof (cases "callback_manager s = None")
    case True
    with em2 em4 none show ?thesis by simp
  next
    case False
    with none have n1: "callback_manager ?s1 \<noteq> None" and n3: "callback_manager ?s3 \<noteq> None"
      by simp_all
    from em2 n1 have em2': "map (\<lambda>(k, kw). (k, map_of kw ''confidence'', map_of kw ''is_malignant''))
          (emits new2) =
        map (\<lambda>b. (U ''on_classification'', Some (VFloat (box_conf b)),
                   Some (VBool (box_conf b > 7/10)))) (boxes res)"
      by (simp only: if_False)
    from em4 n3 have em4': "emits new4 = [(U ''on_analysis_complete'', kw)]"
      by (simp only: if_False)
    from False show ?thesis
      by (simp add: em2' em4')
  qed
  from result ok fm c dl em kws show ?thesis
    unfolding cond_def by (intro exI [of _ s4] exI [of _ ?new] exI [of _ j] exI [of _ kw]) auto
qed

lemma show_conclusion_ok:
  assumes "manager_ok s" "boxes res \<noteq> []"
  shows "\<exists>s' new kw.
      show_conclusion clock aid (Some (res # rest)) s = (None, s') \<and> step_ok s s' new \<and>
      detected_condition s' = detected_condition s \<and> detection_lines new = [] \<and>
      emits new = (if callback_manager s = None then [] else [(U ''on_conclusion'', kw)]) \<and>
      map_of kw ''threshold_used'' = Some (VFloat (7/10))"
proof -
  let ?confs = "map box_conf (boxes res)"
  let ?s1 = "show_ui s (Subheader (U ''Conclusion''))"
  have ok1: "step_ok s ?s1 [Show (Subheader (U ''Conclusion''))]"
    using assms(1) by (rule step_ok_show)
  from assms(2) have "?confs \<noteq> []" by simp
  from argmax_first_max [OF this] obtain j where
    am: "argmax ?confs = Inr j" and fm: "first_max ?confs j" by blast
  from fm have "j < length (boxes res)" by (simp add: first_max_def)
  then have ix: "index ?confs j = Inr (box_conf (boxes res ! j))"
    by (simp add: index_def)
  define line where "line = (if box_conf (boxes res ! j) > 7/10
       then ConclusionMalignant (box_conf (boxes res ! j) * 100)
       else ConclusionBenign (box_conf (boxes res ! j) * 100))"
  define kw where "kw =
      [(''analysis_id'', VStr aid),
       (''conclusion'', VStr (if box_conf (boxes res ! j) > 7/10
                              then U ''maligne'' else U ''b'' @ [233] @ U ''nigne'')),
       (''confidence'', VFloat (box_conf (boxes res ! j))),
       (''threshold_used'', VFloat (7/10))]"
  let ?s2 = "show_ui ?s1 line"
  have ok2: "step_ok ?s1 ?s2 [Show line]"
    using step_ok_manager [OF ok1] by (rule step_ok_show)
  from emit_ok [OF step_ok_manager [OF ok2], of clock "U ''on_conclusion''" kw]
  obtain s3 new3 where e: "emit clock ?s2 (U ''on_conclusion'') kw = (None, s3)"
    and ok3: "step_ok ?s2 s3 new3" and c3: "detected_condition s3 = detected_condition ?s2"
    and d3: "detection_lines new3 = []"
    and em3: "emits new3 = (if callback_manager ?s2 = None then [] else [(U ''on_conclusion'', kw)])"
    by blast
  have result: "show_conclusion clock aid (Some (res # rest)) s = (None, s3)"
    using assms(2) am ix e
    by (cases "box_conf (boxes res ! j) > 7/10")
       (simp_all add: show_conclusion_def Let_def MALIGNANCY_THRESHOLD_def line_def kw_def)
  have ok: "step_ok s s3 ([Show (Subheader (U ''Conclusion''))] @ [Show line] @ new3)"
    using step_ok_trans [OF ok1 step_ok_trans [OF ok2 ok3]] .
  have c: "detected_condition s3 = detected_condition s"
    using c3 by (simp add: show_ui_def)
  have dl: "detection_lines ([Show (Subheader (U ''Conclusion''))] @ [Show line] @ new3) = []"
    using d3 by (cases "box_conf (boxes res ! j) > 7/10") (simp_all add: line_def)
  have em: "emits ([Show (Subheader (U ''Conclusion''))] @ [Show line] @ new3) =
      (if callback_manager s = None then [] else [(U ''on_conclusion'', kw)])"
    using em3 by (simp add: show_ui_def)
  have "map_of kw ''threshold_used'' = Some (VFloat (7/10))"
    by (simp add: kw_def)
  with result ok c dl em show ?thesis by blast
qed

lemma projection_split:
  "map (\<lambda>(k, kw). (k, f kw)) cls = map (\<lambda>b. (K, g b)) bs \<Longrightarrow>
   map fst cls = replicate (length bs) K \<and> map (\<lambda>kw. f kw) (map snd cls) = map g bs"
proof (induction cls arbitrary: bs)
  case Nil
  then show ?case by simp
next
  case (Cons c cls)
  then obtain b bs' where bs: "bs = b # bs'" by (cases bs) auto
  with Cons.prems Cons.IH [of bs'] show ?case
    by (cases c) auto
qed

lemma display_results_ok:
  assumes "manager_ok s" "\<forall>b \<in> set (boxes res). box_cls b \<in> dom (names res)" "boxes res \<noteq> []"
  shows "\<exists>s' new j cls kwA kwC.
      display_results clock hex8 (Some (res # rest)) s = (None, s') \<and> step_ok s s' new \<and>
      first_max (map box_conf (boxes res)) j \<and>
      detected_condition s' =
        Some (if box_conf (boxes res ! j) > 7/10 then U ''cancer'' else U ''normal'') \<and>
      detection_lines new =
        map (\<lambda>(j, b). (j + 1, if box_conf b > 7/10 then U ''MALIGNE'' else U ''B'' @ [201] @ U ''NIGNE'',
                       box_conf b)) (zip [0 ..< length (boxes res)] (boxes res)) \<and>
      emits new =
        (if callback_manager s = None then []
         else cls @ [(U ''on_analysis_complete'', kwA), (U ''on_conclusion'', kwC)]) \<and>
      map (\<lambda>(k, kw). (k, map_of kw ''confidence'', map_of kw ''is_malignant'')) cls =
        map (\<lambda>b. (U ''on_classification'', Some (VFloat (box_conf b)),
                  Some (VBool (box_conf b > 7/10)))) (boxes res) \<and>
      map_of kwA ''total_detections'' = Some (VInt (int (length (boxes res)))) \<and>
      map_of kwA ''malignant_count'' =
        Some (VInt (int (length (filter (\<lambda>b. box_conf b > 7/10) (boxes res))))) \<and>
      map_of kwA ''benign_count'' =
        Some (VInt (int (length (filter (\<lambda>b. \<not> box_conf b > 7/10) (boxes res))))) \<and>
      map_of kwC ''threshold_used'' = Some (VFloat (7/10))"
proof -
  let ?u1 = "Subheader (U ''R'' @ [233] @ U ''sultats de l'analyse'')"
  let ?u2 = "Image (U ''Image originale'')"
  let ?u3 = "Subheader ([128269] @ U '' R'' @ [233] @ U ''sultats de l'analyse'')"
  let ?s1 = "show_ui s ?u1"
  let ?s2 = "show_ui ?s1 ?u2"
  let ?s3 = "show_ui ?s2 ?u3"
  have ok1: "step_ok s ?s1 [Show ?u1]" using assms(1) by (rule step_ok_show)
  have ok2: "step_ok ?s1 ?s2 [Show ?u2]" using step_ok_manager [OF ok1] by (rule step_ok_show)
  have ok3: "step_ok ?s2 ?s3 [Show ?u3]" using step_ok_manager [OF ok2] by (rule step_ok_show)
  have n3: "(callback_manager ?s3 = None) = (callback_manager s = None)"
    by (simp add: show_ui_def)
  from show_detections_ok [OF step_ok_manager [OF ok3] assms(2,3), of clock "U ''analysis_'' @ hex8" rest]
  obtain s4 new4 j kwA where
    r4: "show_detections clock (U ''analysis_'' @ hex8) (Some (res # rest)) ?s3 = (None, s4)"
    and ok4: "step_ok ?s3 s4 new4"
    and fm: "first_max (map box_conf (boxes res)) j"
    and c4: "detected_condition s4 =
        Some (if box_conf (boxes res ! j) > 7/10 then U ''cancer'' else U ''normal'')"
    and d4: "detection_lines new4 =
        map (\<lambda>(j, b). (j + 1, if box_conf b > 7/10 then U ''MALIGNE'' else U ''B'' @ [201] @ U ''NIGNE'',
                       box_conf b)) (zip [0 ..< length (boxes res)] (boxes res))"
    and em4: "if callback_manager ?s3 = None then emits new4 = []
       else map (\<lambda>(k, kw). (k, map_of kw ''confidence'', map_of kw ''is_malignant'')) (butlast (emits new4)) =
              map (\<lambda>b. (U ''on_classification'', Some (VFloat (box_conf b)),
                        Some (VBool (box_conf b > 7/10)))) (boxes res) \<and>
            emits new4 \<noteq> [] \<and> last (emits new4) = (U ''on_analysis_complete'', kwA) \<and>
            map_of kwA ''total_detections'' = Some (VInt (int (length (boxes res)))) \<and>
            map_of kwA ''malignant_count'' =
              Some (VInt (int (length (filter (\<lambda>b. box_conf b > 7/10) (boxes res))))) \<and>
            map_of kwA ''benign_count'' =
              Some (VInt (int (length (filter (\<lambda>b. \<not> box_conf b > 7/10) (boxes res)))))"
    by blast
  from show_conclusion_ok [OF step_ok_manager [OF ok4] assms(3), of clock "U ''analysis_'' @ hex8" rest]
  obtain s5 new5 kwC where
    r5: "show_conclusion clock (U ''analysis_'' @ hex8) (Some (res # rest)) s4 = (None, s5)"
    and ok5: "step_ok s4 s5 new5" and c5: "detected_condition s5 = detected_condition s4"
    and d5: "detection_lines new5 = []"
    and em5: "emits new5 = (if callback_manager s4 = None then [] else [(U ''on_conclusion'', kwC)])"
    and kC: "map_of kwC ''threshold_used'' = Some (VFloat (7/10))"
    by blast
  have n4: "(callback_manager s4 = None) = (callback_manager s = None)"
    using step_ok_none [OF ok4] n3 by simp
  let ?new = "[Show ?u1] @ [Show ?u2] @ [Show ?u3] @ new4 @ new5"
  have result: "display_results clock hex8 (Some (res # rest)) s = (None, s5)"
    using r4 r5 by (simp add: display_results_def Let_def)
  have ok: "step_ok s s5 ?new"
    using step_ok_trans [OF ok1 step_ok_trans [OF ok2 step_ok_trans [OF ok3 step_ok_trans [OF ok4 ok5]]]] .
  have c: "detected_condition s5 =
        Some (if box_conf (boxes res ! j) > 7/10 then U ''cancer'' else U ''normal'')"
    using c4 c5 by simp
  have dl: "detection_lines ?new =
        map (\<lambda>(j, b). (j + 1, if box_conf b > 7/10 then U ''MALIGNE'' else U ''B'' @ [201] @ U ''NIGNE'',
                       box_conf b)) (zip [0 ..< length (boxes res)] (boxes res))"
    using d4 d5 by simp
  show ?thesis
  proof (cases "callback_manager s = None")
    case True
    with em4 em5 n3 n4 have "emits ?new = []" by simp
    with True result ok fm c dl show ?thesis
      apply (intro exI [of _ s5] exI [of _ ?new] exI [of _ j])
      apply (rule exI [of _ "map (\<lambda>b. (U ''on_classification'',
          [(''confidence'', VFloat (box_conf b)), (''is_malignant'', VBool (box_conf b > 7/10))])) (boxes res)"])
      apply (rule exI [of _ "[(''total_detections'', VInt (int (length (boxes res)))),
          (''malignant_count'', VInt (int (length (filter (\<lambda>b. box_conf b > 7/10) (boxes res))))),
          (''benign_count'', VInt (int (length (filter (\<lambda>b. \<not> box_conf b > 7/10) (boxes res)))))]"])
      apply (rule exI [of _ "[(''threshold_used'', VFloat (7/10))]"])
      apply (simp add: comp_def)
      done
  next
    case False
    with em4 n3 have ne: "emits new4 \<noteq> []" and la: "last (emits new4) = (U ''on_analysis_complete'', kwA)"
      by simp_all
    from append_butlast_last_id [OF ne] la
    have e4: "emits new4 = butlast (emits new4) @ [(U ''on_analysis_complete'', kwA)]"
      by simp
    from False em4 n3 have p4: "map (\<lambda>(k, kw). (k, map_of kw ''confidence'', map_of kw ''is_malignant'')) (butlast (emits new4)) =
              map (\<lambda>b. (U ''on_classification'', Some (VFloat (box_conf b)),
                        Some (VBool (box_conf b > 7/10)))) (boxes res)"
      and k4: "map_of kwA ''total_detections'' = Some (VInt (int (length (boxes res))))"
        "map_of kwA ''malignant_count'' =
              Some (VInt (int (length (filter (\<lambda>b. box_conf b > 7/10) (boxes res)))))"
        "map_of kwA ''benign_count'' =
              Some (VInt (int (length (filter (\<lambda>b. \<not> box_conf b > 7/10) (boxes res)))))"
      by simp_all
    from False em5 n4 have e5: "emits new5 = [(U ''on_conclusion'', kwC)]" by simp
    have "emits ?new = butlast (emits new4) @ [(U ''on_analysis_complete'', kwA), (U ''on_conclusion'', kwC)]"
      using e4 e5 by simp
    with False result ok fm c dl p4 k4 kC show ?thesis
      by (intro exI [of _ s5] exI [of _ ?new] exI [of _ j] exI [of _ "butlast (emits new4)"]
          exI [of _ kwA] exI [of _ kwC]) simp
  qed
qed

text \<open>
  C1. Whenever the detector returns boxes, \<open>display_results\<close> shows each box as malignant
  exactly when its confidence is strictly above 0.70, and the condition it keeps for the
  session is the classification of the box with the highest confidence, the first one
  in the detector's order when several boxes share it.
\<close>

theorem malignancy_classification:
  assumes "manager_ok s" "\<forall>b \<in> set (boxes res). box_cls b \<in> dom (names res)" "boxes res \<noteq> []"
  shows "\<exists>s' j.
      display_results clock hex8 (Some (res # rest)) s = (None, s') \<and>
      detection_lines (drop (length (effects s)) (effects s')) =
        map (\<lambda>(i, b). (i + 1, if box_conf b > 0.70 then U ''MALIGNE'' else U ''B'' @ [201] @ U ''NIGNE'',
                       box_conf b)) (zip [0 ..< length (boxes res)] (boxes res)) \<and>
      first_max (map box_conf (boxes res)) j \<and>
      detected_condition s' =
        Some (if box_conf (boxes res ! j) > 0.70 then U ''cancer'' else U ''normal'')"
proof -
  from display_results_ok [OF assms, of clock hex8 rest]
  obtain s' new j where
    "display_results clock hex8 (Some (res # rest)) s = (None, s')"
    "step_ok s s' new" "first_max (map box_conf (boxes res)) j"
    "detected_condition s' =
        Some (if box_conf (boxes res ! j) > 7/10 then U ''cancer'' else U ''normal'')"
    "detection_lines new =
        map (\<lambda>(j, b). (j + 1, if box_conf b > 7/10 then U ''MALIGNE'' else U ''B'' @ [201] @ U ''NIGNE'',
                       box_conf b)) (zip [0 ..< length (boxes res)] (boxes res))"
    by blast
  moreover from this have "drop (length (effects s)) (effects s') = new"
    by (simp add: step_ok_def)
  ultimately show ?thesis
    by (intro exI [of _ s'] exI [of _ j]) simp
qed

theorem malignancy_classification_witness:
  "manager_ok \<lparr>callback_manager = None, detected_condition = None, effects = [], triggers = 0, messages = []\<rparr> \<and>
   list_all (\<lambda>b. box_cls b \<in> dom [0 \<mapsto> U ''tumor''])
     [\<lparr>box_cls = 0, box_conf = 0.70\<rparr>, \<lparr>box_cls = 0, box_conf = 0.71\<rparr>, \<lparr>box_cls = 0, box_conf = 0.71\<rparr>] \<and>
   (\<exists>s'. display_results (\<lambda>n. 0) (U ''0a1b2c3d'')
           (Some [\<lparr>boxes = [\<lparr>box_cls = 0, box_conf = 0.70\<rparr>, \<lparr>box_cls = 0, box_conf = 0.71\<rparr>,
                             \<lparr>box_cls = 0, box_conf = 0.71\<rparr>],
                   names = [0 \<mapsto> U ''tumor'']\<rparr>])
           \<lparr>callback_manager = None, detected_condition = None, effects = [], triggers = 0, messages = []\<rparr> =
         (None, s') \<and>
      detection_lines (effects s') =
        [(1, U ''B'' @ [201] @ U ''NIGNE'', 0.70), (2, U ''MALIGNE'', 0.71), (3, U ''MALIGNE'', 0.71)] \<and>
      detected_condition s' = Some (U ''cancer''))"
proof -
  let ?s = "\<lparr>callback_manager = None, detected_condition = None, effects = [], triggers = 0, messages = []\<rparr>"
  let ?r = "\<lparr>boxes = [\<lparr>box_cls = 0, box_conf = 0.70\<rparr>, \<lparr>box_cls = 0, box_conf = 0.71\<rparr>,
                      \<lparr>box_cls = 0, box_conf = 0.71\<rparr>],
            names = [0 \<mapsto> U ''tumor'']\<rparr>"
  have h1: "manager_ok ?s" by (simp add: manager_ok_def)
  have h2: "\<forall>b \<in> set (boxes ?r). box_cls b \<in> dom (names ?r)" by simp
  have h3: "boxes ?r \<noteq> []" by simp
  from malignancy_classification [OF h1 h2 h3, of "\<lambda>n. 0" "U ''0a1b2c3d''" "[]"]
  obtain s' j where
    r: "display_results (\<lambda>n. 0) (U ''0a1b2c3d'') (Some [?r]) ?s = (None, s')"
    and d: "detection_lines (drop (length (effects ?s)) (effects s')) =
        map (\<lambda>(i, b). (i + 1, if box_conf b > 0.70 then U ''MALIGNE'' else U ''B'' @ [201] @ U ''NIGNE'',
                       box_conf b)) (zip [0 ..< length (boxes ?r)] (boxes ?r))"
    and fm: "first_max (map box_conf (boxes ?r)) j"
    and c: "detected_condition s' =
        Some (if box_conf (boxes ?r ! j) > 0.70 then U ''cancer'' else U ''normal'')"
    by blast
  from fm have "j < 3" by (simp add: first_max_def)
  then consider "j = 0" | "j = 1" | "j = 2" by linarith
  then have j: "j = 1"
  proof cases
    case 1
    with fm have "\<forall>i<3. [0.70, 0.71, 0.71 :: real] ! i \<le> 0.70" by (simp add: first_max_def)
    from this [rule_format, of 1] show ?thesis by simp
  next
    case 2
    then show ?thesis .
  next
    case 3
    with fm have "\<forall>i<2. [0.70, 0.71, 0.71 :: real] ! i < 0.71" by (simp add: first_max_def)
    from this [rule_format, of 1] show ?thesis by simp
  qed
  have upt: "[0 ..< 3] = [0, 1, 2]" by (simp add: upt_rec)
  from d have d': "detection_lines (effects s') =
      [(1, U ''B'' @ [201] @ U ''NIGNE'', 0.70), (2, U ''MALIGNE'', 0.71), (3, U ''MALIGNE'', 0.71)]"
    by (simp add: upt)
  from c j have c': "detected_condition s' = Some (U ''cancer'')" by simp
  have h2': "list_all (\<lambda>b. box_cls b \<in> dom [0 \<mapsto> U ''tumor''])
     [\<lparr>box_cls = 0, box_conf = 0.70\<rparr>, \<lparr>box_cls = 0, box_conf = 0.71\<rparr>, \<lparr>box_cls = 0, box_conf = 0.71\<rparr>]"
    by simp
  from r d' c' have "\<exists>s'. display_results (\<lambda>n. 0) (U ''0a1b2c3d'') (Some [?r]) ?s = (None, s') \<and>
      detection_lines (effects s') =
        [(1, U ''B'' @ [201] @ U ''NIGNE'', 0.70), (2, U ''MALIGNE'', 0.71), (3, U ''MALIGNE'', 0.71)] \<and>
      detected_condition s' = Some (U ''cancer'')"
    by (intro exI [of _ s'] conjI)
  with h1 h2' show ?thesis by (intro conjI)
qed

lemma replicate_kind_filter:
  "map fst cls = replicate n K \<Longrightarrow>
   filter (\<lambda>(k, kw). k = K') cls = (if K' = K then cls else [])"
proof (induction cls arbitrary: n)
  case Nil
  then show ?case by simp
next
  case (Cons c cls)
  then obtain n' where "n = Suc n'" by (cases n) auto
  with Cons.prems Cons.IH [of n'] show ?case
    by (cases c) auto
qed

lemma replicate_kind_known:
  "map fst cls = replicate n K \<Longrightarrow> K \<in> S \<Longrightarrow> filter (\<lambda>(k, kw). k \<in> S) cls = cls"
proof (induction cls arbitrary: n)
  case Nil
  then show ?case by simp
next
  case (Cons c cls)
  then obtain n' where "n = Suc n'" by (cases n) auto
  with Cons.prems Cons.IH [of n'] show ?case
    by (cases c) auto
qed

lemma keep100_append_small:
  "length b \<le> 100 \<Longrightarrow> keep100 (a @ b) = drop (length a + length b - 100) a @ b"
  by (simp add: keep100_def)

lemma recorded_records:
  "recorded K (callback_manager s) = map snd (filter (\<lambda>(k, kw). k = K) (records s))"
  by (simp add: recorded_def records_def filter_map comp_def split: option.splits)

text \<open>
  What \<open>display_results\<close> asks of the callback manager. With the manager in place and
  at most 100 boxes, it calls \<open>trigger\<close> once per box with the kind
  \<open>on_classification\<close>, in the detector's order, each call carrying that box's
  confidence and malignancy flag; these events are recorded, so the classification
  events of the history end with them. It then calls \<open>trigger\<close> once with the kind
  \<open>on_analysis_complete\<close>, carrying the number of boxes, the number above 0.70 as
  \<open>malignant_count\<close> and the number of the others as \<open>benign_count\<close>.
\<close>

lemma detection_events:
  assumes "callback_manager s = Some m" "well_formed m"
    "\<forall>b \<in> set (boxes res). box_cls b \<in> dom (names res)"
    "boxes res \<noteq> []" "length (boxes res) \<le> 100"
  shows "\<exists>s' new kwA older.
      display_results clock hex8 (Some (res # rest)) s = (None, s') \<and>
      effects s' = effects s @ new \<and>
      map (\<lambda>kw. (map_of kw ''confidence'', map_of kw ''is_malignant''))
          (emitted (U ''on_classification'') new) =
        map (\<lambda>b. (Some (VFloat (box_conf b)), Some (VBool (box_conf b > 0.70)))) (boxes res) \<and>
      map (\<lambda>kw. (map_of kw ''confidence'', map_of kw ''is_malignant''))
          (recorded (U ''on_classification'') (callback_manager s')) =
        older @ map (\<lambda>b. (Some (VFloat (box_conf b)), Some (VBool (box_conf b > 0.70)))) (boxes res) \<and>
      emitted (U ''on_analysis_complete'') new = [kwA] \<and>
      map_of kwA ''total_detections'' = Some (VInt (int (length (boxes res)))) \<and>
      map_of kwA ''malignant_count'' =
        Some (VInt (int (length (filter (\<lambda>b. box_conf b > 0.70) (boxes res))))) \<and>
      map_of kwA ''benign_count'' =
        Some (VInt (int (length (filter (\<lambda>b. \<not> box_conf b > 0.70) (boxes res)))))"
proof -
  let ?f = "\<lambda>kw. (map_of kw ''confidence'', map_of kw ''is_malignant'')"
  let ?g = "\<lambda>b. (Some (VFloat (box_conf b)), Some (VBool (box_conf b > 7/10)))"
  let ?K = "U ''on_classification''"
  have mok: "manager_ok s" using assms(1,2) by (simp add: manager_ok_def)
  have some: "callback_manager s \<noteq> None" using assms(1) by simp
  from display_results_ok [OF mok assms(3,4), of clock hex8 rest] some
  obtain s' new j cls kwA kwC where
    r: "display_results clock hex8 (Some (res # rest)) s = (None, s')"
    and ok: "step_ok s s' new"
    and em: "emits new = cls @ [(U ''on_analysis_complete'', kwA), (U ''on_conclusion'', kwC)]"
    and p: "map (\<lambda>(k, kw). (k, ?f kw)) cls = map (\<lambda>b. (?K, ?g b)) (boxes res)"
    and k: "map_of kwA ''total_detections'' = Some (VInt (int (length (boxes res))))"
      "map_of kwA ''malignant_count'' =
        Some (VInt (int (length (filter (\<lambda>b. box_conf b > 7/10) (boxes res)))))"
      "map_of kwA ''benign_count'' =
        Some (VInt (int (length (filter (\<lambda>b. \<not> box_conf b > 7/10) (boxes res)))))"
    by (auto simp only: if_False)
  from projection_split [OF p]
  have kinds: "map fst cls = replicate (length (boxes res)) ?K"
    and proj: "map ?f (map snd cls) = map ?g (boxes res)" by simp_all
  from kinds have len: "length cls = length (boxes res)"
    by (metis length_map length_replicate)
  have e1: "emitted ?K new = map snd cls"
    using replicate_kind_filter [OF kinds, of ?K]
    by (simp add: emitted_emits em)
  have e2: "emitted (U ''on_analysis_complete'') new = [kwA]"
    using replicate_kind_filter [OF kinds, of "U ''on_analysis_complete''"]
    by (simp add: emitted_emits em)
  have known: "filter (\<lambda>(k, kw). k \<in> set CALLBACK_TYPES) (emits new) = cls"
    using replicate_kind_known [OF kinds, of "set CALLBACK_TYPES"]
    by (simp add: em CALLBACK_TYPES_def)
  from ok some have "records s' = keep100 (records s @ cls)"
    by (simp add: step_ok_def known)
  also have "\<dots> = drop (length (records s) + length cls - 100) (records s) @ cls"
    using assms(5) len by (simp add: keep100_append_small)
  finally have rec: "recorded ?K (callback_manager s') =
      map snd (filter (\<lambda>(k, kw). k = ?K) (drop (length (records s) + length cls - 100) (records s))) @
      map snd cls"
    using replicate_kind_filter [OF kinds, of ?K] by (simp add: recorded_records)
  have eff: "effects s' = effects s @ new" using ok by (simp add: step_ok_def)
  show ?thesis
    apply (rule exI [of _ s'], rule exI [of _ new], rule exI [of _ kwA])
    apply (rule exI [of _ "map ?f (map snd (filter (\<lambda>(k, kw). k = ?K)
             (drop (length (records s) + length cls - 100) (records s))))"])
    using r eff e1 e2 proj rec k
    apply simp
    done
qed

lemma detection_events_example:
  "callback_manager \<lparr>callback_manager = Some (fst CallbackManager_init), detected_condition = None,
                     effects = [], triggers = 0, messages = []\<rparr> = Some (fst CallbackManager_init) \<and>
   well_formed (fst CallbackManager_init) \<and>
   list_all (\<lambda>b. box_cls b \<in> dom [0 \<mapsto> U ''tumor''])
     [\<lparr>box_cls = 0, box_conf = 0.3\<rparr>, \<lparr>box_cls = 0, box_conf = 0.85\<rparr>] \<and>
   (\<exists>s' new kwA older.
      display_results (\<lambda>n. 0) (U ''0a1b2c3d'')
        (Some [\<lparr>boxes = [\<lparr>box_cls = 0, box_conf = 0.3\<rparr>, \<lparr>box_cls = 0, box_conf = 0.85\<rparr>],
                names = [0 \<mapsto> U ''tumor'']\<rparr>])
        \<lparr>callback_manager = Some (fst CallbackManager_init), detected_condition = None,
         effects = [], triggers = 0, messages = []\<rparr> = (None, s') \<and>
      effects s' = new \<and>
      map (\<lambda>kw. (map_of kw ''confidence'', map_of kw ''is_malignant''))
          (emitted (U ''on_classification'') new) =
        [(Some (VFloat 0.3), Some (VBool False)), (Some (VFloat 0.85), Some (VBool True))] \<and>
      map (\<lambda>kw. (map_of kw ''confidence'', map_of kw ''is_malignant''))
          (recorded (U ''on_classification'') (callback_manager s')) =
        older @ [(Some (VFloat 0.3), Some (VBool False)), (Some (VFloat 0.85), Some (VBool True))] \<and>
      emitted (U ''on_analysis_complete'') new = [kwA] \<and>
      map_of kwA ''total_detections'' = Some (VInt 2) \<and>
      map_of kwA ''malignant_count'' = Some (VInt 1) \<and>
      map_of kwA ''benign_count'' = Some (VInt 1))"
proof -
  let ?s = "\<lparr>callback_manager = Some (fst CallbackManager_init), detected_condition = None,
            effects = [], triggers = 0, messages = []\<rparr>"
  let ?r = "\<lparr>boxes = [\<lparr>box_cls = 0, box_conf = 0.3\<rparr>, \<lparr>box_cls = 0, box_conf = 0.85\<rparr>],
            names = [0 \<mapsto> U ''tumor'']\<rparr>"
  let ?f = "\<lambda>kw. (map_of kw ''confidence'', map_of kw ''is_malignant'')"
  have h1: "callback_manager ?s = Some (fst CallbackManager_init)" by simp
  have h3: "\<forall>b \<in> set (boxes ?r). box_cls b \<in> dom (names ?r)" by simp
  have h4: "boxes ?r \<noteq> []" by simp
  have h5: "length (boxes ?r) \<le> 100" by simp
  from detection_events [OF h1 well_formed_init h3 h4 h5, of "\<lambda>n. 0" "U ''0a1b2c3d''" "[]"]
  obtain s' new kwA older where
    r: "display_results (\<lambda>n. 0) (U ''0a1b2c3d'') (Some [?r]) ?s = (None, s')"
    and e: "effects s' = effects ?s @ new"
    and c: "map ?f (emitted (U ''on_classification'') new) =
        map (\<lambda>b. (Some (VFloat (box_conf b)), Some (VBool (box_conf b > 0.70)))) (boxes ?r)"
    and h: "map ?f (recorded (U ''on_classification'') (callback_manager s')) =
        older @ map (\<lambda>b. (Some (VFloat (box_conf b)), Some (VBool (box_conf b > 0.70)))) (boxes ?r)"
    and a: "emitted (U ''on_analysis_complete'') new = [kwA]"
    and k: "map_of kwA ''total_detections'' = Some (VInt (int (length (boxes ?r))))"
      "map_of kwA ''malignant_count'' =
        Some (VInt (int (length (filter (\<lambda>b. box_conf b > 0.70) (boxes ?r)))))"
      "map_of kwA ''benign_count'' =
        Some (VInt (int (length (filter (\<lambda>b. \<not> box_conf b > 0.70) (boxes ?r)))))"
    by blast
  from h have h': "map ?f (recorded (U ''on_classification'') (callback_manager s')) =
        older @ [(Some (VFloat 0.3), Some (VBool False)), (Some (VFloat 0.85), Some (VBool True))]"
    by simp
  from e have e': "effects s' = new" by simp
  from c have c': "map ?f (emitted (U ''on_classification'') new) =
        [(Some (VFloat 0.3), Some (VBool False)), (Some (VFloat 0.85), Some (VBool True))]"
    by simp
  from k have k': "map_of kwA ''total_detections'' = Some (VInt 2)"
    "map_of kwA ''malignant_count'' = Some (VInt 1)" "map_of kwA ''benign_count'' = Some (VInt 1)"
    by simp_all
  have "\<exists>s' new kwA older.
      display_results (\<lambda>n. 0) (U ''0a1b2c3d'') (Some [?r]) ?s = (None, s') \<and>
      effects s' = new \<and>
      map ?f (emitted (U ''on_classification'') new) =
        [(Some (VFloat 0.3), Some (VBool False)), (Some (VFloat 0.85), Some (VBool True))] \<and>
      map ?f (recorded (U ''on_classification'') (callback_manager s')) =
        older @ [(Some (VFloat 0.3), Some (VBool False)), (Some (VFloat 0.85), Some (VBool True))] \<and>
      emitted (U ''on_analysis_complete'') new = [kwA] \<and>
      map_of kwA ''total_detections'' = Some (VInt 2) \<and>
      map_of kwA ''malignant_count'' = Some (VInt 1) \<and>
      map_of kwA ''benign_count'' = Some (VInt 1)"
    using r e' c' h' a k'
    by (intro exI [of _ s'] exI [of _ new] exI [of _ kwA] exI [of _ older] conjI)
  moreover have "list_all (\<lambda>b. box_cls b \<in> dom [0 \<mapsto> U ''tumor''])
     [\<lparr>box_cls = 0, box_conf = 0.3\<rparr>, \<lparr>box_cls = 0, box_conf = 0.85\<rparr>]"
    by simp
  ultimately show ?thesis using h1 well_formed_init by (intro conjI)
qed

text \<open>
  C6. Every per-box classification and every completed analysis is to leave an event
  in the callback manager, the latter with the counts. On a detection result with
  confidences 0.3 and 0.85 and a manager fresh from its constructor, the run leaves the
  two classification events in the history and no analysis-complete event:
  \<open>display_results\<close> does call \<open>trigger\<close> with the kind \<open>on_analysis_complete\<close> and the
  counts, but that kind is not in \<open>CALLBACK_TYPES\<close>, so \<open>trigger\<close> drops the call with
  a warning.
\<close>

theorem analysis_complete_event_dropped:
  "map ev_type (history (the (callback_manager (snd (display_results (\<lambda>n. 0) (U ''0a1b2c3d'')
         (Some [\<lparr>boxes = [\<lparr>box_cls = 0, box_conf = 0.3\<rparr>, \<lparr>box_cls = 0, box_conf = 0.85\<rparr>],
                 names = [0 \<mapsto> U ''tumor'']\<rparr>])
         \<lparr>callback_manager = Some (fst CallbackManager_init), detected_condition = None,
          effects = [], triggers = 0, messages = []\<rparr>))))) =
     [U ''on_classification'', U ''on_classification''] \<and>
   recorded (U ''on_analysis_complete'') (callback_manager (snd (display_results (\<lambda>n. 0) (U ''0a1b2c3d'')
         (Some [\<lparr>boxes = [\<lparr>box_cls = 0, box_conf = 0.3\<rparr>, \<lparr>box_cls = 0, box_conf = 0.85\<rparr>],
                 names = [0 \<mapsto> U ''tumor'']\<rparr>])
         \<lparr>callback_manager = Some (fst CallbackManager_init), detected_condition = None,
          effects = [], triggers = 0, messages = []\<rparr>))) = []"
  by (simp add: display_results_def show_detections_def show_conclusion_def emit_def trigger_def
      CallbackManager_init_def CALLBACK_TYPES_def argmax_def index_def Let_def show_ui_def
      MALIGNANCY_THRESHOLD_def recorded_def)

section \<open>Properties of the knowledge retrieval\<close>

text \<open>
  C3. A knowledge base shorter than 1000 characters is returned as it is, whatever the
  query and the language. Otherwise the result is never longer than 1500 characters
  plus the three dots: it is the combined segments when they have at most 1500
  characters, and their first 1500 characters followed by the dots when they have more.
\<close>

theorem knowledge_excerpt_bounded:
  "(length knowledge_base < 1000 \<longrightarrow>
      extract_relevant_knowledge u query knowledge_base language = knowledge_base) \<and>
   (\<not> length knowledge_base < 1000 \<longrightarrow>
      length (extract_relevant_knowledge u query knowledge_base language) \<le> 1500 + length (U ''...'') \<and>
      extract_relevant_knowledge u query knowledge_base language =
        (if length (combined_segments u query knowledge_base language) > 1500
         then take 1500 (combined_segments u query knowledge_base language) @ U ''...''
         else combined_segments u query knowledge_base language))"
  by (simp add: extract_relevant_knowledge_def Let_def)

lemma scan_no_newline:
  "10 \<notin> set s \<Longrightarrow> scan u no_flags blank_line p pending s = ([], pending @ s)"
proof (induction s arbitrary: p pending)
  case Nil
  then show ?case
    by (simp add: match_length_def blank_line_def seq_def)
next
  case (Cons x s)
  then have "match_length u no_flags blank_line (p, x # s) = None"
    by (simp add: match_length_def blank_line_def seq_def no_flags_def)
  with Cons show ?case by simp
qed

lemma startswith_replicate:
  "c \<noteq> a \<Longrightarrow> \<not> startswith (replicate n a) (c # w)"
  by (cases n) simp_all

lemma contains_replicate:
  "c \<noteq> a \<Longrightarrow> \<not> contains (replicate n a) (c # w)"
  by (induction n) (simp_all add: startswith_replicate)

lemma combined_segments_single_paragraph:
  "combined_segments latin_arabic (U ''test'') (replicate 1600 97) (U ''fr'') = replicate 1600 97"
proof -
  have split: "re_split latin_arabic no_flags blank_line (replicate 1600 97) = [replicate 1600 97]"
    by (simp add: re_split_def scan_no_newline)
  have low: "lower latin_arabic (replicate 1600 97) = replicate 1600 97"
    by (simp add: latin_arabic_def lower_char_def)
  have kw: "topic_keywords (U ''fr'') (lower latin_arabic (U ''test'')) \<noteq> []"
    by (simp add: topic_keywords_def any_in_def latin_arabic_def lower_char_def U_def)
  have none: "\<not> any_in (topic_keywords (U ''fr'') (lower latin_arabic (U ''test''))) (replicate 1600 97)"
    by (simp add: topic_keywords_def any_in_def latin_arabic_def lower_char_def U_def contains_replicate)
  show ?thesis
    using kw none by (simp add: combined_segments_def Let_def split low)
qed

theorem knowledge_excerpt_bounded_witness:
  "length (U ''Le cancer du sein.'') < 1000 \<and>
   extract_relevant_knowledge latin_arabic (U ''test'') (U ''Le cancer du sein.'') (U ''fr'') =
     U ''Le cancer du sein.'' \<and>
   \<not> length (replicate 1600 (97::nat)) < 1000 \<and>
   extract_relevant_knowledge latin_arabic (U ''test'') (replicate 1600 97) (U ''fr'') =
     replicate 1500 97 @ U ''...''"
proof -
  have short: "length (U ''Le cancer du sein.'') < 1000" by (simp add: U_def)
  have long: "\<not> length (replicate 1600 (97::nat)) < 1000" by simp
  from knowledge_excerpt_bounded [of "U ''Le cancer du sein.''" latin_arabic "U ''test''" "U ''fr''"] short
  have a: "extract_relevant_knowledge latin_arabic (U ''test'') (U ''Le cancer du sein.'') (U ''fr'') =
     U ''Le cancer du sein.''" by simp
  from knowledge_excerpt_bounded [of "replicate 1600 97" latin_arabic "U ''test''" "U ''fr''"] long
  have b: "extract_relevant_knowledge latin_arabic (U ''test'') (replicate 1600 97) (U ''fr'') =
     replicate 1500 97 @ U ''...''"
    by (simp add: combined_segments_single_paragraph)
  from short a long b show ?thesis by (intro conjI)
qed

section \<open>Properties of the response curator\<close>

text \<open>The definitions that evaluate the regular expressions on a given text.\<close>

lemmas regex_eval =
  U_def lit_def seq_def re_sub_def re_split_def re_findall_def re_search_def
  match_length_def no_flags_def IGNORECASE_def DOTALL_IGNORECASE_def
  latin_arabic_def lower_char_def space_char_def word_char_def ignorecase_char_def
  at_word_boundary_def blank_line_def word_pattern_def politeness_pattern_def strip_def

text \<open>
  The two blocks of substitutions of \<open>clean_llama_response\<close> are the lists
  \<open>leak_substitutions\<close> and \<open>closing_substitutions\<close>, applied in order.
\<close>

lemma strip_leaks_substitutions:
  "strip_leaks u answer = substitute_all u leak_substitutions answer"
  by (simp add: strip_leaks_def leak_substitutions_def substitute_all_def Let_def)

lemma strip_closings_substitutions:
  "strip_closings u answer = substitute_all u closing_substitutions answer"
  by (simp add: strip_closings_def closing_substitutions_def substitute_all_def Let_def)

lemma scan_no_match:
  "fst (scan u fl r p pending s) = [] \<Longrightarrow> snd (scan u fl r p pending s) = pending @ s"
proof (induction u fl r p pending s rule: scan.induct)
  case (1 u fl r p pending)
  then show ?case by (simp split: option.splits)
next
  case (2 u fl r p pending x xs)
  then show ?case
    by (simp split: option.splits if_splits prod.splits)
qed

lemma re_sub_no_match: "\<not> re_search u fl r s \<Longrightarrow> re_sub u fl r repl s = s"
  using scan_no_match [of u fl r None "[]" s]
  by (cases "scan u fl r None [] s") (simp add: re_search_def re_sub_def)

lemma re_split_no_match: "\<not> re_search u fl r s \<Longrightarrow> re_split u fl r s = [s]"
  using scan_no_match [of u fl r None "[]" s]
  by (cases "scan u fl r None [] s") (simp add: re_search_def re_split_def)

lemma substitute_all_untouched:
  "untouched u subs text \<Longrightarrow> substitute_all u subs text = text"
  by (induction subs) (auto simp: untouched_def substitute_all_def re_sub_no_match)

lemma replace_absent: "\<not> contains s old \<Longrightarrow> replace s old new = s"
  by (induction s old new rule: replace.induct) auto

lemma remove_absent_terms:
  "list_all (\<lambda>term. \<not> contains text term) terms \<Longrightarrow>
   foldl (\<lambda>answer term. replace answer term []) text terms = text"
  by (induction terms) (simp_all add: replace_absent)

lemma set_insert_by_score: "set (insert_by_score x ys) = insert x (set ys)"
  by (induction ys) auto

lemma length_insert_by_score: "length (insert_by_score x ys) = Suc (length ys)"
  by (induction ys) auto

lemma sort_by_score_foldl:
  "set (foldl (\<lambda>sorted x. insert_by_score x sorted) acc xs) = set acc \<union> set xs \<and>
   length (foldl (\<lambda>sorted x. insert_by_score x sorted) acc xs) = length acc + length xs"
  by (induction xs arbitrary: acc) (simp_all add: set_insert_by_score length_insert_by_score)

lemma set_sort_by_score: "set (sort_by_score xs) = set xs"
  and length_sort_by_score: "length (sort_by_score xs) = length xs"
  using sort_by_score_foldl [of "[]" xs] by (simp_all add: sort_by_score_def)

lemma scored_paragraphs_fst:
  "map fst (map (\<lambda>(i, para). (para, f i para)) (zip [0 ..< length ps] ps)) = ps"
proof -
  have "fst \<circ> (\<lambda>(i, para). (para, f i para)) = snd"
    by (auto simp: fun_eq_iff)
  then show ?thesis by simp
qed

lemma keep_whole_paragraphs:
  assumes "whole_paragraphs u body" "length (re_split u no_flags blank_line body) \<le> 4"
  shows "keep_relevant_paragraphs u body query = Inr body"
proof -
  define ps where "ps = re_split u no_flags blank_line body"
  from assms have len: "length ps \<le> 4"
    and each: "\<forall>p \<in> set ps. strip u p = p \<and> 20 < length p"
    and whole: "join (U ''\<newline>\<newline>'') ps = body"
    by (simp_all add: whole_paragraphs_def Let_def ps_def list_all_iff)
  have kept: "map (strip u) (filter (\<lambda>p. length (strip u p) > 20) ps) = ps"
  proof -
    from each have "filter (\<lambda>p. length (strip u p) > 20) ps = ps"
      by (simp add: filter_id_conv)
    moreover from each have "map (strip u) ps = ps"
      by (simp add: map_idI)
    ultimately show ?thesis by simp
  qed
  define significant_words where "significant_words =
      filter (\<lambda>word. length word > 3) (remdups (re_findall u no_flags word_pattern (lower u query)))"
  define scored where "scored =
      map (\<lambda>(i, para). (para, paragraph_score u significant_words i para)) (zip [0 ..< length ps] ps)"
  have f: "map fst scored = ps"
    unfolding scored_def by (rule scored_paragraphs_fst)
  then have "length scored = length ps"
    by (metis length_map)
  with len have "take 4 (sort_by_score scored) = sort_by_score scored"
    by (simp add: length_sort_by_score)
  then have best: "set (map fst (take 4 (sort_by_score scored))) = set ps"
    using f by (simp add: set_sort_by_score) (metis set_map)
  have ordered: "filter (\<lambda>p. p \<in> set (map fst (take 4 (sort_by_score scored)))) ps = ps"
    by (simp only: best) simp
  show ?thesis
    unfolding keep_relevant_paragraphs_def Let_def
    unfolding ps_def [symmetric] kept significant_words_def [symmetric] scored_def [symmetric]
    by (simp only: ordered) (simp add: whole)
qed

lemma clean_text_unchanged:
  assumes "already_clean u body query"
    "query = [] \<or> length (re_split u no_flags blank_line body) \<le> 4"
  shows "clean_llama_response u body query = Inr body"
proof -
  from assms(1) have len: "\<not> length body < 10" "body \<noteq> []"
    and leaks: "untouched u leak_substitutions body"
    and terms: "list_all (\<lambda>term. \<not> contains body term) incorrect_terms"
    and paragraphs: "query = [] \<or> whole_paragraphs u body"
    and closings: "untouched u closing_substitutions body"
    and stripped: "strip u body = body"
    by (auto simp: already_clean_def)
  have a: "strip_leaks u body = body"
    using leaks by (simp add: strip_leaks_substitutions substitute_all_untouched)
  have b: "remove_incorrect_terms body = body"
    using terms by (simp add: remove_incorrect_terms_def remove_absent_terms)
  have c: "query \<noteq> [] \<Longrightarrow> keep_relevant_paragraphs u body query = Inr body"
    using paragraphs assms(2) by (auto simp: keep_whole_paragraphs)
  have d: "strip_closings u body = body"
    using closings by (simp add: strip_closings_substitutions substitute_all_untouched)
  show ?thesis
    using len
    by (cases "query = []") (simp_all add: clean_llama_response_def Let_def a b c d stripped)
qed

text \<open>
  A match takes at least \<open>minlen\<close> characters, and the text is the matches of a scan
  with what lies between and after them. So a substitution by a replacement shorter
  than every match leaves the length of a text as it is only where it has no match.
\<close>

lemma star_greedy_shorter: "e \<in> set (star_greedy P p xs) \<Longrightarrow> length (snd e) \<le> length xs"
  by (induction xs arbitrary: p) (force split: if_splits)+

lemma star_lazy_shorter: "e \<in> set (star_lazy P p xs) \<Longrightarrow> length (snd e) \<le> length xs"
  by (induction xs arbitrary: p) (force split: if_splits)+

lemma rmatch_shorter:
  "e \<in> set (rmatch u fl r s) \<Longrightarrow> length (snd e) + minlen r \<le> length (snd s)"
proof (induction r arbitrary: s e)
  case (Atom a)
  then show ?case by (cases "snd s") (auto split: if_splits)
next
  case (Seq a b)
  then obtain s' where "s' \<in> set (rmatch u fl a s)" "e \<in> set (rmatch u fl b s')"
    by auto
  with Seq.IH [of s' s] Seq.IH(2) [of e s'] show ?case by fastforce
next
  case (Alt a b)
  then show ?case by fastforce
next
  case (Star a)
  then show ?case using star_greedy_shorter by fastforce
next
  case (StarLazy a)
  then show ?case using star_lazy_shorter by fastforce
qed (auto split: if_splits)

lemma match_length_bounds:
  "match_length u fl r s = Some n \<Longrightarrow> minlen r \<le> n \<and> n \<le> length (snd s)"
proof -
  assume a: "match_length u fl r s = Some n"
  then obtain e es where r: "rmatch u fl r s = e # es" and n: "n = length (snd s) - length (snd e)"
    by (auto simp: match_length_def split: list.splits)
  from r have "e \<in> set (rmatch u fl r s)" by simp
  from rmatch_shorter [OF this] n show ?thesis by simp
qed

lemma scan_whole:
  "scan u fl r p pending s = (ms, rest) \<Longrightarrow>
   pending @ s = concat (map (\<lambda>(before, m). before @ m) ms) @ rest"
proof (induction u fl r p pending s arbitrary: ms rest rule: scan.induct)
  case (1 u fl r p pending)
  then show ?case by (auto split: option.splits)
next
  case (2 u fl r p pending x xs)
  show ?case
  proof (cases "match_length u fl r (p, x # xs)")
    case None
    with 2 show ?thesis by simp
  next
    case (Some n)
    show ?thesis
    proof (cases "n = 0")
      case True
      with Some 2(2,4) obtain ms' where s: "scan u fl r (Some x) [x] xs = (ms', rest)"
        and m: "ms = (pending, []) # ms'"
        by (auto split: prod.splits)
      from 2(2) [OF Some True s] m show ?thesis by simp
    next
      case False
      with Some 2(4) obtain ms' where
        s: "scan u fl r (Some ((x # xs) ! (n - 1))) [] (drop (n - 1) xs) = (ms', rest)"
        and m: "ms = (pending, take n (x # xs)) # ms'"
        by (auto split: prod.splits)
      from 2(3) [OF Some False s] have "drop (n - 1) xs = concat (map (\<lambda>(before, m). before @ m) ms') @ rest"
        by simp
      moreover from False have "take n (x # xs) @ drop (n - 1) xs = x # xs"
        by (cases n) simp_all
      ultimately show ?thesis using m by (metis (no_types, lifting) append.assoc concat.simps(2) list.simps(9) case_prod_conv)
    qed
  qed
qed

lemma scan_matches:
  "scan u fl r p pending s = (ms, rest) \<Longrightarrow> (b, m) \<in> set ms \<Longrightarrow> minlen r \<le> length m"
proof (induction u fl r p pending s arbitrary: ms rest rule: scan.induct)
  case (1 u fl r p pending)
  then show ?case
    using match_length_bounds [of u fl r "(p, [])"]
    by (auto split: option.splits)
next
  case (2 u fl r p pending x xs)
  show ?case
  proof (cases "match_length u fl r (p, x # xs)")
    case None
    with 2 show ?thesis by simp
  next
    case (Some n)
    note bounds = match_length_bounds [OF Some]
    show ?thesis
    proof (cases "n = 0")
      case True
      with Some 2(2,4) obtain ms' where s: "scan u fl r (Some x) [x] xs = (ms', rest)"
        and m: "ms = (pending, []) # ms'"
        by (auto split: prod.splits)
      from 2(2) [OF Some True s] m 2(5) bounds True show ?thesis by auto
    next
      case False
      with Some 2(4) obtain ms' where
        s: "scan u fl r (Some ((x # xs) ! (n - 1))) [] (drop (n - 1) xs) = (ms', rest)"
        and m: "ms = (pending, take n (x # xs)) # ms'"
        by (auto split: prod.splits)
      from bounds have "length (take n (x # xs)) = n" by simp
      with 2(3) [OF Some False s] m 2(5) bounds show ?thesis by auto
    qed
  qed
qed

lemma replaced_shorter:
  assumes "\<forall>(b, m) \<in> set ms. length repl < length m"
  shows "length (concat (map (\<lambda>(before, m). before @ repl) ms)) \<le>
           length (concat (map (\<lambda>(before, m). before @ m) ms)) \<and>
         (ms \<noteq> [] \<longrightarrow>
          length (concat (map (\<lambda>(before, m). before @ repl) ms)) <
            length (concat (map (\<lambda>(before, m). before @ m) ms)))"
  using assms by (induction ms) auto

lemma re_sub_length:
  assumes "length repl < minlen r"
  shows "length (re_sub u fl r repl s) \<le> length s"
    and "length (re_sub u fl r repl s) = length s \<Longrightarrow> \<not> re_search u fl r s"
proof -
  obtain ms rest where sc: "scan u fl r None [] s = (ms, rest)"
    by (cases "scan u fl r None [] s") auto
  from scan_whole [OF sc] have whole: "s = concat (map (\<lambda>(before, m). before @ m) ms) @ rest"
    by simp
  have "\<forall>(b, m) \<in> set ms. length repl < length m"
    using scan_matches [OF sc] assms by fastforce
  note sh = replaced_shorter [OF this]
  have sub: "re_sub u fl r repl s = concat (map (\<lambda>(before, m). before @ repl) ms) @ rest"
    by (simp add: re_sub_def sc)
  have len: "length s = length (concat (map (\<lambda>(before, m). before @ m) ms)) + length rest"
    by (subst whole) (simp only: length_append)
  from sh sub len show "length (re_sub u fl r repl s) \<le> length s"
    by simp
  show "\<not> re_search u fl r s" if "length (re_sub u fl r repl s) = length s"
  proof -
    from that sh sub len have "ms = []"
      by (cases "ms = []") simp_all
    then show ?thesis by (simp add: re_search_def sc)
  qed
qed

lemma substitute_all_Cons:
  "substitute_all u ((fl, r, repl) # subs) body = substitute_all u subs (re_sub u fl r repl body)"
  by (simp add: substitute_all_def)

lemma substitute_all_length:
  assumes "list_all (\<lambda>(fl, r, repl). length repl < minlen r) subs"
  shows "length (substitute_all u subs body) \<le> length body \<and>
         (length (substitute_all u subs body) = length body \<longrightarrow> untouched u subs body)"
  using assms
proof (induction subs arbitrary: body)
  case Nil
  then show ?case by (simp add: substitute_all_def untouched_def)
next
  case (Cons sub subs)
  obtain fl r repl where sub: "sub = (fl, r, repl)" by (cases sub) auto
  from Cons.prems sub have short: "length repl < minlen r"
    and rest: "list_all (\<lambda>(fl, r, repl). length repl < minlen r) subs"
    by simp_all
  let ?t = "re_sub u fl r repl body"
  note ih = Cons.IH [OF rest, of ?t]
  note one = re_sub_length [OF short, of u fl body]
  have le: "length (substitute_all u (sub # subs) body) \<le> length body"
    using ih one(1) by (simp add: sub substitute_all_Cons)
  have "untouched u (sub # subs) body"
    if eq: "length (substitute_all u (sub # subs) body) = length body"
  proof -
    from eq ih one(1) have e1: "length ?t = length body"
      and e2: "length (substitute_all u subs ?t) = length ?t"
      by (simp_all add: sub substitute_all_Cons)
    from one(2) [OF e1] have no: "\<not> re_search u fl r body" .
    then have "?t = body" by (rule re_sub_no_match)
    with ih e2 have "untouched u subs body" by simp
    with no show ?thesis by (simp add: untouched_def sub)
  qed
  with le show ?case by blast
qed

lemma replace_length:
  assumes "old \<noteq> []"
  shows "length (replace s old []) \<le> length s \<and>
         (length (replace s old []) = length s \<longrightarrow> \<not> contains s old)"
  using assms
proof (induction s old "[] :: ustring" rule: replace.induct)
  case (1 old)
  then show ?case by simp
next
  case (2 x s old)
  show ?case
  proof (cases "startswith (x # s) old")
    case True
    with 2 have "length (replace (drop (length old - 1) s) old []) \<le> length (drop (length old - 1) s)"
      by simp
    then have "length (replace (drop (length old - 1) s) old []) \<le> length s"
      by (simp add: le_diff_conv)
    with True 2(3) show ?thesis by simp
  next
    case False
    with 2 show ?thesis by simp
  qed
qed

lemma remove_terms_length:
  assumes "list_all (\<lambda>term. term \<noteq> []) terms"
  shows "length (foldl (\<lambda>answer term. replace answer term []) body terms) \<le> length body \<and>
         (length (foldl (\<lambda>answer term. replace answer term []) body terms) = length body \<longrightarrow>
          list_all (\<lambda>term. \<not> contains body term) terms)"
  using assms
proof (induction terms arbitrary: body)
  case Nil
  then show ?case by simp
next
  case (Cons t terms)
  from Cons.prems have t: "t \<noteq> []" and rest: "list_all (\<lambda>term. term \<noteq> []) terms"
    by simp_all
  let ?s = "replace body t []"
  note ih = Cons.IH [OF rest, of ?s]
  note one = replace_length [OF t, of body]
  have le: "length (foldl (\<lambda>answer term. replace answer term []) body (t # terms)) \<le> length body"
    using ih one by simp
  have "list_all (\<lambda>term. \<not> contains body term) (t # terms)"
    if eq: "length (foldl (\<lambda>answer term. replace answer term []) body (t # terms)) = length body"
  proof -
    from eq ih one have e1: "length ?s = length body"
      and e2: "length (foldl (\<lambda>answer term. replace answer term []) ?s terms) = length ?s"
      by simp_all
    from one e1 have no: "\<not> contains body t" by simp
    then have "?s = body" by (rule replace_absent)
    with ih e2 have "list_all (\<lambda>term. \<not> contains body term) terms" by simp
    with no show ?thesis by simp
  qed
  with le show ?case by blast
qed

lemma dropWhile_length:
  assumes "length (dropWhile P xs) = length xs"
  shows "dropWhile P xs = xs"
proof -
  have "length (takeWhile P xs) + length (dropWhile P xs) = length xs"
    by (metis length_append takeWhile_dropWhile_id)
  with assms have "takeWhile P xs = []" by simp
  then show ?thesis
    by (metis append_Nil takeWhile_dropWhile_id)
qed

lemma strip_length:
  "length (strip u s) \<le> length s"
  "length (strip u s) = length s \<Longrightarrow> strip u s = s"
proof -
  have a: "length (dropWhile (isspace u) s) \<le> length s"
    by (rule length_dropWhile_le)
  have b: "length (dropWhile (isspace u) (rev (dropWhile (isspace u) s))) \<le>
           length (dropWhile (isspace u) s)"
    using length_dropWhile_le [of "isspace u" "rev (dropWhile (isspace u) s)"] by simp
  from a b show "length (strip u s) \<le> length s"
    by (simp add: strip_def)
  assume "length (strip u s) = length s"
  with a b have e1: "length (dropWhile (isspace u) s) = length s"
    and e2: "length (dropWhile (isspace u) (rev (dropWhile (isspace u) s))) =
             length (rev (dropWhile (isspace u) s))"
    by (simp_all add: strip_def)
  from e1 have "dropWhile (isspace u) s = s" by (rule dropWhile_length)
  moreover from e2 have "dropWhile (isspace u) (rev (dropWhile (isspace u) s)) =
      rev (dropWhile (isspace u) s)" by (rule dropWhile_length)
  ultimately show "strip u s = s"
    by (simp add: strip_def)
qed

text \<open>
  The paragraphs kept are never longer than the text, and as long only if every
  paragraph is kept as it is. The test of line 104 never holds: of the paragraphs of
  more than 20 characters the best one is always kept.
\<close>

lemma length_join:
  "length (join sep xs) = sum_list (map length xs) + length sep * (length xs - 1)"
  by (induction sep xs rule: join.induct) simp_all

lemma filter_all: "length (filter P xs) = length xs \<Longrightarrow> filter P xs = xs"
  by (metis filter_id_conv length_filter_less less_irrefl)

lemma sum_filter_le: "sum_list (map f (filter P xs)) \<le> (sum_list (map f xs) :: nat)"
  by (induction xs) simp_all

lemma sum_pointwise:
  "\<forall>x \<in> set xs. f x \<le> (g x :: nat) \<Longrightarrow> sum_list (map f xs) \<le> sum_list (map g xs)"
  "\<forall>x \<in> set xs. f x \<le> (g x :: nat) \<Longrightarrow> sum_list (map f xs) = sum_list (map g xs) \<Longrightarrow>
   \<forall>x \<in> set xs. f x = g x"
proof -
  show le: "sum_list (map f xs) \<le> sum_list (map g xs)" if "\<forall>x \<in> set xs. f x \<le> g x" for xs
    using that by (induction xs) (simp_all add: add_mono)
  show "\<forall>x \<in> set xs. f x = g x"
    if "\<forall>x \<in> set xs. f x \<le> g x" "sum_list (map f xs) = sum_list (map g xs)"
    using that
  proof (induction xs)
    case Nil
    then show ?case by simp
  next
    case (Cons x xs)
    from Cons.prems(1) have a: "f x \<le> g x" and b: "\<forall>x \<in> set xs. f x \<le> g x" by simp_all
    from le [OF b] a Cons.prems(2) have "f x = g x" "sum_list (map f xs) = sum_list (map g xs)"
      by simp_all
    with Cons.IH [OF b] show ?case by simp
  qed
qed

lemma separators_length:
  "\<forall>(b, m) \<in> set ms. 2 \<le> length m \<Longrightarrow>
   sum_list (map length (map fst ms)) + 2 * length ms \<le>
     length (concat (map (\<lambda>(before, m). before @ m) ms))"
  by (induction ms) auto

lemma minlen_blank_line: "minlen blank_line = 2"
  by (simp add: blank_line_def seq_def)

lemma re_split_length:
  "re_split u no_flags blank_line body \<noteq> [] \<and>
   sum_list (map length (re_split u no_flags blank_line body)) +
     2 * (length (re_split u no_flags blank_line body) - 1) \<le> length body"
proof -
  obtain ms rest where sc: "scan u no_flags blank_line None [] body = (ms, rest)"
    by (cases "scan u no_flags blank_line None [] body") auto
  from scan_whole [OF sc] have whole: "body = concat (map (\<lambda>(before, m). before @ m) ms) @ rest"
    by simp
  have "\<forall>(b, m) \<in> set ms. 2 \<le> length m"
    using scan_matches [OF sc] by (fastforce simp: minlen_blank_line)
  note sep = separators_length [OF this]
  have ps: "re_split u no_flags blank_line body = map fst ms @ [rest]"
    by (simp add: re_split_def sc)
  have "length body = length (concat (map (\<lambda>(before, m). before @ m) ms)) + length rest"
    by (subst whole) (simp only: length_append)
  with sep show ?thesis
    by (simp add: ps)
qed

lemma best_paragraph_kept:
  assumes "map fst scored = qs" "qs \<noteq> []"
  shows "filter (\<lambda>p. p \<in> set (map fst (take 4 (sort_by_score scored)))) qs \<noteq> []"
proof -
  from assms have "scored \<noteq> []" by auto
  then have "sort_by_score scored \<noteq> []"
    using length_sort_by_score [of scored] by auto
  then obtain x xs where s: "sort_by_score scored = x # xs"
    by (cases "sort_by_score scored") auto
  then have "x \<in> set scored"
    using set_sort_by_score [of scored] by auto
  with assms(1) have "fst x \<in> set qs" by force
  moreover from s have "fst x \<in> set (map fst (take 4 (sort_by_score scored)))" by simp
  ultimately show ?thesis
    by (auto simp: filter_empty_conv)
qed

lemma kept_paragraphs_length:
  assumes "keep_relevant_paragraphs u body query = Inr kept"
  shows "length kept \<le> length body"
    and "body \<noteq> [] \<Longrightarrow> length kept = length body \<Longrightarrow>
         kept = join (U ''\<newline>\<newline>'') (re_split u no_flags blank_line body) \<and>
         list_all (\<lambda>p. strip u p = p \<and> 20 < length p) (re_split u no_flags blank_line body)"
proof -
  define ps where "ps = re_split u no_flags blank_line body"
  define qs where "qs = map (strip u) (filter (\<lambda>p. length (strip u p) > 20) ps)"
  define significant_words where "significant_words =
      filter (\<lambda>word. length word > 3) (remdups (re_findall u no_flags word_pattern (lower u query)))"
  define scored where "scored =
      map (\<lambda>(i, para). (para, paragraph_score u significant_words i para)) (zip [0 ..< length qs] qs)"
  define os where "os = filter (\<lambda>p. p \<in> set (map fst (take 4 (sort_by_score scored)))) qs"
  have f: "map fst scored = qs"
    unfolding scored_def by (rule scored_paragraphs_fst)
  have dead: "\<not> (os = [] \<and> qs \<noteq> [])"
    using best_paragraph_kept [OF f] by (auto simp: os_def)
  have "keep_relevant_paragraphs u body query = Inr (join (U ''\<newline>\<newline>'') os)"
    unfolding keep_relevant_paragraphs_def Let_def
    unfolding ps_def [symmetric] qs_def [symmetric] significant_words_def [symmetric]
      scored_def [symmetric] os_def [symmetric]
    using dead by (simp only: if_False)
  with assms have k: "kept = join (U ''\<newline>\<newline>'') os" by simp
  have lk: "length kept = sum_list (map length os) + 2 * (length os - 1)"
    by (simp add: k length_join) (simp add: U_def)
  have s1: "sum_list (map length os) \<le> sum_list (map length qs)"
    unfolding os_def by (rule sum_filter_le)
  have l1: "length os \<le> length qs"
    by (simp add: os_def)
  have s2a: "sum_list (map length qs) \<le>
             sum_list (map length (filter (\<lambda>p. length (strip u p) > 20) ps))"
    unfolding qs_def map_map
    by (rule sum_pointwise(1)) (simp add: strip_length(1))
  have s2b: "sum_list (map length (filter (\<lambda>p. length (strip u p) > 20) ps)) \<le>
             sum_list (map length ps)"
    by (rule sum_filter_le)
  have l2: "length qs \<le> length ps"
    by (simp add: qs_def)
  from re_split_length [of u body]
  have ne: "ps \<noteq> []" and total: "sum_list (map length ps) + 2 * (length ps - 1) \<le> length body"
    by (simp_all add: ps_def)
  from lk s1 l1 s2a s2b l2 total show "length kept \<le> length body"
    by arith
  show "kept = join (U ''\<newline>\<newline>'') (re_split u no_flags blank_line body) \<and>
        list_all (\<lambda>p. strip u p = p \<and> 20 < length p) (re_split u no_flags blank_line body)"
    if "body \<noteq> []" and eq: "length kept = length body"
  proof -
    have "os \<noteq> []"
      using that by (auto simp: k)
    then have "1 \<le> length os"
      by (cases os) simp_all
    with eq lk s1 l1 s2a s2b l2 total
    have e1: "length os = length qs" and e2: "length qs = length ps"
      and e3: "sum_list (map length qs) =
               sum_list (map length (filter (\<lambda>p. length (strip u p) > 20) ps))"
      by arith+
    from e2 have "length (filter (\<lambda>p. length (strip u p) > 20) ps) = length ps"
      by (simp add: qs_def)
    then have all: "filter (\<lambda>p. length (strip u p) > 20) ps = ps"
      by (rule filter_all)
    then have long: "\<forall>p \<in> set ps. length (strip u p) > 20"
      by (simp add: filter_id_conv)
    from e3 have "sum_list (map (\<lambda>p. length (strip u p)) ps) = sum_list (map length ps)"
      by (simp add: qs_def all comp_def)
    moreover have "\<forall>p \<in> set ps. length (strip u p) \<le> length p"
      by (simp add: strip_length(1))
    ultimately have "\<forall>p \<in> set ps. length (strip u p) = length p"
      by (rule sum_pointwise(2) [rotated])
    then have stripped: "\<forall>p \<in> set ps. strip u p = p"
      by (auto intro: strip_length(2))
    then have "qs = ps"
      by (simp add: qs_def all map_idI)
    moreover from e1 have "os = qs"
      unfolding os_def by (rule filter_all)
    ultimately have "kept = join (U ''\<newline>\<newline>'') ps"
      by (simp add: k)
    moreover from long stripped have "list_all (\<lambda>p. strip u p = p \<and> 20 < length p) ps"
      by (simp add: list_all_iff)
    ultimately show ?thesis
      by (simp add: ps_def)
  qed
qed

lemma substitutions_shorten:
  "list_all (\<lambda>(fl, r, repl). length repl < minlen r) leak_substitutions"
  "list_all (\<lambda>(fl, r, repl). length repl < minlen r) closing_substitutions"
  by (simp_all add: leak_substitutions_def closing_substitutions_def lit_def seq_def U_def)

lemma incorrect_terms_not_empty: "list_all (\<lambda>term. term \<noteq> []) incorrect_terms"
  by (simp add: incorrect_terms_def U_def)

lemma unchanged_text_is_clean:
  assumes "clean_llama_response u body query = Inr body"
  shows "already_clean u body query"
proof -
  have long: "\<not> (body = [] \<or> length body < 10)"
  proof
    assume "body = [] \<or> length body < 10"
    with assms have "body = incomplete_answer"
      by (simp add: clean_llama_response_def)
    moreover have "\<not> (incomplete_answer = [] \<or> length incomplete_answer < 10)"
      by (simp add: incomplete_answer_def U_def)
    ultimately show False
      using \<open>body = [] \<or> length body < 10\<close> by simp
  qed
  define t1 where "t1 = strip_leaks u body"
  define t2 where "t2 = remove_incorrect_terms t1"
  have "clean_llama_response u body query =
      (case (if query \<noteq> [] then keep_relevant_paragraphs u t2 query else Inr t2) of
         Inl e \<Rightarrow> Inl e
       | Inr answer \<Rightarrow> Inr (strip u (strip_closings u answer)))"
    using long by (simp add: clean_llama_response_def Let_def t1_def t2_def)
  with assms obtain k where
    k: "(if query \<noteq> [] then keep_relevant_paragraphs u t2 query else Inr t2) = Inr k"
    and fin: "strip u (strip_closings u k) = body"
    by (auto split: sum.splits)
  note a1 = substitute_all_length [OF substitutions_shorten(1), of u body]
  note a2 = remove_terms_length [OF incorrect_terms_not_empty, of t1]
  have a3: "length k \<le> length t2"
    using k kept_paragraphs_length(1) [of u t2 query k] by (cases "query = []") simp_all
  note a4 = substitute_all_length [OF substitutions_shorten(2), of u k]
  note a5 = strip_length [of u "strip_closings u k"]
  have chain: "length body \<le> length (strip_closings u k)" "length (strip_closings u k) \<le> length k"
    "length k \<le> length t2" "length t2 \<le> length t1" "length t1 \<le> length body"
    using a1 a2 a3 a4 a5(1) fin
    by (simp_all add: t1_def t2_def strip_leaks_substitutions strip_closings_substitutions
        remove_incorrect_terms_def)
  then have e1: "length t1 = length body" and e2: "length t2 = length t1"
    and e3: "length k = length t2" and e4: "length (strip_closings u k) = length k"
    and e5: "length (strip u (strip_closings u k)) = length (strip_closings u k)"
    using fin by simp_all
  from a1 e1 have c1: "untouched u leak_substitutions body"
    by (simp add: t1_def strip_leaks_substitutions)
  then have t1: "t1 = body"
    by (simp add: t1_def strip_leaks_substitutions substitute_all_untouched)
  from a2 e2 have c2: "list_all (\<lambda>term. \<not> contains body term) incorrect_terms"
    by (simp add: t2_def remove_incorrect_terms_def t1)
  then have t2: "t2 = body"
    by (simp add: t2_def t1 remove_incorrect_terms_def remove_absent_terms)
  from a4 e4 have c4: "untouched u closing_substitutions k"
    by (simp add: strip_closings_substitutions)
  then have t4: "strip_closings u k = k"
    by (simp add: strip_closings_substitutions substitute_all_untouched)
  from a5(2) [OF e5] fin have t5: "strip_closings u k = body"
    by simp
  with t4 have kb: "k = body" by simp
  have c3: "query = [] \<or> whole_paragraphs u body"
  proof (cases "query = []")
    case True
    then show ?thesis by simp
  next
    case False
    with k t2 have "keep_relevant_paragraphs u body query = Inr k" by simp
    from kept_paragraphs_length(2) [OF this] long e3 t2 kb
    show ?thesis by (auto simp: whole_paragraphs_def Let_def)
  qed
  from fin t4 kb have c5: "strip u body = body"
    by simp
  from long have c0: "10 \<le> length body"
    by (simp add: not_less)
  from c4 kb have c4': "untouched u closing_substitutions body"
    by simp
  from c0 c1 c2 c3 c4' c5 show ?thesis
    unfolding already_clean_def by (intro conjI)
qed

text \<open>
  C4. Let \<open>cleaned\<close> be what \<open>clean_llama_response\<close> returns for a raw text and a
  query. If applying the function twice gives what applying it once gives, then
  \<open>cleaned\<close> is already clean for the query. And if \<open>cleaned\<close> is already clean, and the
  query is empty or \<open>cleaned\<close> has at most four paragraphs, then applying the function
  twice gives what applying it once gives. This holds for whatever tables the runtime
  has.
\<close>

theorem clean_idempotent_iff_clean_text:
  assumes "clean_llama_response u raw query = Inr cleaned"
  shows "(clean_twice u raw query = clean_llama_response u raw query \<longrightarrow>
            already_clean u cleaned query) \<and>
         (already_clean u cleaned query \<and>
          (query = [] \<or> length (re_split u no_flags blank_line cleaned) \<le> 4) \<longrightarrow>
            clean_twice u raw query = clean_llama_response u raw query)"
proof -
  have twice: "clean_twice u raw query = clean_llama_response u cleaned query"
    by (simp add: clean_twice_def assms)
  show ?thesis
    unfolding twice assms
    by (auto intro: unchanged_text_is_clean clean_text_unchanged)
qed

text \<open>
  An answer of two paragraphs with a label, tags, three newlines and two spaces in a
  row, to a question about the tumor: the stages of the function on it, and the text
  they end with, which is already clean.
\<close>

lemma example_leaks:
  "strip_leaks latin_arabic
     (U ''Answer: <b>The tumor looks benign.</b>\<newline>\<newline>\<newline>Follow-up  is advised. '') =
   U ''Answer: The tumor looks benign.\<newline>\<newline>\<newline>Follow-up  is advised. ''"
  by (simp add: strip_leaks_def regex_eval)

lemma example_terms:
  "remove_incorrect_terms
     (U ''Answer: The tumor looks benign.\<newline>\<newline>\<newline>Follow-up  is advised. '') =
   U ''Answer: The tumor looks benign.\<newline>\<newline>\<newline>Follow-up  is advised. ''"
  by (simp add: remove_incorrect_terms_def incorrect_terms_def U_def)

lemma example_paragraphs:
  "keep_relevant_paragraphs latin_arabic
     (U ''Answer: The tumor looks benign.\<newline>\<newline>\<newline>Follow-up  is advised. '')
     (U ''Is the tumor benign?'') =
   Inr (U ''Answer: The tumor looks benign.\<newline>\<newline>Follow-up  is advised.'')"
  by (simp add: keep_relevant_paragraphs_def Let_def sort_by_score_def paragraph_score_def regex_eval)

lemma example_closings:
  "strip_closings latin_arabic
     (U ''Answer: The tumor looks benign.\<newline>\<newline>Follow-up  is advised.'') =
   U ''The tumor looks benign.\<newline>\<newline>Follow-up is advised.''"
  by (simp add: strip_closings_def regex_eval)

lemma example_strip:
  "strip latin_arabic (U ''The tumor looks benign.\<newline>\<newline>Follow-up is advised.'') =
   U ''The tumor looks benign.\<newline>\<newline>Follow-up is advised.''"
  by (simp add: regex_eval)

lemma example_once:
  "clean_llama_response latin_arabic
     (U ''Answer: <b>The tumor looks benign.</b>\<newline>\<newline>\<newline>Follow-up  is advised. '')
     (U ''Is the tumor benign?'') =
   Inr (U ''The tumor looks benign.\<newline>\<newline>Follow-up is advised.'')"
proof -
  have len:
    "\<not> length (U ''Answer: <b>The tumor looks benign.</b>\<newline>\<newline>\<newline>Follow-up  is advised. '') < 10"
    "U ''Answer: <b>The tumor looks benign.</b>\<newline>\<newline>\<newline>Follow-up  is advised. '' \<noteq> []"
    "U ''Is the tumor benign?'' \<noteq> []"
    by (simp_all add: U_def)
  show ?thesis
    using len
    by (simp add: clean_llama_response_def Let_def example_leaks example_terms
        example_paragraphs example_closings example_strip)
qed

lemma example_clean:
  "already_clean latin_arabic
     (U ''The tumor looks benign.\<newline>\<newline>Follow-up is advised.'')
     (U ''Is the tumor benign?'')"
  by (simp add: already_clean_def untouched_def leak_substitutions_def closing_substitutions_def
      incorrect_terms_def whole_paragraphs_def Let_def regex_eval)

lemma example_count:
  "length (re_split latin_arabic no_flags blank_line
     (U ''The tumor looks benign.\<newline>\<newline>Follow-up is advised.'')) \<le> 4"
  by (simp add: regex_eval)

theorem clean_idempotent_iff_clean_text_witness:
  "clean_llama_response latin_arabic
     (U ''Answer: <b>The tumor looks benign.</b>\<newline>\<newline>\<newline>Follow-up  is advised. '')
     (U ''Is the tumor benign?'') =
     Inr (U ''The tumor looks benign.\<newline>\<newline>Follow-up is advised.'') \<and>
   already_clean latin_arabic
     (U ''The tumor looks benign.\<newline>\<newline>Follow-up is advised.'')
     (U ''Is the tumor benign?'') \<and>
   length (re_split latin_arabic no_flags blank_line
     (U ''The tumor looks benign.\<newline>\<newline>Follow-up is advised.'')) \<le> 4 \<and>
   clean_twice latin_arabic
     (U ''Answer: <b>The tumor looks benign.</b>\<newline>\<newline>\<newline>Follow-up  is advised. '')
     (U ''Is the tumor benign?'') =
     clean_llama_response latin_arabic
       (U ''Answer: <b>The tumor looks benign.</b>\<newline>\<newline>\<newline>Follow-up  is advised. '')
       (U ''Is the tumor benign?'')"
proof -
  note t = clean_idempotent_iff_clean_text [OF example_once]
  from t example_clean example_count have "clean_twice latin_arabic
     (U ''Answer: <b>The tumor looks benign.</b>\<newline>\<newline>\<newline>Follow-up  is advised. '')
     (U ''Is the tumor benign?'') =
     clean_llama_response latin_arabic
       (U ''Answer: <b>The tumor looks benign.</b>\<newline>\<newline>\<newline>Follow-up  is advised. '')
       (U ''Is the tumor benign?'')"
    by blast
  with example_once example_clean example_count show ?thesis
    by (intro conjI)
qed

text \<open>
  The second application can differ from the first. The answer
  \<open>Answer: Yes.\<close> has 12 characters, and without its label 4: it is cleaned to
  \<open>Yes.\<close>, which the guard on texts of fewer than 10 characters then replaces by the
  fixed message.
\<close>

lemma label_leaks: "strip_leaks latin_arabic (U ''Answer: Yes.'') = U ''Answer: Yes.''"
  by (simp add: strip_leaks_def regex_eval)

lemma label_terms: "remove_incorrect_terms (U ''Answer: Yes.'') = U ''Answer: Yes.''"
  by (simp add: remove_incorrect_terms_def incorrect_terms_def U_def)

lemma label_closings: "strip_closings latin_arabic (U ''Answer: Yes.'') = U ''Yes.''"
  by (simp add: strip_closings_def regex_eval)

theorem clean_not_idempotent_counterexample:
  "clean_llama_response latin_arabic (U ''Answer: Yes.'') [] = Inr (U ''Yes.'') \<and>
   clean_twice latin_arabic (U ''Answer: Yes.'') [] = Inr incomplete_answer \<and>
   clean_twice latin_arabic (U ''Answer: Yes.'') [] \<noteq>
     clean_llama_response latin_arabic (U ''Answer: Yes.'') []"
proof -
  have len: "\<not> length (U ''Answer: Yes.'') < 10" "U ''Answer: Yes.'' \<noteq> []"
    by (simp_all add: U_def)
  have once: "clean_llama_response latin_arabic (U ''Answer: Yes.'') [] = Inr (U ''Yes.'')"
    using len
    by (simp add: clean_llama_response_def Let_def label_leaks label_terms label_closings)
       (simp add: regex_eval)
  have short: "length (U ''Yes.'') < 10"
    by (simp add: U_def)
  have twice: "clean_twice latin_arabic (U ''Answer: Yes.'') [] = Inr incomplete_answer"
    using short by (simp add: clean_twice_def once) (simp add: clean_llama_response_def)
  have "incomplete_answer \<noteq> U ''Yes.''"
    by (simp add: incomplete_answer_def U_def)
  with once twice show ?thesis by simp
qed

text \<open>
  The length of the result is not the only condition. A label is removed at the start
  of the text only, once in each application: of two labels the first application
  removes one and the second the other, and both results have more than 10
  characters.
\<close>

lemma labels_leaks:
  "strip_leaks latin_arabic (U ''Answer: Answer: It is benign.'') = U ''Answer: Answer: It is benign.''"
  "strip_leaks latin_arabic (U ''Answer: It is benign.'') = U ''Answer: It is benign.''"
  by (simp_all add: strip_leaks_def regex_eval)

lemma labels_terms:
  "remove_incorrect_terms (U ''Answer: Answer: It is benign.'') = U ''Answer: Answer: It is benign.''"
  "remove_incorrect_terms (U ''Answer: It is benign.'') = U ''Answer: It is benign.''"
  by (simp_all add: remove_incorrect_terms_def incorrect_terms_def U_def)

lemma labels_closings:
  "strip_closings latin_arabic (U ''Answer: Answer: It is benign.'') = U ''Answer: It is benign.''"
  "strip_closings latin_arabic (U ''Answer: It is benign.'') = U ''It is benign.''"
  by (simp_all add: strip_closings_def regex_eval)

lemma second_label_removed_by_second_application:
  "clean_llama_response latin_arabic (U ''Answer: Answer: It is benign.'') [] =
     Inr (U ''Answer: It is benign.'') \<and>
   clean_twice latin_arabic (U ''Answer: Answer: It is benign.'') [] = Inr (U ''It is benign.'')"
proof -
  have len: "\<not> length (U ''Answer: Answer: It is benign.'') < 10"
    "U ''Answer: Answer: It is benign.'' \<noteq> []"
    "\<not> length (U ''Answer: It is benign.'') < 10" "U ''Answer: It is benign.'' \<noteq> []"
    by (simp_all add: U_def)
  have once: "clean_llama_response latin_arabic (U ''Answer: Answer: It is benign.'') [] =
      Inr (U ''Answer: It is benign.'')"
    using len
    by (simp add: clean_llama_response_def Let_def labels_leaks labels_terms labels_closings)
       (simp add: regex_eval)
  have again: "clean_llama_response latin_arabic (U ''Answer: It is benign.'') [] =
      Inr (U ''It is benign.'')"
    using len
    by (simp add: clean_llama_response_def Let_def labels_leaks labels_terms labels_closings)
       (simp add: regex_eval)
  from once again show ?thesis
    by (simp add: clean_twice_def)
qed

text \<open>
  The fixed message that replaces a text of fewer than 10 characters is already clean,
  for every query.
\<close>

lemma incomplete_answer_already_clean: "already_clean latin_arabic incomplete_answer query"
proof -
  have "whole_paragraphs latin_arabic incomplete_answer"
    by (simp add: whole_paragraphs_def Let_def incomplete_answer_def regex_eval)
  moreover have "10 \<le> length incomplete_answer"
    by (simp add: incomplete_answer_def U_def)
  moreover have "untouched latin_arabic leak_substitutions incomplete_answer"
    by (simp add: untouched_def leak_substitutions_def incomplete_answer_def regex_eval)
  moreover have "list_all (\<lambda>term. \<not> contains incomplete_answer term) incorrect_terms"
    by (simp add: incorrect_terms_def incomplete_answer_def U_def)
  moreover have "untouched latin_arabic closing_substitutions incomplete_answer"
    by (simp add: untouched_def closing_substitutions_def incomplete_answer_def regex_eval)
  moreover have "strip latin_arabic incomplete_answer = incomplete_answer"
    by (simp add: incomplete_answer_def regex_eval)
  ultimately show ?thesis
    by (simp add: already_clean_def)
qed

lemma index_first: "xs \<noteq> [] \<Longrightarrow> index xs 0 = Inr (xs ! 0)"
  by (simp add: index_def)

lemma guarded_first:
  "\<exists>kept. (if c \<and> ps \<noteq> [] then (case index ps 0 of Inl e \<Rightarrow> Inl e | Inr first \<Rightarrow> Inr (f first))
            else Inr g) = Inr kept"
  by (simp add: index_first)

lemma keep_relevant_paragraphs_returns:
  "\<exists>kept. keep_relevant_paragraphs u a query = Inr kept"
  unfolding keep_relevant_paragraphs_def Let_def by (rule guarded_first)

text \<open>
  C9. For every raw text and every query \<open>clean_llama_response\<close> returns a text: the one
  indexing in it is guarded, and every other step is a total function on strings.
\<close>

theorem clean_llama_response_never_raises:
  "\<exists>cleaned. clean_llama_response u answer query = Inr cleaned"
proof (cases "answer = [] \<or> length answer < 10")
  case True
  then show ?thesis
    by (simp only: clean_llama_response_def if_True) blast
next
  case False
  show ?thesis
  proof (cases "query = []")
    case True
    with False show ?thesis
      by (simp only: clean_llama_response_def Let_def if_False not_not if_False sum.case) simp
  next
    case q: False
    obtain kept where
      "keep_relevant_paragraphs u (remove_incorrect_terms (strip_leaks u answer)) query = Inr kept"
      using keep_relevant_paragraphs_returns by blast
    with False q show ?thesis
      by (simp only: clean_llama_response_def Let_def if_False if_True sum.case) simp
  qed
qed

section \<open>Properties of the chat module\<close>

lemma any_in_append: "any_in (xs @ ys) t = (any_in xs t \<or> any_in ys t)"
  by (simp add: any_in_def)

lemma any_in_concat: "any_in (concat xss) t = list_ex (\<lambda>xs. any_in xs t) xss"
  by (induction xss) (simp_all add: any_in_append, simp add: any_in_def)

lemma dict_get_cases: "dict_get d k dflt = dflt \<or> dict_get d k dflt \<in> set (map snd d)"
  by (auto simp: dict_get_def split: option.splits dest: map_of_SomeD intro: rev_image_eqI)

lemma no_keyword_dict_get:
  assumes "\<not> any_in (concat (map snd HEALTH_KEYWORDS)) txt" "\<not> any_in dflt txt"
  shows "\<not> any_in (dict_get HEALTH_KEYWORDS lang dflt) txt"
proof -
  from assms(1) have all: "\<forall>ks \<in> set (map snd HEALTH_KEYWORDS). \<not> any_in ks txt"
    by (simp add: any_in_concat list_ex_iff)
  from dict_get_cases [of HEALTH_KEYWORDS lang dflt] show ?thesis
    using all assms(2) by auto
qed

lemma no_keyword_not_health_related:
  assumes "\<not> any_in (concat (map snd HEALTH_KEYWORDS)) (lower u text)"
  shows "\<not> is_health_related u text language"
proof -
  have e: "\<not> any_in [] (lower u text)" by (simp add: any_in_def)
  note n = no_keyword_dict_get [OF assms]
  from n [OF e] have "\<not> any_in (dict_get HEALTH_KEYWORDS l []) (lower u text)" for l .
  moreover from n [OF n [OF e]]
  have "\<not> any_in (dict_get HEALTH_KEYWORDS language (dict_get HEALTH_KEYWORDS (U ''fr'') []))
            (lower u text)" .
  ultimately show ?thesis
    by (simp add: is_health_related_def Let_def)
qed

text \<open>
  C2. A query whose lowercased text contains none of the health keywords of the three
  supported languages is not health-related, whatever language is detected, and
  \<open>get_llama_response\<close> answers it with the off-topic message of the detected language,
  the French one when that language has none, without running the knowledge
  retrieval, the prompt builder or the generator.
\<close>

theorem off_topic_query:
  assumes "\<not> any_in (concat (map snd HEALTH_KEYWORDS)) (lower u query)"
  shows "\<not> is_health_related u query language \<and>
         get_llama_response u langdetect llama query knowledge_base =
           (dict_get OFF_TOPIC_MESSAGES (detect_language langdetect query)
              (dict_get OFF_TOPIC_MESSAGES (U ''fr'') []), [])"
  using no_keyword_not_health_related [OF assms]
  by (simp add: get_llama_response_def Let_def)

lemma weather_no_keyword:
  "\<not> any_in (concat (map snd HEALTH_KEYWORDS)) (lower latin_arabic (U ''What is the weather today?''))"
  by (simp add: HEALTH_KEYWORDS_def any_in_def latin_arabic_def lower_char_def U_def)

theorem off_topic_query_witness:
  "\<not> any_in (concat (map snd HEALTH_KEYWORDS)) (lower latin_arabic (U ''What is the weather today?'')) \<and>
   \<not> is_health_related latin_arabic (U ''What is the weather today?'') (U ''en'') \<and>
   get_llama_response latin_arabic (\<lambda>text. Some (U ''en'')) (\<lambda>prompt. Inr (U ''It will rain.''))
       (U ''What is the weather today?'') (U ''Le cancer du sein.'') =
     (U ''I specialize in questions related to breast cancer and health. I cannot '' @
      U ''answer this question as it appears to be outside my area of expertise. I'' @
      U ''f you have questions about breast cancer, its symptoms, treatments, or p'' @
      U ''revention, I would be happy to help.'', [])"
proof -
  have msg: "dict_get OFF_TOPIC_MESSAGES (U ''en'') (dict_get OFF_TOPIC_MESSAGES (U ''fr'') []) =
     U ''I specialize in questions related to breast cancer and health. I cannot '' @
      U ''answer this question as it appears to be outside my area of expertise. I'' @
      U ''f you have questions about breast cancer, its symptoms, treatments, or p'' @
      U ''revention, I would be happy to help.''"
    by (simp add: dict_get_def OFF_TOPIC_MESSAGES_def)
  from off_topic_query [OF weather_no_keyword, of "U ''en''" "\<lambda>text. Some (U ''en'')"
      "\<lambda>prompt. Inr (U ''It will rain.'')" "U ''Le cancer du sein.''"] weather_no_keyword msg
  show ?thesis by (simp add: detect_language_def)
qed

text \<open>
  C10. For a question that is not a greeting and is health-related, when the condition
  kept from the image analysis is \<open>normal\<close> or \<open>cancer\<close>, \<open>get_bot_response\<close> returns the
  fixed message about the image in the detected language, the French one for a
  language without a message, and runs neither the knowledge retrieval nor the prompt
  builder nor the generator.
\<close>

theorem image_analysis_override:
  assumes "detect_greeting_language u question = None"
    "is_health_related u question (detect_language langdetect question)"
    "condition = Some (U ''normal'') \<or> condition = Some (U ''cancer'')"
  shows "get_bot_response u langdetect langdetect' llama_model question knowledge_base condition =
     (None,
      dict_get (if condition = Some (U ''normal'') then benign_image_message
                else malignant_image_message)
        (detect_language langdetect question)
        (dict_get (if condition = Some (U ''normal'') then benign_image_message
                   else malignant_image_message) (U ''fr'') []),
      [])"
proof -
  have b: "dict_get benign_image_message (U ''fr'') [] = snd (hd benign_image_message)"
    by (simp add: dict_get_def benign_image_message_def)
  have m: "dict_get malignant_image_message (U ''fr'') [] = snd (hd malignant_image_message)"
    by (simp add: dict_get_def malignant_image_message_def)
  from assms(3) show ?thesis
  proof
    assume "condition = Some (U ''normal'')"
    with assms(1,2) show ?thesis
      by (simp add: get_bot_response_def Let_def b) (simp add: benign_image_message_def)
  next
    assume "condition = Some (U ''cancer'')"
    with assms(1,2) show ?thesis
      by (simp add: get_bot_response_def Let_def m) (simp add: malignant_image_message_def)
  qed
qed

lemma tumor_question_no_greeting:
  "detect_greeting_language latin_arabic (U ''Is the tumor malignant?'') = None"
  by (simp add: detect_greeting_language_def clean_text_def GREETINGS_def regex_eval)

lemma tumor_question_health_related:
  "is_health_related latin_arabic (U ''Is the tumor malignant?'') (U ''en'')"
  by (simp add: is_health_related_def HEALTH_KEYWORDS_def dict_get_def any_in_def latin_arabic_def
      lower_char_def U_def)

theorem image_analysis_override_witness:
  "detect_greeting_language latin_arabic (U ''Is the tumor malignant?'') = None \<and>
   is_health_related latin_arabic (U ''Is the tumor malignant?'')
     (detect_language (\<lambda>text. Some (U ''en'')) (U ''Is the tumor malignant?'')) \<and>
   get_bot_response latin_arabic (\<lambda>text. Some (U ''en'')) (\<lambda>text. Some (U ''en''))
       (Some (\<lambda>prompt. Inr (U ''It may be malignant.''))) (U ''Is the tumor malignant?'')
       (U ''Le cancer du sein.'') (Some (U ''cancer'')) =
     (None, U ''Based on the analysis of your image, a malignant tumor has been detected'' @
      U ''. Please consult a doctor as soon as possible for a professional evaluat'' @ U ''ion.'', [])"
proof -
  have l: "detect_language (\<lambda>text. Some (U ''en'')) (U ''Is the tumor malignant?'') = U ''en''"
    by (simp add: detect_language_def)
  have h: "is_health_related latin_arabic (U ''Is the tumor malignant?'')
     (detect_language (\<lambda>text. Some (U ''en'')) (U ''Is the tumor malignant?''))"
    using tumor_question_health_related by (simp only: l)
  have c: "Some (U ''cancer'') = Some (U ''normal'') \<or> Some (U ''cancer'') = Some (U ''cancer'')"
    by simp
  have msg: "dict_get malignant_image_message (U ''en'') (dict_get malignant_image_message (U ''fr'') []) =
      U ''Based on the analysis of your image, a malignant tumor has been detected'' @
      U ''. Please consult a doctor as soon as possible for a professional evaluat'' @ U ''ion.''"
    by (simp add: dict_get_def malignant_image_message_def)
  from image_analysis_override [OF tumor_question_no_greeting h c,
      of "\<lambda>text. Some (U ''en'')" "Some (\<lambda>prompt. Inr (U ''It may be malignant.''))"
         "U ''Le cancer du sein.''"]
  have "get_bot_response latin_arabic (\<lambda>text. Some (U ''en'')) (\<lambda>text. Some (U ''en''))
       (Some (\<lambda>prompt. Inr (U ''It may be malignant.''))) (U ''Is the tumor malignant?'')
       (U ''Le cancer du sein.'') (Some (U ''cancer'')) =
     (None, U ''Based on the analysis of your image, a malignant tumor has been detected'' @
      U ''. Please consult a doctor as soon as possible for a professional evaluat'' @ U ''ion.'', [])"
    by (simp add: l msg)
  with tumor_question_no_greeting h show ?thesis by (intro conjI)
qed

lemma traitement_health_related:
  "contains (lower u query) (U ''traitement'') \<Longrightarrow> is_health_related u query (U ''fr'')"
  by (simp add: is_health_related_def HEALTH_KEYWORDS_def dict_get_def any_in_def)

lemma traitement_fallback:
  assumes "contains (lower u query) (U ''traitement'')"
    "\<not> any_in [U ''bonjour'', U ''salut'', U ''coucou'', U ''merci'', U ''remercie'',
               U ''symptome'', U ''sympt'' @ [244] @ U ''me'', U ''signe''] (lower u query)"
  shows "get_fallback_response u query (U ''fr'') = french_treatment_fallback"
  using assms
  by (simp add: get_fallback_response_def Let_def any_in_def french_treatment_fallback_def)

lemma llama_failure:
  assumes "langdetect query = Some (U ''fr'')"
    "contains (lower u query) (U ''traitement'')"
    "\<not> any_in [U ''bonjour'', U ''salut'', U ''coucou'', U ''merci'', U ''remercie'',
               U ''symptome'', U ''sympt'' @ [244] @ U ''me'', U ''signe''] (lower u query)"
    "\<And>prompt. llama prompt = Inl (GenerationError msg)"
  shows "\<exists>before.
      get_llama_response u langdetect llama query knowledge_base =
        (french_treatment_fallback, before @ [Show (Error (U ''Erreur g'' @ [233] @ U ''n'' @ [233] @ U ''ration LLaMA: '' @ msg))]) \<and>
      emits (before @ [Show (Error (U ''Erreur g'' @ [233] @ U ''n'' @ [233] @ U ''ration LLaMA: '' @ msg))]) = []"
proof -
  have l: "detect_language langdetect query = U ''fr''"
    using assms(1) by (simp add: detect_language_def)
  have h: "is_health_related u query (U ''fr'')"
    using assms(2) by (rule traitement_health_related)
  have f: "get_fallback_response u query (U ''fr'') = french_treatment_fallback"
    using assms(2,3) by (rule traitement_fallback)
  show ?thesis
    unfolding get_llama_response_def Let_def l
    using h f assms(4)
    by (simp add: error_text_def)
qed

lemma records_unchanged [simp]:
  "records (show_ui s u) = records s"
  "records (s\<lparr>messages := ms\<rparr>) = records s"
  "records (s\<lparr>effects := es\<rparr>) = records s"
  by (simp_all add: records_def show_ui_def)

lemma submit_failure:
  assumes "query \<noteq> []" "detect_greeting_language u query = None"
    "\<And>n. langdetect n query = Some (U ''fr'')"
    "contains (lower u query) (U ''traitement'')"
    "\<not> any_in [U ''bonjour'', U ''salut'', U ''coucou'', U ''merci'', U ''remercie'',
               U ''symptome'', U ''sympt'' @ [244] @ U ''me'', U ''signe''] (lower u query)"
    "\<And>prompt. llama prompt = Inl (GenerationError msg)"
    "detected_condition s \<noteq> Some (U ''normal'')" "detected_condition s \<noteq> Some (U ''cancer'')"
    "callback_manager s = Some m" "well_formed m"
  shows "\<exists>s' kw.
      submit_message u clock strftime format_exc langdetect None (Some llama) knowledge_base query s =
        (None, s') \<and>
      emits (drop (length (effects s)) (effects s')) = [(U ''on_message'', kw)] \<and>
      map_of kw ''bot_response'' = Some (VStr french_treatment_fallback) \<and>
      records s' = keep100 (records s @ [(U ''on_message'', kw)]) \<and>
      messages s' = messages s @ [(U ''user'', query), (U ''assistant'', french_treatment_fallback)]"
proof -
  have "langdetect 2 query = Some (U ''fr'')" by (rule assms(3))
  from llama_failure [of "langdetect 2" query u llama msg knowledge_base, OF this assms(4,5) assms(6)]
  obtain out where
    g: "get_llama_response u (langdetect 2) llama query knowledge_base =
          (french_treatment_fallback, out)"
    and quiet: "emits out = []"
    by blast
  have l: "detect_language (langdetect n) query = U ''fr''" for n
    using assms(3) by (simp add: detect_language_def)
  have h: "is_health_related u query (U ''fr'')"
    using assms(4) by (rule traitement_health_related)
  let ?s1 = "s\<lparr>messages := messages s @ [(U ''user'', query)]\<rparr>"
  have bot: "get_bot_response u (langdetect 1) (langdetect 2) (Some llama) query knowledge_base
        (detected_condition ?s1) = (None, french_treatment_fallback, out)"
    using assms(2,7,8) h g by (simp add: get_bot_response_def Let_def l)
  let ?s2 = "?s1\<lparr>effects := effects ?s1 @ out\<rparr>"
  let ?s3 = "show_ui ?s2 (Markdown french_treatment_fallback)"
  define kw where "kw =
      [(''user_message'', VStr query), (''bot_response'', VStr french_treatment_fallback),
       (''detected_language'', VStr (U ''fr'')), (''timestamp'', VStr strftime)]"
  have mok: "manager_ok ?s3"
    using assms(9,10) by (simp add: manager_ok_def show_ui_def)
  from emit_ok [OF mok, of clock "U ''on_message''" kw]
  obtain s4 new where e: "emit clock ?s3 (U ''on_message'') kw = (None, s4)"
    and ok: "step_ok ?s3 s4 new"
    and em: "emits new = (if callback_manager ?s3 = None then [] else [(U ''on_message'', kw)])"
    by blast
  have some: "callback_manager ?s3 \<noteq> None"
    using assms(9) by (simp add: show_ui_def)
  have known: "U ''on_message'' \<in> set CALLBACK_TYPES"
    by (simp add: CALLBACK_TYPES_def)
  from some em have em': "emits new = [(U ''on_message'', kw)]"
    by (simp only: if_False)
  from ok some have "records s4 =
      keep100 (records ?s3 @ filter (\<lambda>(k, kw). k \<in> set CALLBACK_TYPES) (emits new))"
    unfolding step_ok_def by (simp only: if_False)
  with known have rec: "records s4 = keep100 (records s @ [(U ''on_message'', kw)])"
    by (simp add: em')
  from ok have eff: "effects s4 = effects s @ out @ [Show (Markdown french_treatment_fallback)] @ new"
    by (simp add: step_ok_def show_ui_def)
  from e have msgs: "messages s4 = messages ?s3"
    using assms(9) by (auto simp: emit_def show_ui_def split: prod.splits)
  let ?s5 = "s4\<lparr>messages := messages s4 @ [(U ''assistant'', french_treatment_fallback)]\<rparr>"
  have result: "submit_message u clock strftime format_exc langdetect None (Some llama) knowledge_base
        query s = (None, ?s5)"
    using assms(1) bot e
    by (simp add: submit_message_def Let_def on_message_received_def l kw_def)
  have c1: "emits (drop (length (effects s)) (effects ?s5)) = [(U ''on_message'', kw)]"
    using eff quiet em' by simp
  have c2: "map_of kw ''bot_response'' = Some (VStr french_treatment_fallback)"
    by (simp add: kw_def)
  have c3: "records ?s5 = keep100 (records s @ [(U ''on_message'', kw)])"
    using rec by simp
  have c4: "messages ?s5 =
      messages s @ [(U ''user'', query), (U ''assistant'', french_treatment_fallback)]"
    using msgs by (simp add: show_ui_def)
  from result c1 c2 c3 c4 show ?thesis
    by (intro exI [of _ ?s5] exI [of _ kw] conjI)
qed

lemma question_not_empty: "U ''Quel est le traitement ?'' \<noteq> []"
  by (simp add: U_def)

lemma question_no_greeting:
  "detect_greeting_language latin_arabic (U ''Quel est le traitement ?'') = None"
  by (simp add: detect_greeting_language_def clean_text_def GREETINGS_def regex_eval)

lemma question_about_treatment:
  "contains (lower latin_arabic (U ''Quel est le traitement ?'')) (U ''traitement'')"
  by (simp add: latin_arabic_def lower_char_def U_def)

lemma question_no_earlier_topic:
  "\<not> any_in [U ''bonjour'', U ''salut'', U ''coucou'', U ''merci'', U ''remercie'',
              U ''symptome'', U ''sympt'' @ [244] @ U ''me'', U ''signe'']
       (lower latin_arabic (U ''Quel est le traitement ?''))"
  by (simp add: any_in_def latin_arabic_def lower_char_def U_def)

lemma fresh_state:
  "manager_ok \<lparr>callback_manager = Some (fst CallbackManager_init), detected_condition = None,
          effects = [], triggers = 0, messages = []\<rparr>"
  "records \<lparr>callback_manager = Some (fst CallbackManager_init), detected_condition = None,
          effects = [], triggers = 0, messages = []\<rparr> = []"
  by (simp_all add: manager_ok_def records_def well_formed_init, simp add: CallbackManager_init_def)

text \<open>
  The handler of \<open>chat_section\<close> for an exception of the answer (lines 269 to 278)
  does record the error: with a manager, it shows the fallback answer and the history
  gains one \<open>on_error\<close> event of type \<open>response_generation_error\<close> for the module
  \<open>chat\<close>.
\<close>

lemma handler_records_error:
  assumes "callback_manager s = Some m" "well_formed m"
  shows "\<exists>s' kw.
      recover u clock strftime format_exc user_input detected_language current_response e s =
        (None, s') \<and>
      records s' = keep100 (records s @ [(U ''on_error'', kw)]) \<and>
      map_of kw ''error_type'' = Some (VStr (U ''response_generation_error'')) \<and>
      map_of kw ''module'' = Some (VStr (U ''chat''))"
proof -
  let ?s1 = "s\<lparr>effects := effects s @
                  [Log ERROR (U ''Erreur lors de la g'' @ [233] @ U ''n'' @ [233] @
                              U ''ration de la r'' @ [233] @ U ''ponse: '' @ error_text e),
                   Log ERROR (format_exc e)]\<rparr>"
  let ?response = "get_fallback_response u user_input detected_language"
  let ?s2 = "show_ui ?s1 (Markdown (current_response @ ?response))"
  define kw where "kw =
      [(''error_type'', VStr (U ''response_generation_error'')),
       (''error_message'', VStr (error_text e)),
       (''module'', VStr (U ''chat'')), (''timestamp'', VStr strftime)]"
  have mok: "manager_ok ?s2"
    using assms by (simp add: manager_ok_def show_ui_def)
  from emit_ok [OF mok, of clock "U ''on_error''" kw]
  obtain s3 new where em: "emit clock ?s2 (U ''on_error'') kw = (None, s3)"
    and ok: "step_ok ?s2 s3 new"
    and new: "emits new = (if callback_manager ?s2 = None then [] else [(U ''on_error'', kw)])"
    by blast
  have some: "callback_manager ?s2 \<noteq> None"
    using assms(1) by (simp add: show_ui_def)
  have known: "U ''on_error'' \<in> set CALLBACK_TYPES"
    by (simp add: CALLBACK_TYPES_def)
  from some new have new': "emits new = [(U ''on_error'', kw)]"
    by (simp only: if_False)
  from ok some have "records s3 =
      keep100 (records ?s2 @ filter (\<lambda>(k, kw). k \<in> set CALLBACK_TYPES) (emits new))"
    unfolding step_ok_def by (simp only: if_False)
  with known have rec: "records s3 = keep100 (records s @ [(U ''on_error'', kw)])"
    by (simp add: new')
  let ?s4 = "s3\<lparr>messages := messages s3 @ [(U ''assistant'', ?response)]\<rparr>"
  have result: "recover u clock strftime format_exc user_input detected_language
      current_response e s = (None, ?s4)"
    using em by (simp add: recover_def Let_def on_error_occurred_def kw_def)
  have c2: "records ?s4 = keep100 (records s @ [(U ''on_error'', kw)])"
    using rec by simp
  have c3: "map_of kw ''error_type'' = Some (VStr (U ''response_generation_error''))"
    "map_of kw ''module'' = Some (VStr (U ''chat''))"
    by (simp_all add: kw_def)
  from result c2 c3 show ?thesis
    by (intro exI [of _ ?s4] exI [of _ kw] conjI)
qed

text \<open>
  C7. The question \<open>Quel est le traitement ?\<close>, detected as French, is sent with a
  generator that raises and a manager fresh from its constructor. The fallback text
  about treatments is the answer, as the claim says. No error event is recorded:
  \<open>get_llama_response\<close> catches the exception itself and makes no call to the manager,
  so the handler of \<open>chat_section\<close> that records \<open>on_error\<close> is not reached, and after
  the message has been handled the history holds one \<open>on_message\<close> event and no
  \<open>on_error\<close> event.
\<close>

theorem generator_failure_records_no_error_event:
  "fst (get_llama_response latin_arabic (\<lambda>text. Some (U ''fr'')) (\<lambda>prompt. Inl (GenerationError (U ''model failure'')))
        (U ''Quel est le traitement ?'') (U ''Le cancer du sein.'')) = french_treatment_fallback \<and>
   emitted (U ''on_error'') (snd (get_llama_response latin_arabic (\<lambda>text. Some (U ''fr'')) (\<lambda>prompt. Inl (GenerationError (U ''model failure'')))
        (U ''Quel est le traitement ?'') (U ''Le cancer du sein.''))) = [] \<and>
   map fst (records (snd (submit_message latin_arabic (\<lambda>n. 0) (U ''2025-01-01 00:00:00'') (\<lambda>e. U ''Traceback'')
        (\<lambda>n text. Some (U ''fr'')) None (Some (\<lambda>prompt. Inl (GenerationError (U ''model failure''))))
        (U ''Le cancer du sein.'') (U ''Quel est le traitement ?'')
        \<lparr>callback_manager = Some (fst CallbackManager_init), detected_condition = None,
          effects = [], triggers = 0, messages = []\<rparr>))) = [U ''on_message''] \<and>
   recorded (U ''on_error'') (callback_manager (snd (submit_message latin_arabic (\<lambda>n. 0) (U ''2025-01-01 00:00:00'') (\<lambda>e. U ''Traceback'')
        (\<lambda>n text. Some (U ''fr'')) None (Some (\<lambda>prompt. Inl (GenerationError (U ''model failure''))))
        (U ''Le cancer du sein.'') (U ''Quel est le traitement ?'')
        \<lparr>callback_manager = Some (fst CallbackManager_init), detected_condition = None,
          effects = [], triggers = 0, messages = []\<rparr>))) = []"
proof -
  let ?s = "\<lparr>callback_manager = Some (fst CallbackManager_init), detected_condition = None,
          effects = [], triggers = 0, messages = []\<rparr>"
  have c: "detected_condition ?s \<noteq> Some (U ''normal'')" "detected_condition ?s \<noteq> Some (U ''cancer'')"
    by simp_all
  have m: "callback_manager ?s = Some (fst CallbackManager_init)" by simp
  have ld: "(\<lambda>n text. Some (U ''fr'')) n (U ''Quel est le traitement ?'') = Some (U ''fr'')" for n by simp
  have ll: "(\<lambda>prompt. Inl (GenerationError (U ''model failure''))) prompt = Inl (GenerationError (U ''model failure''))" for prompt by simp
  from llama_failure [of "\<lambda>text. Some (U ''fr'')" "U ''Quel est le traitement ?''" latin_arabic "(\<lambda>prompt. Inl (GenerationError (U ''model failure'')))" "U ''model failure''"
      "U ''Le cancer du sein.''", OF _ question_about_treatment question_no_earlier_topic ll]
  obtain out where g: "get_llama_response latin_arabic (\<lambda>text. Some (U ''fr'')) (\<lambda>prompt. Inl (GenerationError (U ''model failure'')))
        (U ''Quel est le traitement ?'') (U ''Le cancer du sein.'') = (french_treatment_fallback, out)" and quiet: "emits out = []"
    by auto
  from submit_failure [of "U ''Quel est le traitement ?''" latin_arabic "(\<lambda>n text. Some (U ''fr''))" "(\<lambda>prompt. Inl (GenerationError (U ''model failure'')))" "U ''model failure''" ?s
      "fst CallbackManager_init" "\<lambda>n. 0" "U ''2025-01-01 00:00:00''" "\<lambda>e. U ''Traceback''"
      "U ''Le cancer du sein.''",
      OF question_not_empty question_no_greeting ld question_about_treatment
         question_no_earlier_topic ll c m well_formed_init]
  obtain s' kw where
    r: "submit_message latin_arabic (\<lambda>n. 0) (U ''2025-01-01 00:00:00'') (\<lambda>e. U ''Traceback'')
        (\<lambda>n text. Some (U ''fr'')) None (Some (\<lambda>prompt. Inl (GenerationError (U ''model failure''))))
        (U ''Le cancer du sein.'') (U ''Quel est le traitement ?'')
        \<lparr>callback_manager = Some (fst CallbackManager_init), detected_condition = None,
          effects = [], triggers = 0, messages = []\<rparr> = (None, s')"
    and rec: "records s' = keep100 (records ?s @ [(U ''on_message'', kw)])"
    by blast
  from rec have rec': "records s' = [(U ''on_message'', kw)]"
    by (simp add: fresh_state keep100_small)
  have e1: "emitted (U ''on_error'') out = []"
    using quiet by (simp add: emitted_emits)
  have e2: "recorded (U ''on_error'') (callback_manager s') = []"
    by (simp add: recorded_records rec')
  from g e1 r rec' e2 show ?thesis by simp
qed

end
